(* ===== verification/Coord_Prelude.thy ===== *)
theory Coord_Prelude
  imports Main "HOL-Library.Word" "HOL-Library.AList" "HOL-Library.Multiset"
begin

text \<open>
  The vocabulary every component shares.

  \<^item> Machine integers. \<open>u8\<close>, \<open>u32\<close>, \<open>u64\<close> are words and their \<open>+\<close>, \<open>-\<close>, \<open>*\<close> wrap, which is what
    Rust's release profile does; \<open>checked_add\<close>, \<open>checked_mul\<close>, \<open>saturating_sub\<close> and
    \<open>abs_diff\<close> are the standard library's. The target is 64 bit: \<open>usize\<close> is \<open>u64\<close>,
    \<open>x as usize\<close> is \<open>unat x\<close> where a length is meant, and \<open>usize::try_from\<close> of a
    \<open>u64\<close> never fails.
  \<^item> Results. \<open>Ok\<close> and \<open>Err\<close> are Rust's; \<open>Panic\<close> is the value of a call that panics
    (\<open>unwrap\<close>, \<open>expect\<close>, \<open>assert!\<close>, an index out of range).
  \<^item> Hash maps. A \<open>HashMap\<close> whose entries are counted or iterated is an association list with
    distinct keys (\<open>hm_wf\<close>), so that its length and its iteration are computed; a map that
    is only looked up and updated is a HOL map. A \<open>HashSet\<close> is a HOL set.
  \<^item> Reachable states of a step relation, and the rule that an invariant kept by every step
    holds in each of them (locale \<open>invariant_system\<close>).
\<close>

section \<open>Machine integers\<close>

type_synonym u8 = "8 word"
type_synonym u32 = "32 word"
type_synonym u64 = "64 word"
type_synonym usize = "64 word"
type_synonym bytes = "u8 list"

definition checked_add :: "'a::len word \<Rightarrow> 'a word \<Rightarrow> 'a word option" where
  "checked_add a b = (if unat a + unat b < 2 ^ LENGTH('a) then Some (a + b) else None)"

definition checked_mul :: "'a::len word \<Rightarrow> 'a word \<Rightarrow> 'a word option" where
  "checked_mul a b = (if unat a * unat b < 2 ^ LENGTH('a) then Some (a * b) else None)"

definition saturating_sub :: "'a::len word \<Rightarrow> 'a word \<Rightarrow> 'a word" where
  "saturating_sub a b = (if b \<le> a then a - b else 0)"

definition abs_diff :: "'a::len word \<Rightarrow> 'a word \<Rightarrow> 'a word" where
  "abs_diff a b = (if b \<le> a then a - b else b - a)"

text \<open>\<open>iter().sum::<u64>()\<close>: wraps, as every unchecked addition of the release profile.\<close>

fun wrapping_sum :: "'a::len word list \<Rightarrow> 'a word" where
  "wrapping_sum [] = 0"
| "wrapping_sum (x # xs) = x + wrapping_sum xs"

text \<open>
  A \<open>Vec\<close> never holds more than \<open>isize::MAX\<close> bytes, so its length stays below \<open>2 ^ 63\<close> for
  elements of at least one byte.
\<close>

definition vec_ok :: "'a list \<Rightarrow> bool" where
  "vec_ok xs \<longleftrightarrow> length xs < 2 ^ 63"

section \<open>Results\<close>

datatype ('e, 'a) result = Ok 'a | Err 'e | Panic

fun is_Ok :: "('e, 'a) result \<Rightarrow> bool" where
  "is_Ok (Ok _) = True"
| "is_Ok (Err _) = False"
| "is_Ok Panic = False"

text \<open>The \<open>?\<close> operator.\<close>

fun and_then :: "('e, 'a) result \<Rightarrow> ('a \<Rightarrow> ('e, 'b) result) \<Rightarrow> ('e, 'b) result" where
  "and_then (Ok x) f = f x"
| "and_then (Err e) f = Err e"
| "and_then Panic f = Panic"

section \<open>Hash maps as association lists\<close>

type_synonym ('k, 'v) hashmap = "('k \<times> 'v) list"

definition hm_wf :: "('k, 'v) hashmap \<Rightarrow> bool" where
  "hm_wf m \<longleftrightarrow> distinct (map fst m)"

text \<open>\<open>slice::get\<close>: \<open>None\<close> out of range.\<close>

definition vec_get :: "'a list \<Rightarrow> nat \<Rightarrow> 'a option" where
  "vec_get xs i = (if i < length xs then Some (xs ! i) else None)"

section \<open>Reachable states\<close>

inductive reachable :: "('s \<Rightarrow> bool) \<Rightarrow> ('s \<Rightarrow> 's \<Rightarrow> bool) \<Rightarrow> 's \<Rightarrow> bool"
  for init :: "'s \<Rightarrow> bool" and step :: "'s \<Rightarrow> 's \<Rightarrow> bool" where
  reachable_init: "init s \<Longrightarrow> reachable init step s"
| reachable_step: "reachable init step s \<Longrightarrow> step s s' \<Longrightarrow> reachable init step s'"

locale invariant_system =
  fixes init :: "'s \<Rightarrow> bool"
    and step :: "'s \<Rightarrow> 's \<Rightarrow> bool"
    and inv :: "'s \<Rightarrow> bool"
  assumes inv_init: "init s \<Longrightarrow> inv s"
    and inv_step: "inv s \<Longrightarrow> step s s' \<Longrightarrow> inv s'"
begin

lemma reachable_inv: "reachable init step s \<Longrightarrow> inv s"
  by (induction rule: reachable.induct) (auto intro: inv_init inv_step)

end

section \<open>Shared lemmas\<close>

named_theorems hm_simps \<open>lookup, length and key facts of hash maps\<close>
named_theorems u64_simps \<open>reading word arithmetic as arithmetic on naturals\<close>

lemma and_then_Ok_iff: "and_then r f = Ok y \<longleftrightarrow> (\<exists>x. r = Ok x \<and> f x = Ok y)"
  by (cases r) auto

lemma is_Ok_iff: "is_Ok r \<longleftrightarrow> (\<exists>x. r = Ok x)"
  by (cases r) auto

lemma checked_add_Some:
  "checked_add a b = Some c \<longleftrightarrow> unat a + unat b < 2 ^ LENGTH('a) \<and> c = a + b"
  for a b c :: "'a::len word"
  by (auto simp: checked_add_def)

text \<open>For evaluation: the same test on binary integers, as \<open>2 ^ 64\<close> is out of reach in unary.\<close>

lemma less_2p_uint: "n < 2 ^ k \<longleftrightarrow> int n < 2 ^ k"
  by (metis of_nat_less_iff of_nat_numeral of_nat_power)

lemma checked_add_code [code]:
  "checked_add a b = (if uint a + uint b < 2 ^ LENGTH('a) then Some (a + b) else None)"
  for a b :: "'a::len word"
  by (simp add: checked_add_def less_2p_uint)

lemma checked_mul_code [code]:
  "checked_mul a b = (if uint a * uint b < 2 ^ LENGTH('a) then Some (a * b) else None)"
  for a b :: "'a::len word"
  by (simp add: checked_mul_def less_2p_uint)

lemma unat_checked_add:
  "checked_add a b = Some c \<Longrightarrow> unat c = unat a + unat b" for a b c :: "'a::len word"
  by (simp add: checked_add_Some unat_word_ariths)

lemma unat_checked_mul:
  "checked_mul a b = Some c \<Longrightarrow> unat c = unat a * unat b" for a b c :: "'a::len word"
  by (auto simp: checked_mul_def unat_word_ariths split: if_splits)

lemma unat_sub_if_le [u64_simps]: "b \<le> a \<Longrightarrow> unat (a - b) = unat a - unat b"
  for a b :: "'a::len word"
  by (simp add: unat_sub)

lemma unat_abs_diff [u64_simps]:
  "unat (abs_diff a b) = (if unat b \<le> unat a then unat a - unat b else unat b - unat a)"
  for a b :: "'a::len word"
  by (auto simp: abs_diff_def unat_sub word_le_nat_alt)

lemma unat_saturating_sub [u64_simps]: "unat (saturating_sub a b) = unat a - unat b"
  for a b :: "'a::len word"
  by (auto simp: saturating_sub_def unat_sub word_le_nat_alt)

lemma unat_wrapping_sum:
  "sum_list (map unat xs) < 2 ^ LENGTH('a) \<Longrightarrow> unat (wrapping_sum xs) = sum_list (map unat xs)"
  for xs :: "'a::len word list"
  by (induction xs) (auto simp: unat_word_ariths)

lemma vec_get_Some: "vec_get xs i = Some x \<longleftrightarrow> i < length xs \<and> xs ! i = x"
  by (auto simp: vec_get_def)

lemma vec_get_None [simp]: "vec_get xs i = None \<longleftrightarrow> length xs \<le> i"
  by (auto simp: vec_get_def)

lemma hm_get_update [hm_simps]:
  "map_of (AList.update k v m) k' = (if k' = k then Some v else map_of m k')"
  by (simp add: update_conv')

lemma hm_get_delete [hm_simps]:
  "map_of (AList.delete k m) k' = (if k' = k then None else map_of m k')"
  by (simp add: delete_conv')

lemma hm_wf_Nil [simp]: "hm_wf []"
  by (simp add: hm_wf_def)

lemma hm_wf_update [simp]: "hm_wf m \<Longrightarrow> hm_wf (AList.update k v m)"
  by (simp add: hm_wf_def distinct_update)

lemma hm_wf_delete [simp]: "hm_wf m \<Longrightarrow> hm_wf (AList.delete k m)"
  by (simp add: hm_wf_def distinct_delete)

lemma hm_len_update [hm_simps]:
  "length (AList.update k v m) = (if map_of m k = None then Suc (length m) else length m)"
  by (induction m) auto

lemma hm_len_delete_le [hm_simps]: "length (AList.delete k m) \<le> length m"
  by (rule length_delete_le)

lemma hm_len_delete_less [hm_simps]:
  "map_of m k = Some v \<Longrightarrow> length (AList.delete k m) < length m"
proof (induction m)
  case (Cons p m)
  then show ?case
    using length_delete_le [of k m] by (cases p) (auto split: if_splits)
qed simp

lemma hm_get_iff: "hm_wf m \<Longrightarrow> map_of m k = Some v \<longleftrightarrow> (k, v) \<in> set m"
  by (simp add: hm_wf_def)

lemma hm_keys_dom: "fst ` set m = dom (map_of m)"
  by (simp add: dom_map_of_conv_image_fst)

lemma mset_map_of_eq:
  assumes "hm_wf m" and "mset m' = mset m"
  shows "hm_wf m'" and "map_of m' = map_of m"
proof -
  from assms(2) have "mset (map fst m') = mset (map fst m)"
    by (metis mset_map)
  with assms(1) show wf: "hm_wf m'"
    unfolding hm_wf_def by (metis mset_eq_imp_distinct_iff)
  have "set m' = set m"
    using assms(2) by (rule mset_eq_setD)
  with assms(1) wf show "map_of m' = map_of m"
    unfolding hm_wf_def by (metis map_of_inject_set)
qed

lemma mset_length_eq: "mset m' = mset m \<Longrightarrow> length m' = length m"
  by (rule mset_eq_length)

end
