(* ===== verification/Coord_Shared.thy ===== *)
theory Coord_Shared
  imports Coord_Prelude
begin

text \<open>
  \<^verbatim>\<open>crates/coord-shared/src/lib.rs\<close>: execution identifiers and their text form, the share
  abstraction, the protocol rounds, the errors, and the default batch methods of the
  \<open>Coordinator\<close> trait.

  The crates \<open>hex\<close> and \<open>stoffelmpc_mpc\<close> are third-party code: their functions are parameters.
  What the coordinator relies on of \<open>hex\<close> is \<open>hex_codec\<close>; the operations of a share type are the
  arguments \<open>new_share\<close>, \<open>share0\<close>, \<open>share_id\<close>, \<open>share_degree\<close>, \<open>mul_share\<close> and
  \<open>add_value\<close> of the two \<open>compute_masked_input\<close>.
\<close>

section \<open>Errors\<close>

text \<open>
  The texts inside \<open>JSONError\<close> are formatted messages. \<open>reason\<close> has one constructor for each
  format string the coordinator uses, with the arguments it prints.
\<close>

datatype ExecutionId = ExecutionId (as_bytes: bytes)

datatype reason =
    ZeroExecutionIdNotValid
  | ExecutionIsAlreadyRegistered ExecutionId
  | ExecutionRegisteredWithDifferentMetadata ExecutionId
  | ExecutionCapacityReached nat
  | OnlyPartiesCanRetire
  | OutputQuorumOverflow
  | RequiresAtLeastOneNode
  | WrongNodeCount u64 nat
  | ThresholdNotBelowNodeCount u64 u64
  | NodeCountBelowTwiceThreshold u64 u64
  | NodeIdentitiesNotUnique
  | ExecutionIdMustBeNonzero
  | ProgramHashMustBeNonzero
  | InputAssignmentCovers u64 u64
  | RangeReferencesClient u32 nat
  | OutputQuorumOutOfRange u64 u64
  | DuplicateClientSlot u64
  | NoManifestEntry u64
  | UnboundSlots "u64 list"
  | ClientBoundToMultipleSlots
  | TooManyInputClients
  | AssignedMaskRangeOverflows
  | WrongAssignedMaskShareRange
  | SubscriptionEnded
  | OutputSubscriptionEnded
  | RemoteCallFailed
  | TooFewOutputShares nat nat

datatype CoordinatorError =
    IndexAlreadyReserved nat
  | MaskedInputAlreadySent nat
  | MaskReconstructionFailed nat
  | EthereumError string
  | U256ToFrError
  | U256ToU64Error
  | U64ToUsizeError
  | ParsingDERAsPKCS8Failed
  | ParsingPrivateKeyFailed
  | DeserializationError
  | SerializationError
  | ParsingPublicKeyFailed
  | EncryptionError
  | DecryptionError
  | JSONError reason
  | SubscriptionError reason
  | ParsingEncapsulatedKeyFailed
  | CannotTransitionToIdle
  | ShareError
  | BindError string
  | ConnectError string
  | TlsConfigError string

datatype NodeRPCError =
    ExecutionNotFound
  | IndexAlreadyAdded
  | IndexNotAdded
  | NodeJSONError
  | NodeSerializationError
  | NodeEthereumError string
  | AuthenticationFailed bytes

section \<open>Execution identifiers\<close>

definition eid_wf :: "ExecutionId \<Rightarrow> bool" where
  "eid_wf e \<longleftrightarrow> length (as_bytes e) = 32"

definition is_zero :: "ExecutionId \<Rightarrow> bool" where
  "is_zero e \<longleftrightarrow> as_bytes e = replicate 32 0"

definition eid_to_string :: "(bytes \<Rightarrow> string) \<Rightarrow> ExecutionId \<Rightarrow> string" where
  "eid_to_string hex_encode e = hex_encode (as_bytes e)"

datatype parse_error = WrongLength nat | InvalidHex | MustBeNonzero | MissingComma | InvalidHash | HashNot32Bytes

text \<open>\<open>try_into().expect(..)\<close> panics when the decoded bytes are not 32.\<close>

definition eid_from_str :: "(string \<Rightarrow> bytes option) \<Rightarrow> string \<Rightarrow> (parse_error, ExecutionId) result" where
  "eid_from_str hex_decode value =
     (if length value \<noteq> 64 then Err (WrongLength (length value))
      else case hex_decode value of
             None \<Rightarrow> Err InvalidHex
           | Some bs \<Rightarrow> if length bs = 32 then Ok (ExecutionId bs) else Panic)"

text \<open>The documented behaviour of \<open>hex::encode\<close> and \<open>hex::decode\<close>.\<close>

definition hex_codec :: "(bytes \<Rightarrow> string) \<Rightarrow> (string \<Rightarrow> bytes option) \<Rightarrow> bool" where
  "hex_codec enc dec \<longleftrightarrow>
     (\<forall>bs. length (enc bs) = 2 * length bs \<and> dec (enc bs) = Some bs \<and> set (enc bs) \<subseteq> set ''0123456789abcdef'') \<and>
     (\<forall>s bs. dec s = Some bs \<longrightarrow> length s = 2 * length bs)"

section \<open>Shares\<close>

definition min_shares_robust :: "usize \<Rightarrow> usize" where
  "min_shares_robust t = 2 * t + 1"

definition min_shares_feldman :: "usize \<Rightarrow> usize" where
  "min_shares_feldman t = t + 1"

definition compute_masked_input_robust ::
  "('f \<Rightarrow> usize \<Rightarrow> usize \<Rightarrow> 's) \<Rightarrow> ('s \<Rightarrow> 'f) \<Rightarrow> ('s \<Rightarrow> usize) \<Rightarrow> ('s \<Rightarrow> usize)
    \<Rightarrow> 'f::field \<Rightarrow> 's \<Rightarrow> ('e, 's) result" where
  "compute_masked_input_robust new_share share0 share_id share_degree input mask_share =
     Ok (new_share (input - share0 mask_share) (share_id mask_share) (share_degree mask_share))"

definition compute_masked_input_feldman ::
  "('s \<Rightarrow> 'f \<Rightarrow> ('e, 's) result) \<Rightarrow> ('s \<Rightarrow> 'f \<Rightarrow> ('e, 's) result)
    \<Rightarrow> 'f::field \<Rightarrow> 's \<Rightarrow> ('e, 's) result" where
  "compute_masked_input_feldman mul_share add_value input mask_share =
     and_then (mul_share mask_share (- 1)) (\<lambda>neg_mask_share. add_value neg_mask_share input)"

section \<open>Rounds\<close>

datatype Round =
    Idle
  | Preprocessing
  | InputMaskReservation
  | InputCollection
  | MPCExecution
  | OutputDistribution
  | ProgramFinished

fun round_index :: "Round \<Rightarrow> u8" where
  "round_index Idle = 0"
| "round_index Preprocessing = 1"
| "round_index InputMaskReservation = 2"
| "round_index InputCollection = 3"
| "round_index MPCExecution = 4"
| "round_index OutputDistribution = 5"
| "round_index ProgramFinished = 6"

fun round_before :: "Round \<Rightarrow> Round option" where
  "round_before Idle = None"
| "round_before Preprocessing = Some Idle"
| "round_before InputMaskReservation = Some Preprocessing"
| "round_before InputCollection = Some InputMaskReservation"
| "round_before MPCExecution = Some InputCollection"
| "round_before OutputDistribution = Some MPCExecution"
| "round_before ProgramFinished = Some OutputDistribution"

text \<open>Rounds are ordered by their position in the protocol.\<close>

instantiation Round :: linorder
begin

definition less_eq_Round_def: "r \<le> r' \<longleftrightarrow> round_index r \<le> round_index r'"
definition less_Round_def: "r < r' \<longleftrightarrow> round_index r < round_index r'"

instance
proof
  fix r r' :: Round
  show "r \<le> r' \<Longrightarrow> r' \<le> r \<Longrightarrow> r = r'"
    by (cases r; cases r') (simp_all add: less_eq_Round_def word_le_nat_alt)
qed (auto simp: less_eq_Round_def less_Round_def)

end

section \<open>The default batch methods of the trait \<open>Coordinator\<close>\<close>

text \<open>
  \<open>reserve_mask_index\<close> and \<open>send_masked_input\<close> are required methods: the implementor's state
  transformers, here the argument \<open>f\<close>. The loop stops at the first error and keeps the state the
  calls before it have left.
\<close>

fun reserve_mask_indices_default ::
  "('s \<Rightarrow> u64 \<Rightarrow> ('e, unit) result \<times> 's) \<Rightarrow> 's \<Rightarrow> u64 list \<Rightarrow> ('e, unit) result \<times> 's" where
  "reserve_mask_indices_default f s [] = (Ok (), s)"
| "reserve_mask_indices_default f s (i # is) =
     (case f s i of
        (Ok _, s') \<Rightarrow> reserve_mask_indices_default f s' is
      | (Err e, s') \<Rightarrow> (Err e, s')
      | (Panic, s') \<Rightarrow> (Panic, s'))"

fun send_masked_inputs_default ::
  "('s \<Rightarrow> 'v \<Rightarrow> u64 \<Rightarrow> ('e, unit) result \<times> 's) \<Rightarrow> 's \<Rightarrow> (u64 \<times> 'v) list
    \<Rightarrow> ('e, unit) result \<times> 's" where
  "send_masked_inputs_default f s [] = (Ok (), s)"
| "send_masked_inputs_default f s ((i, masked_input) # inputs) =
     (case f s masked_input i of
        (Ok _, s') \<Rightarrow> send_masked_inputs_default f s' inputs
      | (Err e, s') \<Rightarrow> (Err e, s')
      | (Panic, s') \<Rightarrow> (Panic, s'))"

section \<open>Lemmas\<close>

named_theorems round_simps \<open>the protocol order on rounds\<close>

lemma round_le_iff [round_simps]: "r \<le> r' \<longleftrightarrow> unat (round_index r) \<le> unat (round_index r')"
  by (simp add: less_eq_Round_def word_le_nat_alt)

lemma round_less_iff [round_simps]: "r < r' \<longleftrightarrow> unat (round_index r) < unat (round_index r')"
  by (simp add: less_Round_def word_less_nat_alt)

lemma Idle_least [simp]: "Idle \<le> r"
  by (simp add: round_simps)

lemma ProgramFinished_greatest [simp]: "r \<le> ProgramFinished"
  by (cases r) (simp_all add: round_simps)

lemma round_before_less: "round_before r = Some r' \<Longrightarrow> r' < r"
  by (cases r) (auto simp: round_simps)

lemma round_before_None [simp]: "round_before r = None \<longleftrightarrow> r = Idle"
  by (cases r) simp_all

lemma round_successor: "r \<noteq> ProgramFinished \<Longrightarrow> \<exists>r'. round_before r' = Some r \<and> r' \<noteq> Idle"
  by (cases r) (metis round_before.simps round_before_None option.distinct(1))+

lemma round_before_adjacent:
  "round_before r = Some r' \<longleftrightarrow> unat (round_index r) = Suc (unat (round_index r'))"
  by (cases r; cases r') simp_all

text \<open>A concrete codec that satisfies \<open>hex_codec\<close>: lower-case hexadecimal digits.\<close>

definition hex_digit :: "nat \<Rightarrow> char" where
  "hex_digit d = ''0123456789abcdef'' ! d"

fun hex_val :: "char \<Rightarrow> nat option" where
  "hex_val c =
     (let i = length (takeWhile (\<lambda>d. d \<noteq> c) ''0123456789abcdef'') in if i < 16 then Some i else None)"

fun hex_enc_ref :: "bytes \<Rightarrow> string" where
  "hex_enc_ref [] = []"
| "hex_enc_ref (b # bs) = hex_digit (unat b div 16) # hex_digit (unat b mod 16) # hex_enc_ref bs"

fun hex_dec_ref :: "string \<Rightarrow> bytes option" where
  "hex_dec_ref [] = Some []"
| "hex_dec_ref [_] = None"
| "hex_dec_ref (c # d # s) =
     (case (hex_val c, hex_val d, hex_dec_ref s) of
        (Some h, Some l, Some bs) \<Rightarrow> Some (of_nat (16 * h + l) # bs)
      | _ \<Rightarrow> None)"

lemma hex_val_digit: "d < 16 \<Longrightarrow> hex_val (hex_digit d) = Some d"
proof -
  have "\<forall>d \<in> set [0..<16]. hex_val (hex_digit d) = Some d"
    by code_simp
  moreover assume "d < 16"
  ultimately show ?thesis by auto
qed

declare hex_val.simps [simp del]

lemma hex_dec_enc_ref: "hex_dec_ref (hex_enc_ref bs) = Some bs"
proof (induction bs)
  case (Cons b bs)
  have "unat b < 256" using unsigned_less [of b] by simp
  then have "unat b div 16 < 16" by auto
  then show ?case
    using Cons by (simp add: hex_val_digit del: of_nat_add of_nat_mult)
qed simp

lemma length_hex_dec_ref: "hex_dec_ref s = Some bs \<Longrightarrow> length s = 2 * length bs"
  by (induction s arbitrary: bs rule: hex_dec_ref.induct) (auto split: option.splits)

lemma length_hex_enc_ref: "length (hex_enc_ref bs) = 2 * length bs"
  by (induction bs) auto

lemma set_hex_enc_ref: "set (hex_enc_ref bs) \<subseteq> set ''0123456789abcdef''"
proof (induction bs)
  case (Cons b bs)
  have "unat b < 256" using unsigned_less [of b] by simp
  then have "hex_digit (unat b div 16) \<in> set ''0123456789abcdef''" "hex_digit (unat b mod 16) \<in> set ''0123456789abcdef''"
    unfolding hex_digit_def by (intro nth_mem; simp)+
  with Cons show ?case by simp
qed simp

lemma hex_codec_ref: "hex_codec hex_enc_ref hex_dec_ref"
  using set_hex_enc_ref by (simp add: hex_codec_def hex_dec_enc_ref length_hex_dec_ref length_hex_enc_ref)

end
