(* ===== verification/Offchain_Types.thy ===== *)
theory Offchain_Types
  imports Coord_Shared
begin

text \<open>
  The data of \<^verbatim>\<open>crates/off-chain/src/lib.rs\<close>: identities, limits, registrations, events and RPC
  errors, and the environment of an RPC call.

  A \<open>SubscriptionSink\<close> is a handle to a remote subscriber; the model names it by a number. A call
  that pushes notifications returns them as a list of \<open>delivery\<close> values, and what the network
  does with each of them is an argument: \<open>ok k m\<close> says that sending \<open>m\<close> to sink \<open>k\<close> completed
  within \<open>SUBSCRIPTION_SEND_TIMEOUT\<close>. Accepting a pending subscription either yields a sink or
  fails: \<open>accepted = Some k\<close> or \<open>None\<close>.
\<close>

section \<open>Identities and limits\<close>

type_synonym ClientIdentity = bytes
type_synonym sink = nat

definition DEFAULT_MAX_CONCURRENT_EXECUTIONS :: nat where
  "DEFAULT_MAX_CONCURRENT_EXECUTIONS = 1024"

definition DEFAULT_MAX_RETIRED_EXECUTIONS :: nat where
  "DEFAULT_MAX_RETIRED_EXECUTIONS = 4096"

section \<open>Assignments and registrations\<close>

record AssignedMaskReservation =
  amr_client :: ClientIdentity
  amr_reserved_index :: u64
  amr_input_ordinal :: u64

record AssignedMaskedInputEvent =
  ami_client :: ClientIdentity
  ami_reserved_index :: u64
  ami_input_ordinal :: u64
  ami_masked_input :: bytes

record AssignedMaskShare =
  ams_reserved_index :: u64
  ams_share_bytes :: bytes

record InputSlotAssignment =
  slot_client_index :: u32
  slot_label :: u64

record InputClientRange =
  range_client_index :: u32
  range_count :: u64

record InputAssignment =
  ia_clients :: "ClientIdentity list"
  ia_ranges :: "InputClientRange list"

record ExecutionRegistration =
  reg_execution_id :: ExecutionId
  reg_program_hash :: bytes
  reg_n_inputs :: u64
  reg_output_clients :: "ClientIdentity list"
  reg_input_assignment :: InputAssignment
  reg_min_output_shares :: u64

section \<open>Events\<close>

datatype Event =
    CoordinatorInitialized u64 ClientIdentity
  | MaskedInputEvent ClientIdentity "(u64 \<times> bytes) list"
  | IndexBufferEvent u64 ClientIdentity
  | ReservedInputEvent ClientIdentity "u64 list"
  | PreprocessingStarted ClientIdentity
  | InputCollectionStarted
  | InputMaskReservationStarted
  | MPCStarted
  | ExecutionDone
  | OutputSendingStarted
  | OutputsPublished
  | ClientInputMaskReservationEvent
  | ClientOutputCollection
  | PreprocessingRoundExecuted

type_synonym enc_share = "bytes \<times> bytes"

datatype message =
    EventMsg Event
  | ReservationsMsg "AssignedMaskReservation list"
  | MaskedInputsMsg "AssignedMaskedInputEvent list"
  | OutputSharesMsg "enc_share list"
  | MaskSharesMsg "AssignedMaskShare list"

type_synonym delivery = "sink \<times> message"

section \<open>RPC errors\<close>

datatype CoordinatorRPCBaseError =
    NotDesignatedParty
  | WrongRound
  | IndexOutOfBounds
  | BadID
  | MaskedInputAlreadySubmitted
  | IndexNotReserved
  | RpcIndexAlreadyReserved
  | OutputSharesAlreadySent
  | OutputSharesAlreadyRequested
  | NotParty
  | SendingFailed
  | NotOutputClient
  | MismatchedBatchLengths
  | ClientAlreadyReserved
  | UnauthorizedClientIo
  | RpcExecutionNotFound
  | ExecutionAlreadyRegistered
  | ShutdownNotAccepted
  | EmptyBatch

fun base_error_code :: "CoordinatorRPCBaseError \<Rightarrow> int" where
  "base_error_code NotDesignatedParty = 1"
| "base_error_code WrongRound = 2"
| "base_error_code IndexOutOfBounds = 3"
| "base_error_code BadID = 4"
| "base_error_code MaskedInputAlreadySubmitted = 5"
| "base_error_code IndexNotReserved = 6"
| "base_error_code RpcIndexAlreadyReserved = 7"
| "base_error_code OutputSharesAlreadySent = 8"
| "base_error_code OutputSharesAlreadyRequested = 9"
| "base_error_code NotParty = 10"
| "base_error_code SendingFailed = 11"
| "base_error_code NotOutputClient = 12"
| "base_error_code MismatchedBatchLengths = 13"
| "base_error_code ClientAlreadyReserved = 14"
| "base_error_code UnauthorizedClientIo = 15"
| "base_error_code RpcExecutionNotFound = 16"
| "base_error_code ExecutionAlreadyRegistered = 17"
| "base_error_code ShutdownNotAccepted = 18"
| "base_error_code EmptyBatch = 19"

text \<open>
  An \<open>ErrorObjectOwned\<close>, told apart by its code; the text beside the code is not modelled.
  \<open>InvalidParams\<close> is jsonrpsee's, \<open>BrowserError\<close> a literal code of \<^verbatim>\<open>browser_rpc.rs\<close>, and
  \<open>TransportError\<close> a subscription whose handshake failed (the \<open>?\<close> after \<open>accept().await\<close>).
\<close>

datatype rpc_error =
    ServerError CoordinatorRPCBaseError
  | InvalidParams
  | BrowserError int
  | TransportError

type_synonym 'a rpc_result = "(rpc_error, 'a) result"

definition ORDERED_ROUNDS :: "Round list" where
  "ORDERED_ROUNDS =
     [Preprocessing, InputMaskReservation, InputCollection, MPCExecution, OutputDistribution,
      ProgramFinished]"

lemma set_ORDERED_ROUNDS [simp]: "r \<in> set ORDERED_ROUNDS \<longleftrightarrow> r \<noteq> Idle"
  by (cases r) (auto simp: ORDERED_ROUNDS_def)

section \<open>Broadcasts\<close>

text \<open>
  \<open>join_all\<close> over the sinks, each send bounded by the timeout: every sink of the list is sent the
  message, and those whose send completed stay subscribed, in the order they had.
\<close>

definition broadcast :: "sink list \<Rightarrow> message \<Rightarrow> delivery list" where
  "broadcast sinks m = map (\<lambda>k. (k, m)) sinks"

definition surviving :: "(sink \<Rightarrow> message \<Rightarrow> bool) \<Rightarrow> sink list \<Rightarrow> message \<Rightarrow> sink list" where
  "surviving ok sinks m = filter (\<lambda>k. ok k m) sinks"

lemma set_surviving: "set (surviving ok sinks m) \<subseteq> set sinks"
  by (auto simp: surviving_def)

lemma surviving_all: "(\<And>k. k \<in> set sinks \<Longrightarrow> ok k m) \<Longrightarrow> surviving ok sinks m = sinks"
  by (simp add: surviving_def)

end
