(* ===== verification/Retired_Executions.thy ===== *)
theory Retired_Executions
  imports Offchain_Types
begin

text \<open>
  \<open>RetiredExecutions\<close> of \<^verbatim>\<open>crates/off-chain/src/lib.rs\<close>: the bounded, insertion-ordered record
  of executions that were evicted before every party had acknowledged them. The code keeps a hash
  map and a queue of its keys; the lemmas show that the two stay in step, and that together they
  implement a bounded first-in-first-out table (\<open>spec_seal\<close>, \<open>spec_acknowledge\<close>).
\<close>

section \<open>The code\<close>

record RetiredExecutions =
  ret_acks :: "ExecutionId \<rightharpoonup> ClientIdentity set"
  ret_order :: "ExecutionId list"

definition retired_default :: RetiredExecutions where
  "retired_default = \<lparr>ret_acks = Map.empty, ret_order = []\<rparr>"

text \<open>The \<open>while\<close> loop of \<open>seal\<close>: drop from the front while the queue is too long.\<close>

fun seal_evict :: "(ExecutionId \<rightharpoonup> ClientIdentity set) \<Rightarrow> ExecutionId list \<Rightarrow> RetiredExecutions" where
  "seal_evict acks [] = \<lparr>ret_acks = acks, ret_order = []\<rparr>"
| "seal_evict acks (evicted # order) =
     (if length (evicted # order) > DEFAULT_MAX_RETIRED_EXECUTIONS
      then seal_evict (acks(evicted := None)) order
      else \<lparr>ret_acks = acks, ret_order = evicted # order\<rparr>)"

definition seal :: "RetiredExecutions \<Rightarrow> ExecutionId \<Rightarrow> ClientIdentity set \<Rightarrow> RetiredExecutions" where
  "seal r e acks =
     seal_evict ((ret_acks r)(e \<mapsto> acks))
       (case ret_acks r e of None \<Rightarrow> ret_order r @ [e] | Some _ \<Rightarrow> ret_order r)"

definition acknowledge ::
  "RetiredExecutions \<Rightarrow> ExecutionId \<Rightarrow> ClientIdentity \<Rightarrow> nat \<Rightarrow> bool \<times> RetiredExecutions" where
  "acknowledge r e party n =
     (case ret_acks r e of
        None \<Rightarrow> (False, r)
      | Some acks \<Rightarrow>
          let acks = insert party acks in
          if card acks \<ge> n
          then (True, \<lparr>ret_acks = (ret_acks r)(e := None), ret_order = filter (\<lambda>c. c \<noteq> e) (ret_order r)\<rparr>)
          else (True, r\<lparr>ret_acks := (ret_acks r)(e \<mapsto> acks)\<rparr>))"

definition retired_contains :: "RetiredExecutions \<Rightarrow> ExecutionId \<Rightarrow> bool" where
  "retired_contains r e \<longleftrightarrow> ret_acks r e \<noteq> None"

section \<open>The abstract table\<close>

definition spec_seal ::
  "(ExecutionId, ClientIdentity set) hashmap \<Rightarrow> ExecutionId \<Rightarrow> ClientIdentity set
    \<Rightarrow> (ExecutionId, ClientIdentity set) hashmap" where
  "spec_seal q e acks =
     (let q' = AList.update e acks q in drop (length q' - DEFAULT_MAX_RETIRED_EXECUTIONS) q')"

definition spec_acknowledge ::
  "(ExecutionId, ClientIdentity set) hashmap \<Rightarrow> ExecutionId \<Rightarrow> ClientIdentity \<Rightarrow> nat
    \<Rightarrow> bool \<times> (ExecutionId, ClientIdentity set) hashmap" where
  "spec_acknowledge q e party n =
     (case map_of q e of
        None \<Rightarrow> (False, q)
      | Some acks \<Rightarrow>
          (True, if card (insert party acks) \<ge> n then AList.delete e q
                 else AList.update e (insert party acks) q))"

definition retired_abs :: "RetiredExecutions \<Rightarrow> (ExecutionId, ClientIdentity set) hashmap" where
  "retired_abs r = map (\<lambda>e. (e, the (ret_acks r e))) (ret_order r)"

section \<open>Well-formedness\<close>

definition retired_wf :: "RetiredExecutions \<Rightarrow> bool" where
  "retired_wf r \<longleftrightarrow> distinct (ret_order r) \<and> set (ret_order r) = dom (ret_acks r) \<and>
     length (ret_order r) \<le> DEFAULT_MAX_RETIRED_EXECUTIONS"

lemma retired_wf_default [simp]: "retired_wf retired_default"
  by (simp add: retired_wf_def retired_default_def)

lemma seal_evict_drop:
  "distinct order \<Longrightarrow>
   ret_order (seal_evict acks order) = drop (length order - DEFAULT_MAX_RETIRED_EXECUTIONS) order \<and>
   ret_acks (seal_evict acks order) =
     (\<lambda>e. if e \<in> set (take (length order - DEFAULT_MAX_RETIRED_EXECUTIONS) order) then None else acks e)"
proof (induction order arbitrary: acks)
  case (Cons x xs)
  show ?case
  proof (cases "length (x # xs) > DEFAULT_MAX_RETIRED_EXECUTIONS")
    case True
    then have "length (x # xs) - DEFAULT_MAX_RETIRED_EXECUTIONS =
        Suc (length xs - DEFAULT_MAX_RETIRED_EXECUTIONS)" by simp
    with True Cons show ?thesis by (auto simp: fun_eq_iff)
  next
    case False
    then show ?thesis by simp
  qed
qed simp

lemma seal_order_distinct:
  assumes "retired_wf r"
  shows "distinct (case ret_acks r e of None \<Rightarrow> ret_order r @ [e] | Some _ \<Rightarrow> ret_order r)"
  using assms by (auto simp: retired_wf_def split: option.splits)

lemma retired_wf_seal:
  assumes "retired_wf r"
  shows "retired_wf (seal r e acks)"
proof -
  let ?o = "case ret_acks r e of None \<Rightarrow> ret_order r @ [e] | Some _ \<Rightarrow> ret_order r"
  let ?k = "length ?o - DEFAULT_MAX_RETIRED_EXECUTIONS"
  have d: "distinct ?o" using assms by (rule seal_order_distinct)
  have s: "set ?o = dom ((ret_acks r)(e \<mapsto> acks))"
    using assms by (auto simp: retired_wf_def split: option.splits)
  have dis: "set (take ?k ?o) \<inter> set (drop ?k ?o) = {}"
    using d by (rule set_take_disj_set_drop_if_distinct) simp
  have un: "set ?o = set (take ?k ?o) \<union> set (drop ?k ?o)"
    by (metis append_take_drop_id set_append)
  have "set (drop ?k ?o) = dom (\<lambda>x. if x \<in> set (take ?k ?o) then None else ((ret_acks r)(e \<mapsto> acks)) x)"
    using dis un s by (auto simp: dom_def split: if_splits)
  then show ?thesis
    unfolding seal_def retired_wf_def using seal_evict_drop [OF d] d by auto
qed

lemma retired_wf_acknowledge: "retired_wf r \<Longrightarrow> retired_wf (snd (acknowledge r e party n))"
  by (auto simp: acknowledge_def retired_wf_def Let_def split: option.splits
      intro: order.trans [OF length_filter_le])

section \<open>Refinement\<close>

lemma map_of_retired_abs:
  "retired_wf r \<Longrightarrow> map_of (retired_abs r) = ret_acks r"
proof
  fix e assume "retired_wf r"
  then show "map_of (retired_abs r) e = ret_acks r e"
    by (cases "e \<in> set (ret_order r)")
       (auto simp: retired_abs_def retired_wf_def map_of_map_restrict dom_def restrict_map_def)
qed

lemma retired_abs_wf: "retired_wf r \<Longrightarrow> hm_wf (retired_abs r)"
  by (simp add: hm_wf_def retired_abs_def retired_wf_def comp_def)

lemma update_map_pairs_in:
  "distinct xs \<Longrightarrow> e \<in> set xs \<Longrightarrow>
   AList.update e v (map (\<lambda>x. (x, f x)) xs) = map (\<lambda>x. (x, if x = e then v else f x)) xs"
  by (induction xs) auto

lemma update_map_pairs_notin:
  "e \<notin> set xs \<Longrightarrow> AList.update e v (map (\<lambda>x. (x, f x)) xs) = map (\<lambda>x. (x, f x)) xs @ [(e, v)]"
  by (induction xs) auto

lemma delete_map_pairs:
  "AList.delete e (map (\<lambda>x. (x, f x)) xs) = map (\<lambda>x. (x, f x)) (filter (\<lambda>c. c \<noteq> e) xs)"
  by (induction xs) auto

lemma retired_abs_seal:
  assumes "retired_wf r"
  shows "retired_abs (seal r e acks) = spec_seal (retired_abs r) e acks"
proof -
  let ?o = "case ret_acks r e of None \<Rightarrow> ret_order r @ [e] | Some _ \<Rightarrow> ret_order r"
  let ?k = "length ?o - DEFAULT_MAX_RETIRED_EXECUTIONS"
  have d: "distinct ?o" using assms by (rule seal_order_distinct)
  have upd: "AList.update e acks (retired_abs r) = map (\<lambda>x. (x, the (((ret_acks r)(e \<mapsto> acks)) x))) ?o"
  proof (cases "e \<in> set (ret_order r)")
    case True
    then have "\<exists>a. ret_acks r e = Some a" using assms by (auto simp: retired_wf_def)
    with True assms show ?thesis
      by (auto simp: retired_abs_def update_map_pairs_in retired_wf_def)
  next
    case False
    then have "ret_acks r e = None" using assms by (auto simp: retired_wf_def dom_def)
    with False show ?thesis
      by (auto simp: retired_abs_def update_map_pairs_notin)
  qed
  have keep: "x \<notin> set (take ?k ?o)" if "x \<in> set (drop ?k ?o)" for x
    using that set_take_disj_set_drop_if_distinct [OF d order.refl, of ?k] by auto
  show ?thesis
    unfolding spec_seal_def upd Let_def
    by (simp add: retired_abs_def seal_def seal_evict_drop [OF d] drop_map keep
        del: fun_upd_apply)
qed

lemma retired_abs_acknowledge:
  assumes "retired_wf r"
  shows "map_prod id retired_abs (acknowledge r e party n) = spec_acknowledge (retired_abs r) e party n"
proof (cases "ret_acks r e")
  case None
  then show ?thesis
    by (simp add: acknowledge_def spec_acknowledge_def map_of_retired_abs [OF assms])
next
  case (Some acks)
  then have "e \<in> set (ret_order r)" and "distinct (ret_order r)"
    using assms by (auto simp: retired_wf_def)
  moreover have "map_of (retired_abs r) e = Some acks"
    using Some by (simp add: map_of_retired_abs [OF assms])
  ultimately show ?thesis
    using Some unfolding acknowledge_def spec_acknowledge_def
    by (auto simp: Let_def retired_abs_def delete_map_pairs update_map_pairs_in)
qed

text \<open>
  The interface the coordinator uses: tables with an abstraction to a bounded queue of
  acknowledgement sets.
\<close>

locale tombstone_table =
  fixes wf :: "'r \<Rightarrow> bool"
    and lookup :: "'r \<Rightarrow> ExecutionId \<Rightarrow> ClientIdentity set option"
    and size_of :: "'r \<Rightarrow> nat"
    and empty :: 'r
    and seal_op :: "'r \<Rightarrow> ExecutionId \<Rightarrow> ClientIdentity set \<Rightarrow> 'r"
    and ack_op :: "'r \<Rightarrow> ExecutionId \<Rightarrow> ClientIdentity \<Rightarrow> nat \<Rightarrow> bool \<times> 'r"
  assumes wf_empty: "wf empty"
    and wf_seal: "wf r \<Longrightarrow> wf (seal_op r e acks)"
    and wf_ack: "wf r \<Longrightarrow> wf (snd (ack_op r e p n))"
    and bounded: "wf r \<Longrightarrow> size_of r \<le> DEFAULT_MAX_RETIRED_EXECUTIONS"
    and lookup_empty: "lookup empty e = None"
    and lookup_seal: "wf r \<Longrightarrow> lookup (seal_op r e acks) e' \<in> {None, if e' = e then Some acks else lookup r e'}"
    and lookup_seal_same: "wf r \<Longrightarrow> lookup (seal_op r e acks) e = Some acks"
    and ack_found: "fst (ack_op r e p n) \<longleftrightarrow> lookup r e \<noteq> None"
    and lookup_ack: "lookup (snd (ack_op r e p n)) e' =
        (case lookup r e of
           None \<Rightarrow> lookup r e'
         | Some acks \<Rightarrow>
             if e' = e then (if card (insert p acks) \<ge> n then None else Some (insert p acks))
             else lookup r e')"
begin

lemma ack_of_tombstone:
  assumes "lookup r e = Some acks" and "card (insert p acks) < n"
  shows "lookup (snd (ack_op r e p n)) e = Some (insert p acks)"
  using assms by (simp add: lookup_ack)

lemma ack_unanimous_forgets:
  assumes "lookup r e = Some acks" and "n \<le> card (insert p acks)"
  shows "lookup (snd (ack_op r e p n)) e = None"
  using assms by (simp add: lookup_ack)

lemma acks_subset_seal:
  assumes "wf r" and "\<And>e a. lookup r e = Some a \<Longrightarrow> a \<subseteq> P" and "acks \<subseteq> P"
    and "lookup (seal_op r e acks) e' = Some a"
  shows "a \<subseteq> P"
  using lookup_seal [OF assms(1), of e acks e'] assms(2-4) by (auto split: if_splits)

lemma acks_subset_ack:
  assumes "\<And>e a. lookup r e = Some a \<Longrightarrow> a \<subseteq> P" and "p \<in> P"
    and "lookup (snd (ack_op r e p n)) e' = Some a"
  shows "a \<subseteq> P"
  using assms by (auto simp: lookup_ack split: option.splits if_splits)

end

lemma lookup_seal_cases:
  assumes "retired_wf r"
  shows "ret_acks (seal r e acks) e' \<in> {None, if e' = e then Some acks else ret_acks r e'}"
  using seal_evict_drop [OF seal_order_distinct [OF assms, of e], of "(ret_acks r)(e \<mapsto> acks)"]
  by (auto simp: seal_def)

lemma take_excess_notin:
  assumes "distinct (xs @ [e])" and "length xs \<le> m" and "0 < m"
  shows "e \<notin> set (take (length (xs @ [e]) - m) (xs @ [e]))"
proof -
  have "set (take (length (xs @ [e]) - m) (xs @ [e])) \<subseteq> set xs"
    using assms(2,3) by (auto simp: take_Cons' dest: in_set_takeD)
  with assms(1) show ?thesis by auto
qed

lemma lookup_seal_same_retired:
  assumes "retired_wf r"
  shows "ret_acks (seal r e acks) e = Some acks"
proof (cases "ret_acks r e")
  case None
  then have "distinct (ret_order r @ [e])" "length (ret_order r) \<le> DEFAULT_MAX_RETIRED_EXECUTIONS"
    using assms seal_order_distinct [OF assms, of e] by (auto simp: retired_wf_def)
  then show ?thesis
    using None take_excess_notin [of "ret_order r" e DEFAULT_MAX_RETIRED_EXECUTIONS]
    by (simp add: seal_def seal_evict_drop DEFAULT_MAX_RETIRED_EXECUTIONS_def del: length_append)
next
  case (Some a)
  then show ?thesis
    using assms by (simp add: seal_def seal_evict_drop retired_wf_def)
qed

interpretation tombstones: tombstone_table retired_wf ret_acks "\<lambda>r. length (ret_order r)"
  retired_default seal acknowledge
proof unfold_locales
  fix r e acks e' p n
  show "retired_wf r \<Longrightarrow> ret_acks (seal r e acks) e' \<in> {None, if e' = e then Some acks else ret_acks r e'}"
    by (rule lookup_seal_cases)
  show "ret_acks (snd (acknowledge r e p n)) e' =
      (case ret_acks r e of
         None \<Rightarrow> ret_acks r e'
       | Some acks \<Rightarrow>
           if e' = e then (if card (insert p acks) \<ge> n then None else Some (insert p acks))
           else ret_acks r e')"
    by (simp add: acknowledge_def Let_def split: option.splits)
  show "fst (acknowledge r e p n) \<longleftrightarrow> ret_acks r e \<noteq> None"
    by (simp add: acknowledge_def Let_def split: option.splits)
  show "retired_wf r \<Longrightarrow> length (ret_order r) \<le> DEFAULT_MAX_RETIRED_EXECUTIONS"
    by (simp add: retired_wf_def)
  show "ret_acks retired_default e = None"
    by (simp add: retired_default_def)
qed (simp_all add: retired_wf_seal retired_wf_acknowledge lookup_seal_same_retired)

section \<open>Properties\<close>

text \<open>
  C21. The hash map and the key queue of \<open>RetiredExecutions\<close> together implement a bounded
  first-in-first-out table: sealing an execution is an update of the table that then drops the
  oldest entries beyond 4096, and acknowledging one is an update that removes the entry once all
  \<open>n\<close> parties are in. The well-formedness that makes the two structures agree is kept.
\<close>

theorem retired_refines_fifo:
  assumes "retired_wf r"
  shows "retired_abs (seal r e acks) = spec_seal (retired_abs r) e acks \<and>
    map_prod id retired_abs (acknowledge r e party n) = spec_acknowledge (retired_abs r) e party n \<and>
    retired_wf (seal r e acks) \<and> retired_wf (snd (acknowledge r e party n))"
  using assms
  by (simp add: retired_abs_seal retired_abs_acknowledge retired_wf_seal retired_wf_acknowledge)

theorem retired_refines_fifo_witness:
  "retired_abs (seal (seal retired_default (ExecutionId [1]) {[5]}) (ExecutionId [2]) {[6]}) =
     [(ExecutionId [1], {[5]}), (ExecutionId [2], {[6]})]"
proof -
  have wf: "retired_wf (seal retired_default (ExecutionId [1]) {[5]})"
    by (simp add: retired_wf_seal)
  show ?thesis
    using retired_refines_fifo [OF wf, of "ExecutionId [2]" "{[6]}"]
      retired_refines_fifo [OF retired_wf_default, of "ExecutionId [1]" "{[5]}"]
    by (simp add: spec_seal_def retired_abs_def retired_default_def DEFAULT_MAX_RETIRED_EXECUTIONS_def)
qed

end
