(* ===== verification/Session_Auth.thy ===== *)
theory Session_Auth
  imports Offchain_Types
begin

text \<open>
  The per-session state of \<^verbatim>\<open>crates/off-chain/src/browser_rpc.rs\<close>: which ephemeral keys a WebAuthn
  ceremony has bound to which identity (\<open>WebauthnBindings\<close>), which request nonces have been
  seen (\<open>NonceBook\<close>), and the last signature counter of each credential (\<open>SignCounts\<close>).

  Randomness and the crate \<open>base64\<close> are parameters: \<open>insert\<close> takes the encoder and the list of
  32-byte draws its loop may consume, and is \<open>None\<close> when every draw collided with a live token.
\<close>

section \<open>WebAuthn bindings\<close>

record WebauthnBinding =
  wb_client_identity :: ClientIdentity
  wb_ecdsa_public_key :: bytes
  wb_ecdh_public_key :: bytes

record WebauthnBindings =
  by_token :: "string \<rightharpoonup> WebauthnBinding"
  by_execution_and_client_identity :: "ExecutionId \<times> ClientIdentity \<rightharpoonup> WebauthnBinding"

definition webauthn_bindings_default :: WebauthnBindings where
  "webauthn_bindings_default =
     \<lparr>by_token = Map.empty, by_execution_and_client_identity = Map.empty\<rparr>"

fun bindings_insert ::
  "(bytes \<Rightarrow> string) \<Rightarrow> bytes list \<Rightarrow> ExecutionId option \<Rightarrow> WebauthnBinding \<Rightarrow> WebauthnBindings
    \<Rightarrow> (string \<times> WebauthnBindings) option" where
  "bindings_insert enc [] eid b w = None"
| "bindings_insert enc (token_bytes # draws) eid b w =
     (let token = enc token_bytes in
      case by_token w token of
        None \<Rightarrow>
          let w' = (case eid of
                      Some e \<Rightarrow> w\<lparr>by_execution_and_client_identity :=
                                  (by_execution_and_client_identity w)((e, wb_client_identity b) \<mapsto> b)\<rparr>
                    | None \<Rightarrow> w)
          in Some (token, w'\<lparr>by_token := (by_token w')(token \<mapsto> b)\<rparr>)
      | Some _ \<Rightarrow> bindings_insert enc draws eid b w)"

definition resolve_ecdh_public_key ::
  "WebauthnBindings \<Rightarrow> ExecutionId \<Rightarrow> ClientIdentity \<Rightarrow> bytes option" where
  "resolve_ecdh_public_key w e client_id =
     map_option wb_ecdh_public_key (by_execution_and_client_identity w (e, client_id))"

definition bindings_get :: "WebauthnBindings \<Rightarrow> string \<Rightarrow> WebauthnBinding option" where
  "bindings_get w token = by_token w token"

definition pin_binding_from_token ::
  "WebauthnBindings \<Rightarrow> ExecutionId \<Rightarrow> string \<Rightarrow> WebauthnBindings" where
  "pin_binding_from_token w e session_token =
     (case by_token w session_token of
        Some b \<Rightarrow> w\<lparr>by_execution_and_client_identity :=
                     (by_execution_and_client_identity w)((e, wb_client_identity b) \<mapsto> b)\<rparr>
      | None \<Rightarrow> w)"

section \<open>Nonces\<close>

definition AUTH_ERROR :: int where "AUTH_ERROR = - 32050"
definition BAD_BODY :: int where "BAD_BODY = - 32602"

definition auth_error :: rpc_error where
  "auth_error = BrowserError AUTH_ERROR"

definition NONCE_WINDOW_SECONDS :: u64 where
  "NONCE_WINDOW_SECONDS = 120"

type_synonym SeenNonces = "(u64 \<times> bytes) list"
type_synonym NonceBook = "ExecutionId \<times> ClientIdentity \<rightharpoonup> SeenNonces"

text \<open>
  A rejected replay has already dropped the expired entries of its key, so the book is part of
  the result on every path.
\<close>

definition nonce_accept ::
  "NonceBook \<Rightarrow> ExecutionId \<Rightarrow> ClientIdentity \<Rightarrow> u64 \<Rightarrow> bytes \<Rightarrow> u64 \<Rightarrow> unit rpc_result \<times> NonceBook" where
  "nonce_accept seen e identity created nonce now =
     (if abs_diff now created > NONCE_WINDOW_SECONDS then (Err auth_error, seen)
      else
        let key = (e, identity);
            entries = (case seen key of None \<Rightarrow> [] | Some es \<Rightarrow> es);
            entries = filter (\<lambda>(c, _). saturating_sub now c \<le> NONCE_WINDOW_SECONDS) entries
        in if list_ex (\<lambda>(_, seen_nonce). seen_nonce = nonce) entries
           then (Err auth_error, seen(key \<mapsto> entries))
           else (Ok (), seen(key \<mapsto> entries @ [(created, nonce)])))"

section \<open>Signature counters\<close>

type_synonym SignCounts = "ClientIdentity \<rightharpoonup> u32"

definition sign_count_accept :: "SignCounts \<Rightarrow> ClientIdentity \<Rightarrow> u32 \<Rightarrow> unit rpc_result \<times> SignCounts" where
  "sign_count_accept last_known identity sign_count =
     (let stored = (case last_known identity of None \<Rightarrow> 0 | Some c \<Rightarrow> c) in
      if (sign_count \<noteq> 0 \<or> stored \<noteq> 0) \<and> sign_count \<le> stored then (Err auth_error, last_known)
      else (Ok (), last_known(identity \<mapsto> sign_count)))"

section \<open>Runs\<close>

text \<open>A sequence of calls on one book or one counter table, as the two mutexes serialise them.\<close>

type_synonym nonce_call = "ExecutionId \<times> ClientIdentity \<times> u64 \<times> bytes \<times> u64"

fun call_now :: "nonce_call \<Rightarrow> u64" where
  "call_now (e, identity, created, nonce, now) = now"

fun nonce_call :: "NonceBook \<Rightarrow> nonce_call \<Rightarrow> unit rpc_result \<times> NonceBook" where
  "nonce_call seen (e, identity, created, nonce, now) = nonce_accept seen e identity created nonce now"

fun nonce_run :: "NonceBook \<Rightarrow> nonce_call list \<Rightarrow> NonceBook" where
  "nonce_run seen [] = seen"
| "nonce_run seen (c # cs) = nonce_run (snd (nonce_call seen c)) cs"

text \<open>The counters accepted for one identity, oldest first.\<close>

fun accepted_counts :: "SignCounts \<Rightarrow> ClientIdentity \<Rightarrow> (ClientIdentity \<times> u32) list \<Rightarrow> u32 list" where
  "accepted_counts m identity [] = []"
| "accepted_counts m identity ((i, c) # cs) =
     (let (r, m') = sign_count_accept m i c in
      (if i = identity \<and> is_Ok r then [c] else []) @ accepted_counts m' identity cs)"

section \<open>Nonce lemmas\<close>

text \<open>
  What one accepted request leaves behind: its entry, or the clock has already moved so far past
  its timestamp that the freshness check refuses it.
\<close>

definition nonce_guarded :: "u64 \<Rightarrow> ExecutionId \<Rightarrow> ClientIdentity \<Rightarrow> u64 \<Rightarrow> bytes \<Rightarrow> NonceBook \<Rightarrow> bool" where
  "nonce_guarded now e identity created nonce seen \<longleftrightarrow>
     unat created + unat NONCE_WINDOW_SECONDS < unat now \<or>
     (\<exists>es. seen (e, identity) = Some es \<and> (created, nonce) \<in> set es)"

lemmas nonce_defs = nonce_accept_def Let_def NONCE_WINDOW_SECONDS_def

lemma nonce_guarded_accepted:
  assumes "nonce_accept seen e identity created nonce now = (Ok (), seen')"
  shows "nonce_guarded now e identity created nonce seen'"
  using assms by (auto simp: nonce_defs nonce_guarded_def split: if_splits)

lemma nonce_guarded_rejects:
  assumes "nonce_guarded now e identity created nonce seen"
  shows "fst (nonce_accept seen e identity created nonce now) = Err auth_error"
proof (cases "unat created + unat NONCE_WINDOW_SECONDS < unat now")
  case True
  then have "NONCE_WINDOW_SECONDS < abs_diff now created"
    by (simp add: word_less_nat_alt u64_simps NONCE_WINDOW_SECONDS_def)
  then show ?thesis by (simp add: nonce_accept_def)
next
  case False
  with assms obtain es where es: "seen (e, identity) = Some es" "(created, nonce) \<in> set es"
    by (auto simp: nonce_guarded_def)
  from False have "saturating_sub now created \<le> NONCE_WINDOW_SECONDS"
    by (simp add: word_le_nat_alt u64_simps NONCE_WINDOW_SECONDS_def)
  with es show ?thesis
    by (auto simp: nonce_accept_def Let_def list_ex_iff)
qed

lemma nonce_guarded_step:
  assumes "nonce_guarded now e identity created nonce seen" and "now \<le> call_now c"
  shows "nonce_guarded (call_now c) e identity created nonce (snd (nonce_call seen c))"
proof -
  obtain e' i' created' nonce' now' where c: "c = (e', i', created', nonce', now')"
    by (cases c) auto
  with assms(2) have le: "unat now \<le> unat now'"
    by (simp add: word_le_nat_alt)
  show ?thesis
  proof (cases "unat created + unat NONCE_WINDOW_SECONDS < unat now'")
    case True
    then show ?thesis by (simp add: nonce_guarded_def c)
  next
    case False
    with assms(1) le obtain es where es: "seen (e, identity) = Some es" "(created, nonce) \<in> set es"
      by (auto simp: nonce_guarded_def)
    from False have "saturating_sub now' created \<le> NONCE_WINDOW_SECONDS"
      by (simp add: word_le_nat_alt u64_simps NONCE_WINDOW_SECONDS_def)
    with es show ?thesis
      by (auto simp: nonce_guarded_def c nonce_accept_def Let_def)
  qed
qed

lemma nonce_guarded_run:
  assumes "nonce_guarded now e identity created nonce seen" and "sorted (now # map call_now cs)"
  shows "nonce_guarded (last (now # map call_now cs)) e identity created nonce (nonce_run seen cs)"
  using assms
proof (induction cs arbitrary: now seen)
  case (Cons c cs)
  from Cons.prems have "nonce_guarded (call_now c) e identity created nonce (snd (nonce_call seen c))"
    by (intro nonce_guarded_step) auto
  moreover have "sorted (call_now c # map call_now cs)"
    using Cons.prems(2) by simp
  ultimately show ?case
    using Cons.IH by (simp add: last_map split: if_splits)
qed simp

lemma nonce_guarded_later:
  "nonce_guarded now e identity created nonce seen \<Longrightarrow> now \<le> now' \<Longrightarrow>
   nonce_guarded now' e identity created nonce seen"
  by (auto simp: nonce_guarded_def word_le_nat_alt)

section \<open>Counter lemmas\<close>

definition stored_count :: "SignCounts \<Rightarrow> ClientIdentity \<Rightarrow> u32" where
  "stored_count m identity = (case m identity of None \<Rightarrow> 0 | Some c \<Rightarrow> c)"

definition count_succ :: "u32 \<Rightarrow> u32 \<Rightarrow> bool" where
  "count_succ a b \<longleftrightarrow> a < b \<or> a = 0 \<and> b = 0"

lemma transp_count_succ: "transp count_succ"
  unfolding transp_def count_succ_def by (metis order.strict_trans)

lemma sign_count_accept_stored:
  "stored_count (snd (sign_count_accept m i c)) identity =
     (if i = identity \<and> is_Ok (fst (sign_count_accept m i c)) then c else stored_count m identity)"
  by (simp add: sign_count_accept_def stored_count_def Let_def)

lemma sign_count_accept_succ:
  "is_Ok (fst (sign_count_accept m i c)) \<Longrightarrow> count_succ (stored_count m i) c"
  by (auto simp: sign_count_accept_def stored_count_def count_succ_def Let_def not_le split: if_splits)

lemma accepted_counts_aux:
  "sorted_wrt count_succ (stored_count m identity # accepted_counts m identity calls)"
proof (induction calls arbitrary: m)
  case (Cons p calls)
  obtain i c where p: "p = (i, c)" by (cases p)
  let ?m' = "snd (sign_count_accept m i c)"
  have IH: "sorted_wrt count_succ (stored_count ?m' identity # accepted_counts ?m' identity calls)"
    by (rule Cons.IH)
  show ?case
  proof (cases "i = identity \<and> is_Ok (fst (sign_count_accept m i c))")
    case True
    then have i: "i = identity" and acc: "is_Ok (fst (sign_count_accept m identity c))"
      by auto
    with IH have "sorted_wrt count_succ (c # accepted_counts ?m' identity calls)"
      by (simp add: sign_count_accept_stored del: sorted_wrt.simps)
    moreover from acc have "count_succ (stored_count m identity) c"
      by (rule sign_count_accept_succ)
    ultimately have "sorted_wrt count_succ (stored_count m identity # c # accepted_counts ?m' identity calls)"
      unfolding sorted_wrt2 [OF transp_count_succ] by simp
    with i acc show ?thesis by (simp add: p split_beta Let_def)
  next
    case False
    with IH show ?thesis
      by (auto simp: p split_beta Let_def sign_count_accept_stored)
  qed
qed simp

section \<open>Properties\<close>

text \<open>
  Replay protection. Once a signed request has been accepted, the same request (same
  execution, identity, timestamp and nonce) is never accepted again, whatever other requests the
  listener serves in between, as long as the clock does not go backwards.
\<close>

theorem nonce_replay_rejected:
  assumes "nonce_accept seen e identity created nonce start = (Ok (), seen')"
    and "sorted (start # map call_now calls @ [later])"
  shows "fst (nonce_accept (nonce_run seen' calls) e identity created nonce later) = Err auth_error"
proof -
  from assms(1) have "nonce_guarded start e identity created nonce seen'"
    by (rule nonce_guarded_accepted)
  then have "nonce_guarded (last (start # map call_now calls)) e identity created nonce
               (nonce_run seen' calls)"
    using assms(2) by (intro nonce_guarded_run) (auto simp: sorted_append)
  moreover have "last (start # map call_now calls) \<le> later"
    using assms(2) by (cases calls rule: rev_cases) (auto simp: sorted_append)
  ultimately have "nonce_guarded later e identity created nonce (nonce_run seen' calls)"
    by (rule nonce_guarded_later)
  then show ?thesis
    by (rule nonce_guarded_rejects)
qed

theorem nonce_replay_rejected_witness:
  "fst (nonce_accept
      (nonce_run (snd (nonce_accept Map.empty (ExecutionId [7]) [20] 1000 [1] 1000))
        [(ExecutionId [8], [20], 1050, [1], 1050), (ExecutionId [7], [20], 1100, [2], 1119)])
      (ExecutionId [7]) [20] 1000 [1] 1120) = Err auth_error"
  by (rule nonce_replay_rejected [where seen = Map.empty and start = 1000])
     (simp_all add: nonce_defs abs_diff_def)

text \<open>
  The clock of \<open>authenticate\<close> is \<open>SystemTime::now\<close>, which may step back. If a request served in
  between has dropped the expired entry, the replay is then accepted.
\<close>

lemma nonce_replay_after_clock_step_back:
  "fst (nonce_accept
      (nonce_run (snd (nonce_accept Map.empty (ExecutionId [7]) [20] 1000 [1] 1000))
        [(ExecutionId [7], [20], 1121, [2], 1121)])
      (ExecutionId [7]) [20] 1000 [1] 1120) = Ok ()"
  by (simp add: nonce_defs abs_diff_def saturating_sub_def)

text \<open>
  A request outside the freshness window is refused and leaves the book as it was; an
  accepted one lies within 120 seconds of the clock, and its nonce was not among the entries of
  its execution and identity that are still fresh.
\<close>

theorem nonce_accept_iff:
  "fst (nonce_accept seen e identity created nonce now) = Ok () \<longleftrightarrow>
     unat created \<le> unat now + 120 \<and> unat now \<le> unat created + 120 \<and>
     (\<forall>es c. seen (e, identity) = Some es \<longrightarrow> (c, nonce) \<in> set es \<longrightarrow> unat c + 120 < unat now)"
proof -
  have fresh: "abs_diff now created > NONCE_WINDOW_SECONDS \<longleftrightarrow>
      \<not> (unat created \<le> unat now + 120 \<and> unat now \<le> unat created + 120)"
    by (auto simp: word_less_nat_alt u64_simps NONCE_WINDOW_SECONDS_def)
  have kept: "saturating_sub now c \<le> NONCE_WINDOW_SECONDS \<longleftrightarrow> \<not> unat c + 120 < unat now" for c
    by (auto simp: word_le_nat_alt u64_simps NONCE_WINDOW_SECONDS_def)
  show ?thesis
    unfolding nonce_accept_def Let_def fresh kept
    by (cases "seen (e, identity)") (auto simp: list_ex_iff)
qed

theorem nonce_accept_iff_witness:
  "fst (nonce_accept (Map.empty((ExecutionId [7], [20]) \<mapsto> [(1000, [1])])) (ExecutionId [7]) [20] 1121 [1] 1121)
     = Ok ()"
  by (subst nonce_accept_iff) simp

text \<open>
  Clone detection. The counters accepted for one credential, in order, increase strictly,
  except that a credential which has only ever reported zero may keep reporting zero.
\<close>

theorem sign_counts_increase:
  "sorted_wrt count_succ (accepted_counts m identity calls)"
  using accepted_counts_aux [of m identity calls] by simp

lemma bindings_insert_Some:
  "bindings_insert enc draws eid b w = Some (token, w') \<Longrightarrow>
     by_token w token = None \<and> by_token w' = (by_token w)(token \<mapsto> b) \<and>
     by_execution_and_client_identity w' =
       (case eid of
          Some e \<Rightarrow> (by_execution_and_client_identity w)((e, wb_client_identity b) \<mapsto> b)
        | None \<Rightarrow> by_execution_and_client_identity w)"
  by (induction draws) (auto simp: Let_def split: option.splits)

lemma bindings_insert_returns:
  "\<exists>d \<in> set draws. by_token w (enc d) = None \<Longrightarrow> \<exists>token w'. bindings_insert enc draws eid b w = Some (token, w')"
  by (induction draws) (auto simp: Let_def split: option.splits)

text \<open>
  A new binding gets a token that was not in use, is found under it, and under its own
  execution and identity; every other token, and the output-encryption key of every other
  execution or identity, is unchanged. The loop returns as soon as one draw is fresh.
\<close>

theorem bindings_insert_correct:
  assumes "\<exists>d \<in> set draws. by_token w (enc d) = None"
  shows "\<exists>token w'. bindings_insert enc draws (Some e) b w = Some (token, w') \<and>
     bindings_get w token = None \<and> bindings_get w' token = Some b \<and>
     (\<forall>other. other \<noteq> token \<longrightarrow> bindings_get w' other = bindings_get w other) \<and>
     resolve_ecdh_public_key w' e (wb_client_identity b) = Some (wb_ecdh_public_key b) \<and>
     (\<forall>e' c. (e', c) \<noteq> (e, wb_client_identity b) \<longrightarrow>
        resolve_ecdh_public_key w' e' c = resolve_ecdh_public_key w e' c)"
proof -
  from bindings_insert_returns [where enc = enc, OF assms] obtain token w' where
    ins: "bindings_insert enc draws (Some e) b w = Some (token, w')" by blast
  from bindings_insert_Some [OF ins] show ?thesis
    by (intro exI [of _ token] exI [of _ w'])
       (simp add: ins bindings_get_def resolve_ecdh_public_key_def)
qed

theorem bindings_insert_correct_witness:
  "\<exists>token w'. bindings_insert (\<lambda>_. ''tok'') [[1]] (Some (ExecutionId [1]))
      \<lparr>wb_client_identity = [42], wb_ecdsa_public_key = [1], wb_ecdh_public_key = [2]\<rparr>
      webauthn_bindings_default = Some (token, w') \<and>
      resolve_ecdh_public_key w' (ExecutionId [1]) [42] = Some [2]"
  using bindings_insert_correct [where enc = "\<lambda>_. ''tok''" and draws = "[[1]]" and e = "ExecutionId [1]"
      and w = webauthn_bindings_default
      and b = "\<lparr>wb_client_identity = [42], wb_ecdsa_public_key = [1], wb_ecdh_public_key = [2]\<rparr>"]
  by (auto simp: webauthn_bindings_default_def)

text \<open>
  The submission that pins wins: however many other bindings the identity has made for this
  execution since, pinning a live token makes that session's key the output-encryption target,
  and moves no other execution's or identity's target.
\<close>

theorem pin_binding_from_token_correct:
  assumes "bindings_get w token = Some b"
  shows "resolve_ecdh_public_key (pin_binding_from_token w e token) e' c =
      (if (e', c) = (e, wb_client_identity b) then Some (wb_ecdh_public_key b)
       else resolve_ecdh_public_key w e' c) \<and>
    bindings_get (pin_binding_from_token w e token) = bindings_get w"
  using assms
  by (auto simp: pin_binding_from_token_def resolve_ecdh_public_key_def bindings_get_def)

theorem pin_binding_from_token_correct_witness:
  "resolve_ecdh_public_key
     (pin_binding_from_token
       \<lparr>by_token = [''s'' \<mapsto> \<lparr>wb_client_identity = [20], wb_ecdsa_public_key = [1], wb_ecdh_public_key = [2]\<rparr>],
        by_execution_and_client_identity =
          [(ExecutionId [7], [20]) \<mapsto> \<lparr>wb_client_identity = [20], wb_ecdsa_public_key = [3], wb_ecdh_public_key = [4]\<rparr>]\<rparr>
       (ExecutionId [7]) ''s'') (ExecutionId [7]) [20] = Some [2]"
  using pin_binding_from_token_correct [of
      "\<lparr>by_token = [''s'' \<mapsto> \<lparr>wb_client_identity = [20], wb_ecdsa_public_key = [1], wb_ecdh_public_key = [2]\<rparr>],
        by_execution_and_client_identity =
          [(ExecutionId [7], [20]) \<mapsto> \<lparr>wb_client_identity = [20], wb_ecdsa_public_key = [3], wb_ecdh_public_key = [4]\<rparr>]\<rparr>"
      "''s''" "\<lparr>wb_client_identity = [20], wb_ecdsa_public_key = [1], wb_ecdh_public_key = [2]\<rparr>"
      "ExecutionId [7]" "ExecutionId [7]" "[20]"]
  by (simp add: bindings_get_def)

end
