(* ===== verification/Coord_Execution.thy ===== *)
theory Coord_Execution
  imports Offchain_Types
begin

text \<open>
  \<open>CoordinatorExecutionState\<close> of \<^verbatim>\<open>crates/off-chain/src/lib.rs\<close>: the protocol state of one program
  invocation and everything a handler does to it while it holds the state lock. The handlers of
  the RPC interface look the execution up, call these operations and store the result; they are
  in \<open>Coord_Server\<close>.
\<close>

section \<open>State\<close>

type_synonym TransitionDelivery = "Round \<times> Event \<times> sink list"

text \<open>
  The mutex \<open>masked_input_delivery\<close> has no field: it only restricts which handlers may run between
  the two locked sections of \<open>submit_masked_inputs\<close>, and the interleavings of \<open>Coord_Server\<close> let all
  of them run there.
\<close>

record CoordinatorExecutionState =
  ex_registration :: ExecutionRegistration
  ex_retirement_acks :: "ClientIdentity set"
  ex_transition_votes :: "Round \<rightharpoonup> ClientIdentity set"
  ex_sinks :: "Round \<rightharpoonup> sink list"
  ex_trans_events :: "Round \<rightharpoonup> Event"
  ex_reserved_index_events :: "Event list"
  ex_reserved_index_sinks :: "sink list"
  ex_assigned_reserved_index_events :: "AssignedMaskReservation list"
  ex_assigned_reserved_index_sinks :: "sink list"
  ex_masked_input_events :: "Event list"
  ex_masked_input_sinks :: "sink list"
  ex_assigned_masked_input_events :: "AssignedMaskedInputEvent list"
  ex_assigned_masked_input_sinks :: "sink list"
  ex_n_reserved :: u64
  ex_reserved_indices :: "ClientIdentity option list"
  ex_masked_inputs :: "bytes option list"
  ex_round :: Round
  ex_output_shares :: "(ClientIdentity \<times> ClientIdentity, enc_share) hashmap"
  ex_output_sinks :: "ClientIdentity \<rightharpoonup> sink"
  ex_output_clients :: "ClientIdentity list"
  ex_input_assignments :: "InputSlotAssignment list"

section \<open>Creation\<close>

fun expand_input_ranges :: "InputClientRange list \<Rightarrow> InputSlotAssignment list" where
  "expand_input_ranges [] = []"
| "expand_input_ranges (r # ranges) =
     map (\<lambda>label. \<lparr>slot_client_index = range_client_index r, slot_label = of_nat label\<rparr>)
       [0..<unat (range_count r)] @ expand_input_ranges ranges"

definition ranges_total :: "InputClientRange list \<Rightarrow> u64" where
  "ranges_total ranges = wrapping_sum (map range_count ranges)"

definition execution_new ::
  "ExecutionRegistration \<Rightarrow> u64 \<Rightarrow> (CoordinatorError, CoordinatorExecutionState) result" where
  "execution_new registration n =
     (let assignment = reg_input_assignment registration;
          n_clients = length (ia_clients assignment)
      in
      if is_zero (reg_execution_id registration) then Err (JSONError ExecutionIdMustBeNonzero)
      else if reg_program_hash registration = replicate 32 0 then Err (JSONError ProgramHashMustBeNonzero)
      else if ia_ranges assignment \<noteq> [] \<and> reg_n_inputs registration \<noteq> ranges_total (ia_ranges assignment)
      then Err (JSONError (InputAssignmentCovers (ranges_total (ia_ranges assignment)) (reg_n_inputs registration)))
      else case find (\<lambda>r. n_clients \<le> unat (range_client_index r)) (ia_ranges assignment) of
        Some r \<Rightarrow> Err (JSONError (RangeReferencesClient (range_client_index r) n_clients))
      | None \<Rightarrow>
          if reg_min_output_shares registration = 0 \<or> reg_min_output_shares registration > n
          then Err (JSONError (OutputQuorumOutOfRange (reg_min_output_shares registration) n))
          else Ok
            \<lparr>ex_registration = registration,
             ex_retirement_acks = {},
             ex_transition_votes = Map.empty,
             ex_sinks = Map.empty,
             ex_trans_events = Map.empty,
             ex_reserved_index_events = [],
             ex_reserved_index_sinks = [],
             ex_assigned_reserved_index_events = [],
             ex_assigned_reserved_index_sinks = [],
             ex_masked_input_events = [],
             ex_masked_input_sinks = [],
             ex_assigned_masked_input_events = [],
             ex_assigned_masked_input_sinks = [],
             ex_n_reserved = 0,
             ex_reserved_indices = replicate (unat (reg_n_inputs registration)) None,
             ex_masked_inputs = replicate (unat (reg_n_inputs registration)) None,
             ex_round = Idle,
             ex_output_shares = [],
             ex_output_sinks = Map.empty,
             ex_output_clients = reg_output_clients registration,
             ex_input_assignments = expand_input_ranges (ia_ranges assignment)\<rparr>)"

definition input_slot_client ::
  "CoordinatorExecutionState \<Rightarrow> InputSlotAssignment \<Rightarrow> ClientIdentity option" where
  "input_slot_client d slot =
     vec_get (ia_clients (reg_input_assignment (ex_registration d))) (unat (slot_client_index slot))"

section \<open>Subscriptions to histories\<close>

text \<open>Send a list of messages to one sink, stopping at the first that fails.\<close>

fun replay :: "(sink \<Rightarrow> message \<Rightarrow> bool) \<Rightarrow> sink \<Rightarrow> message list \<Rightarrow> bool \<times> delivery list" where
  "replay ok k [] = (True, [])"
| "replay ok k (m # ms) =
     (if ok k m then (let (all, ds) = replay ok k ms in (all, (k, m) # ds)) else (False, [(k, m)]))"

definition subscribe_reserved_indices ::
  "(sink \<Rightarrow> message \<Rightarrow> bool) \<Rightarrow> sink \<Rightarrow> CoordinatorExecutionState
    \<Rightarrow> CoordinatorExecutionState \<times> delivery list" where
  "subscribe_reserved_indices ok k d =
     (let (all, ds) = replay ok k (map EventMsg (ex_reserved_index_events d)) in
      (if all then d\<lparr>ex_reserved_index_sinks := ex_reserved_index_sinks d @ [k]\<rparr> else d, ds))"

definition subscribe_masked_inputs ::
  "(sink \<Rightarrow> message \<Rightarrow> bool) \<Rightarrow> sink \<Rightarrow> CoordinatorExecutionState
    \<Rightarrow> CoordinatorExecutionState \<times> delivery list" where
  "subscribe_masked_inputs ok k d =
     (let (all, ds) = replay ok k (map EventMsg (ex_masked_input_events d)) in
      (if all then d\<lparr>ex_masked_input_sinks := ex_masked_input_sinks d @ [k]\<rparr> else d, ds))"

definition subscribe_assigned_reserved_indices ::
  "(sink \<Rightarrow> message \<Rightarrow> bool) \<Rightarrow> sink \<Rightarrow> CoordinatorExecutionState
    \<Rightarrow> CoordinatorExecutionState \<times> delivery list" where
  "subscribe_assigned_reserved_indices ok k d =
     (let batch = ReservationsMsg (ex_assigned_reserved_index_events d);
          ds = (if ex_assigned_reserved_index_events d \<noteq> [] then [(k, batch)] else [])
      in if ds \<noteq> [] \<and> \<not> ok k batch then (d, ds)
         else (d\<lparr>ex_assigned_reserved_index_sinks := ex_assigned_reserved_index_sinks d @ [k]\<rparr>, ds))"

definition subscribe_assigned_masked_inputs ::
  "(sink \<Rightarrow> message \<Rightarrow> bool) \<Rightarrow> sink \<Rightarrow> CoordinatorExecutionState
    \<Rightarrow> CoordinatorExecutionState \<times> delivery list" where
  "subscribe_assigned_masked_inputs ok k d =
     (let batch = MaskedInputsMsg (ex_assigned_masked_input_events d);
          ds = (if ex_assigned_masked_input_events d \<noteq> [] then [(k, batch)] else [])
      in if ds \<noteq> [] \<and> \<not> ok k batch then (d, ds)
         else (d\<lparr>ex_assigned_masked_input_sinks := ex_assigned_masked_input_sinks d @ [k]\<rparr>, ds))"

text \<open>The locked section of \<open>sub_round\<close>: replay the event of a round already applied, or wait.\<close>

definition subscribe_round ::
  "Round \<Rightarrow> sink \<Rightarrow> CoordinatorExecutionState \<Rightarrow> CoordinatorExecutionState \<times> delivery list" where
  "subscribe_round round k d =
     (case ex_trans_events d round of
        Some event \<Rightarrow> (d, [(k, EventMsg event)])
      | None \<Rightarrow>
          let waiting = (case ex_sinks d round of None \<Rightarrow> [] | Some ks \<Rightarrow> ks) in
          (d\<lparr>ex_sinks := (ex_sinks d)(round \<mapsto> waiting @ [k])\<rparr>, []))"

section \<open>Round transitions\<close>

definition skips_empty_input_rounds :: "CoordinatorExecutionState \<Rightarrow> Round \<Rightarrow> bool" where
  "skips_empty_input_rounds d next_round \<longleftrightarrow> ex_round d = Preprocessing \<and> next_round = MPCExecution"

definition skips_empty_output_rounds :: "CoordinatorExecutionState \<Rightarrow> Round \<Rightarrow> bool" where
  "skips_empty_output_rounds d next_round \<longleftrightarrow> ex_round d = MPCExecution \<and> next_round = ProgramFinished"

text \<open>The reason is the pair it prints: how many masked inputs are missing, of how many.\<close>

definition blocking_precondition :: "CoordinatorExecutionState \<Rightarrow> Round \<Rightarrow> (nat \<times> nat) option" where
  "blocking_precondition d next_round =
     (if next_round = MPCExecution \<and> \<not> skips_empty_input_rounds d next_round then
        let missing = length (filter (\<lambda>input. input = None) (ex_masked_inputs d)) in
        if missing > 0 then Some (missing, length (ex_masked_inputs d)) else None
      else None)"

definition next_quorum_round :: "CoordinatorExecutionState \<Rightarrow> nat \<Rightarrow> Round option" where
  "next_quorum_round d quorum =
     find (\<lambda>candidate.
        (round_before candidate = Some (ex_round d) \<or> skips_empty_input_rounds d candidate \<or>
         skips_empty_output_rounds d candidate) \<and>
        (case ex_transition_votes d candidate of None \<Rightarrow> False | Some voters \<Rightarrow> quorum \<le> card voters))
       ORDERED_ROUNDS"

fun round_event :: "ClientIdentity \<Rightarrow> Round \<Rightarrow> Event option" where
  "round_event roster_head Idle = None"
| "round_event roster_head Preprocessing = Some (PreprocessingStarted roster_head)"
| "round_event roster_head InputMaskReservation = Some InputMaskReservationStarted"
| "round_event roster_head InputCollection = Some InputCollectionStarted"
| "round_event roster_head MPCExecution = Some MPCStarted"
| "round_event roster_head OutputDistribution = Some OutputSendingStarted"
| "round_event roster_head ProgramFinished = Some ExecutionDone"

definition execution_transition ::
  "CoordinatorExecutionState \<Rightarrow> Event \<Rightarrow> Round
    \<Rightarrow> (CoordinatorError, sink list \<times> CoordinatorExecutionState) result" where
  "execution_transition d event round =
     (if round_before round = None then Err CannotTransitionToIdle
      else
        let sinks = (case ex_sinks d round of None \<Rightarrow> [] | Some ks \<Rightarrow> ks) in
        Ok (sinks,
            d\<lparr>ex_sinks := (ex_sinks d)(round := None),
              ex_trans_events := (ex_trans_events d)(round \<mapsto> event),
              ex_round := round\<rparr>))"

lemma next_quorum_round_Some:
  assumes "next_quorum_round d quorum = Some r"
  shows "r \<noteq> Idle" and "ex_round d < r"
    and "round_before r = Some (ex_round d) \<or> skips_empty_input_rounds d r \<or> skips_empty_output_rounds d r"
    and "\<exists>voters. ex_transition_votes d r = Some voters \<and> quorum \<le> card voters"
proof -
  from assms obtain i where i: "i < length ORDERED_ROUNDS" "ORDERED_ROUNDS ! i = r"
    and c: "round_before r = Some (ex_round d) \<or> skips_empty_input_rounds d r \<or> skips_empty_output_rounds d r"
    and v: "case ex_transition_votes d r of None \<Rightarrow> False | Some voters \<Rightarrow> quorum \<le> card voters"
    by (auto simp: next_quorum_round_def find_Some_iff)
  from i have "r \<in> set ORDERED_ROUNDS" by (metis nth_mem)
  then show "r \<noteq> Idle" by simp
  show "round_before r = Some (ex_round d) \<or> skips_empty_input_rounds d r \<or> skips_empty_output_rounds d r"
    by (rule c)
  show "ex_round d < r"
    using c by (auto simp: skips_empty_input_rounds_def skips_empty_output_rounds_def round_simps
        dest: round_before_less)
  show "\<exists>voters. ex_transition_votes d r = Some voters \<and> quorum \<le> card voters"
    using v by (auto split: option.splits)
qed

text \<open>
  The loop of \<open>try_advance\<close>, with the deliveries collected so far. Every iteration moves the round
  forward, so the distance to \<open>ProgramFinished\<close> is a measure.
\<close>

function try_advance_loop ::
  "nat \<Rightarrow> ClientIdentity \<Rightarrow> CoordinatorExecutionState \<Rightarrow> TransitionDelivery list
    \<Rightarrow> (CoordinatorError, TransitionDelivery list) result \<times> CoordinatorExecutionState" where
  "try_advance_loop quorum roster_head d deliveries =
     (case next_quorum_round d quorum of
        None \<Rightarrow> (Ok deliveries, d)
      | Some next_round \<Rightarrow>
          if blocking_precondition d next_round \<noteq> None then (Ok deliveries, d)
          else
            (case round_event roster_head next_round of
               None \<Rightarrow> (Ok deliveries, d)
             | Some event \<Rightarrow>
                 (case execution_transition d event next_round of
                    Ok (sinks, d') \<Rightarrow>
                      try_advance_loop quorum roster_head d' (deliveries @ [(next_round, event, sinks)])
                  | Err _ \<Rightarrow> (Panic, d)
                  | Panic \<Rightarrow> (Panic, d))))"
  by pat_completeness auto
termination
proof (relation "measure (\<lambda>(quorum, head, d, ds). 6 - unat (round_index (ex_round d)))", goal_cases)
  case (2 quorum head d ds r event p sinks d')
  from 2 have lt: "ex_round d < r" by (blast dest: next_quorum_round_Some(2))
  from 2 have "ex_round d' = r"
    by (auto simp: execution_transition_def Let_def split: if_splits)
  moreover have "unat (round_index r) \<le> 6" by (cases r) simp_all
  ultimately show ?case using lt by (simp add: round_simps)
qed simp

declare try_advance_loop.simps [simp del]

definition try_advance ::
  "nat \<Rightarrow> ClientIdentity \<Rightarrow> CoordinatorExecutionState
    \<Rightarrow> (CoordinatorError, TransitionDelivery list) result \<times> CoordinatorExecutionState" where
  "try_advance quorum roster_head d = try_advance_loop quorum roster_head d []"

definition deliver_transitions :: "TransitionDelivery list \<Rightarrow> delivery list" where
  "deliver_transitions deliveries =
     concat (map (\<lambda>(round, event, sinks). broadcast sinks (EventMsg event)) deliveries)"

text \<open>The locked section of the RPC method \<open>transition\<close>, once the caller is known to be a party.\<close>

definition execution_vote ::
  "nat \<Rightarrow> ClientIdentity \<Rightarrow> ClientIdentity \<Rightarrow> Round \<Rightarrow> CoordinatorExecutionState
    \<Rightarrow> unit rpc_result \<times> CoordinatorExecutionState \<times> delivery list" where
  "execution_vote quorum roster_head party next_round d =
     (if round_index next_round \<le> round_index (ex_round d) then (Ok (), d, [])
      else
        let voters = (case ex_transition_votes d next_round of None \<Rightarrow> {} | Some v \<Rightarrow> v);
            d1 = d\<lparr>ex_transition_votes := (ex_transition_votes d)(next_round \<mapsto> insert party voters)\<rparr>
        in case try_advance quorum roster_head d1 of
             (Ok transitions, d2) \<Rightarrow> (Ok (), d2, deliver_transitions transitions)
           | (_, d2) \<Rightarrow> (Panic, d2, []))"

section \<open>Reserving input masks\<close>

fun validate_reservations ::
  "CoordinatorExecutionState \<Rightarrow> ClientIdentity \<Rightarrow> u64 list \<Rightarrow> unit rpc_result" where
  "validate_reservations d client [] = Ok ()"
| "validate_reservations d client (i # is) =
     (if length (ex_reserved_indices d) \<le> unat i then Err (ServerError IndexOutOfBounds)
      else if ex_reserved_indices d ! unat i \<noteq> None then Err (ServerError RpcIndexAlreadyReserved)
      else case vec_get (ex_input_assignments d) (unat i) of
        Some slot \<Rightarrow>
          if input_slot_client d slot \<noteq> Some client then Err (ServerError UnauthorizedClientIo)
          else validate_reservations d client is
      | None \<Rightarrow> validate_reservations d client is)"

fun apply_reservations ::
  "ClientIdentity \<Rightarrow> u64 list \<Rightarrow> CoordinatorExecutionState
    \<Rightarrow> AssignedMaskReservation list \<times> CoordinatorExecutionState" where
  "apply_reservations client [] d = ([], d)"
| "apply_reservations client (i # is) d =
     (let assigned = (case vec_get (ex_input_assignments d) (unat i) of
            Some slot \<Rightarrow>
              [\<lparr>amr_client = client, amr_reserved_index = i, amr_input_ordinal = slot_label slot\<rparr>]
          | None \<Rightarrow> []);
          (rest, d') = apply_reservations client is
            (d\<lparr>ex_reserved_indices := (ex_reserved_indices d)[unat i := Some client],
               ex_n_reserved := ex_n_reserved d + 1\<rparr>)
      in (assigned @ rest, d'))"

definition execution_reserve ::
  "(sink \<Rightarrow> message \<Rightarrow> bool) \<Rightarrow> ClientIdentity \<Rightarrow> u64 list \<Rightarrow> CoordinatorExecutionState
    \<Rightarrow> unit rpc_result \<times> CoordinatorExecutionState \<times> delivery list" where
  "execution_reserve ok client indices d =
     (if ex_round d \<noteq> InputMaskReservation then (Err (ServerError WrongRound), d, [])
      else if indices = [] then (Err (ServerError EmptyBatch), d, [])
      else if Some client \<in> set (ex_reserved_indices d)
      then (Err (ServerError ClientAlreadyReserved), d, [])
      else case validate_reservations d client indices of
        Ok _ \<Rightarrow>
          let (assigned, d1) = apply_reservations client indices d;
              event = EventMsg (ReservedInputEvent client indices);
              batch = ReservationsMsg assigned;
              sinks = ex_reserved_index_sinks d1;
              d2 = d1\<lparr>ex_reserved_index_events :=
                        ex_reserved_index_events d1 @ [ReservedInputEvent client indices],
                      ex_assigned_reserved_index_events :=
                        ex_assigned_reserved_index_events d1 @ assigned,
                      ex_reserved_index_sinks := surviving ok sinks event\<rparr>
          in if assigned = [] then (Ok (), d2, broadcast sinks event)
             else
               let assigned_sinks = ex_assigned_reserved_index_sinks d2 in
               (Ok (),
                d2\<lparr>ex_assigned_reserved_index_sinks := surviving ok assigned_sinks batch\<rparr>,
                broadcast sinks event @ broadcast assigned_sinks batch)
      | Err e \<Rightarrow> (Err e, d, [])
      | Panic \<Rightarrow> (Panic, d, []))"

section \<open>Submitting masked inputs\<close>

fun validate_submissions ::
  "CoordinatorExecutionState \<Rightarrow> ClientIdentity \<Rightarrow> u64 list \<Rightarrow> unit rpc_result" where
  "validate_submissions d client [] = Ok ()"
| "validate_submissions d client (i # is) =
     (if length (ex_masked_inputs d) \<le> unat i then Err (ServerError IndexOutOfBounds)
      else if length (ex_reserved_indices d) \<le> unat i then Panic
      else case ex_reserved_indices d ! unat i of
        Some public_key \<Rightarrow>
          if public_key \<noteq> client then Err (ServerError BadID)
          else if ex_masked_inputs d ! unat i \<noteq> None
          then Err (ServerError MaskedInputAlreadySubmitted)
          else validate_submissions d client is
      | None \<Rightarrow> Err (ServerError IndexNotReserved))"

fun apply_submissions ::
  "ClientIdentity \<Rightarrow> (u64 \<times> bytes) list \<Rightarrow> CoordinatorExecutionState
    \<Rightarrow> AssignedMaskedInputEvent list \<times> CoordinatorExecutionState" where
  "apply_submissions client [] d = ([], d)"
| "apply_submissions client ((i, masked_input) # rest) d =
     (let d1 = d\<lparr>ex_masked_inputs := (ex_masked_inputs d)[unat i := Some masked_input]\<rparr>;
          assigned = (case vec_get (ex_input_assignments d1) (unat i) of
            Some slot \<Rightarrow>
              [\<lparr>ami_client = client, ami_reserved_index = i, ami_input_ordinal = slot_label slot,
                ami_masked_input = masked_input\<rparr>]
          | None \<Rightarrow> []);
          (more, d2) = apply_submissions client rest d1
      in (assigned @ more, d2))"

text \<open>
  \<open>submit_masked_inputs\<close> holds the state lock twice. The first section validates the batch, records
  it and takes the subscribers out of the state; it hands over what is still to be delivered. The
  sends happen without the lock. The second section puts the subscribers whose sends completed
  back, behind those that subscribed meanwhile, and advances the round if this was the input it
  was waiting for.
\<close>

record submit_delivery =
  sd_event :: message
  sd_assigned :: message
  sd_sinks :: "sink list"
  sd_assigned_sinks :: "sink list"

definition submit_record ::
  "ClientIdentity \<Rightarrow> bytes list \<Rightarrow> u64 list \<Rightarrow> CoordinatorExecutionState
    \<Rightarrow> submit_delivery rpc_result \<times> CoordinatorExecutionState" where
  "submit_record client masked_inputs reserved_indices d =
     (if ex_round d \<noteq> InputCollection then (Err (ServerError WrongRound), d)
      else if length masked_inputs \<noteq> length reserved_indices
      then (Err (ServerError MismatchedBatchLengths), d)
      else if reserved_indices = [] then (Err (ServerError EmptyBatch), d)
      else case validate_submissions d client reserved_indices of
        Ok _ \<Rightarrow>
          let pairs = zip reserved_indices masked_inputs;
              (assigned, d1) = apply_submissions client pairs d;
              event = MaskedInputEvent client pairs;
              d2 = d1\<lparr>ex_masked_input_events := ex_masked_input_events d1 @ [event],
                      ex_assigned_masked_input_events := ex_assigned_masked_input_events d1 @ assigned,
                      ex_masked_input_sinks := [],
                      ex_assigned_masked_input_sinks :=
                        (if assigned = [] then ex_assigned_masked_input_sinks d1 else [])\<rparr>
          in (Ok \<lparr>sd_event = EventMsg event,
                  sd_assigned = MaskedInputsMsg assigned,
                  sd_sinks = ex_masked_input_sinks d1,
                  sd_assigned_sinks =
                    (if assigned = [] then [] else ex_assigned_masked_input_sinks d1)\<rparr>,
              d2)
      | Err e \<Rightarrow> (Err e, d)
      | Panic \<Rightarrow> (Panic, d))"

definition submit_deliver :: "submit_delivery \<Rightarrow> delivery list" where
  "submit_deliver p =
     broadcast (sd_sinks p) (sd_event p) @ broadcast (sd_assigned_sinks p) (sd_assigned p)"

definition submit_restore ::
  "(sink \<Rightarrow> message \<Rightarrow> bool) \<Rightarrow> submit_delivery \<Rightarrow> CoordinatorExecutionState
    \<Rightarrow> CoordinatorExecutionState" where
  "submit_restore ok p d =
     d\<lparr>ex_masked_input_sinks :=
         ex_masked_input_sinks d @ surviving ok (sd_sinks p) (sd_event p),
       ex_assigned_masked_input_sinks :=
         ex_assigned_masked_input_sinks d @ surviving ok (sd_assigned_sinks p) (sd_assigned p)\<rparr>"

definition submit_finish ::
  "(sink \<Rightarrow> message \<Rightarrow> bool) \<Rightarrow> nat \<Rightarrow> ClientIdentity \<Rightarrow> submit_delivery \<Rightarrow> CoordinatorExecutionState
    \<Rightarrow> unit rpc_result \<times> CoordinatorExecutionState \<times> delivery list" where
  "submit_finish ok quorum roster_head p d =
     (case try_advance quorum roster_head (submit_restore ok p d) of
        (Ok transitions, d') \<Rightarrow> (Ok (), d', deliver_transitions transitions)
      | (_, d') \<Rightarrow> (Panic, d', []))"

section \<open>Outputs\<close>

text \<open>The locked section of \<open>send_output_shares\<close>.\<close>

definition record_output_shares ::
  "bool \<Rightarrow> ClientIdentity \<Rightarrow> ClientIdentity \<Rightarrow> enc_share \<Rightarrow> CoordinatorExecutionState
    \<Rightarrow> unit rpc_result \<times> CoordinatorExecutionState" where
  "record_output_shares is_party party client enc_shares d =
     (if \<not> is_party then (Err (ServerError NotParty), d)
      else if client \<notin> set (ex_output_clients d) then (Err (ServerError NotOutputClient), d)
      else if map_of (ex_output_shares d) (client, party) \<noteq> None
      then (Err (ServerError OutputSharesAlreadySent), d)
      else (Ok (), d\<lparr>ex_output_shares := AList.update (client, party) enc_shares (ex_output_shares d)\<rparr>))"

text \<open>\<open>closed k\<close> is \<open>SubscriptionSink::is_closed\<close>: whether the subscriber is gone.\<close>

definition ready_output_snapshot ::
  "(sink \<Rightarrow> bool) \<Rightarrow> ClientIdentity \<Rightarrow> nat \<Rightarrow> CoordinatorExecutionState
    \<Rightarrow> (sink \<times> enc_share list) option \<times> CoordinatorExecutionState" where
  "ready_output_snapshot closed client min_shares d =
     (case ex_output_sinks d client of
        None \<Rightarrow> (None, d)
      | Some waiter \<Rightarrow>
          if closed waiter then (None, d\<lparr>ex_output_sinks := (ex_output_sinks d)(client := None)\<rparr>)
          else
            let shares = map snd (filter (\<lambda>entry. fst (fst entry) = client) (ex_output_shares d)) in
            if length shares < min_shares then (None, d) else (Some (waiter, shares), d))"

text \<open>After a failed send: forget the waiter unless another one has taken its place.\<close>

definition forget_output_waiter ::
  "ClientIdentity \<Rightarrow> sink \<Rightarrow> CoordinatorExecutionState \<Rightarrow> CoordinatorExecutionState" where
  "forget_output_waiter client waiter d =
     (if ex_output_sinks d client = Some waiter
      then d\<lparr>ex_output_sinks := (ex_output_sinks d)(client := None)\<rparr> else d)"

definition output_rejection ::
  "(sink \<Rightarrow> bool) \<Rightarrow> ClientIdentity \<Rightarrow> CoordinatorExecutionState \<Rightarrow> rpc_error option" where
  "output_rejection closed client d =
     (if client \<notin> set (ex_output_clients d) then Some (ServerError NotOutputClient)
      else if (case ex_output_sinks d client of None \<Rightarrow> False | Some k \<Rightarrow> \<not> closed k)
      then Some (ServerError OutputSharesAlreadyRequested)
      else None)"

text \<open>The second locked section of \<open>obtain_output_shares\<close>: recheck, then wait. True if it waits.\<close>

definition wait_for_output ::
  "(sink \<Rightarrow> bool) \<Rightarrow> ClientIdentity \<Rightarrow> sink \<Rightarrow> CoordinatorExecutionState
    \<Rightarrow> bool \<times> CoordinatorExecutionState" where
  "wait_for_output closed client k d =
     (if output_rejection closed client d \<noteq> None then (False, d)
      else (True, d\<lparr>ex_output_sinks := (ex_output_sinks d)(client \<mapsto> k)\<rparr>))"

text \<open>The part of \<open>retire_execution\<close> that touches a live execution.\<close>

definition acknowledge_retirement ::
  "ClientIdentity \<Rightarrow> CoordinatorExecutionState \<Rightarrow> CoordinatorExecutionState" where
  "acknowledge_retirement party d = d\<lparr>ex_retirement_acks := insert party (ex_retirement_acks d)\<rparr>"

definition available_masks :: "CoordinatorExecutionState \<Rightarrow> u64" where
  "available_masks d = of_nat (length (ex_masked_inputs d)) - ex_n_reserved d"

end
