(* ===== verification/Coord_Server.thy ===== *)
theory Coord_Server
  imports Retired_Executions Session_Auth Coord_Execution
begin

text \<open>
  The coordinator's RPC server of \<^verbatim>\<open>crates/off-chain/src/lib.rs\<close>: \<open>CoordinatorRPCServerSharedBase\<close>,
  \<open>CoordinatorRPCServerConnectionBase\<close> and the methods of \<open>CoordinatorRPCBaseServer\<close>.

  A handler takes the identity of the connection's client, its arguments and the shared state, and
  returns what the client sees, the new state and the notifications sent. The state is behind one
  mutex. A handler that releases it half-way is split into its locked sections, and \<open>coord_step\<close>
  interleaves the sections of all handlers freely; the handlers themselves are the sections run
  one after the other.
\<close>

section \<open>State\<close>

text \<open>
  \<open>srv_shutdown_notify\<close> says whether a sender is stored, \<open>srv_shutdown_fired\<close> what its receiver
  has seen.
\<close>

record CoordinatorRPCServerSharedBase =
  srv_mpc_nodes :: "ClientIdentity list"
  srv_n :: u64
  srv_t :: u64
  srv_executions :: "(ExecutionId, CoordinatorExecutionState) hashmap"
  srv_shutdown_notify :: bool
  srv_shutdown_fired :: bool
  srv_one_off_execution :: "ExecutionId option"
  srv_retired :: RetiredExecutions
  srv_webauthn_bindings :: WebauthnBindings

definition validate_topology :: "u64 \<Rightarrow> u64 \<Rightarrow> ClientIdentity list \<Rightarrow> (CoordinatorError, unit) result" where
  "validate_topology n t initial_mpc_nodes =
     (if initial_mpc_nodes = [] then Err (JSONError RequiresAtLeastOneNode)
      else if length initial_mpc_nodes \<noteq> unat n
      then Err (JSONError (WrongNodeCount n (length initial_mpc_nodes)))
      else if n \<le> t then Err (JSONError (ThresholdNotBelowNodeCount t n))
      else if n < 2 * t + 1 then Err (JSONError (NodeCountBelowTwiceThreshold n t))
      else if \<not> distinct initial_mpc_nodes then Err (JSONError NodeIdentitiesNotUnique)
      else Ok ())"

definition coordinator_new ::
  "u64 \<Rightarrow> u64 \<Rightarrow> ClientIdentity list \<Rightarrow> (CoordinatorError, CoordinatorRPCServerSharedBase) result" where
  "coordinator_new n t initial_mpc_nodes =
     and_then (validate_topology n t initial_mpc_nodes) (\<lambda>_. Ok
       \<lparr>srv_mpc_nodes = initial_mpc_nodes,
        srv_n = n,
        srv_t = t,
        srv_executions = [],
        srv_shutdown_notify = False,
        srv_shutdown_fired = False,
        srv_one_off_execution = None,
        srv_retired = retired_default,
        srv_webauthn_bindings = webauthn_bindings_default\<rparr>)"

definition transition_quorum :: "CoordinatorRPCServerSharedBase \<Rightarrow> nat" where
  "transition_quorum s =
     (let liveness_bound = unat (srv_n s - srv_t s);
          honest_majority = unat (2 * srv_t s + 1)
      in max (min honest_majority liveness_bound) (unat (srv_t s + 1)))"

definition retirement_quorum :: "CoordinatorRPCServerSharedBase \<Rightarrow> nat" where
  "retirement_quorum s = unat (srv_n s - srv_t s)"

section \<open>Executions\<close>

definition put_execution ::
  "ExecutionId \<Rightarrow> CoordinatorExecutionState \<Rightarrow> CoordinatorRPCServerSharedBase
    \<Rightarrow> CoordinatorRPCServerSharedBase" where
  "put_execution e d s = s\<lparr>srv_executions := AList.update e d (srv_executions s)\<rparr>"

definition evictable :: "CoordinatorRPCServerSharedBase \<Rightarrow> (ExecutionId \<times> CoordinatorExecutionState) option" where
  "evictable s =
     find (\<lambda>(e, d). srv_one_off_execution s \<noteq> Some e \<and> retirement_quorum s \<le> card (ex_retirement_acks d))
       (srv_executions s)"

definition insert_execution ::
  "ExecutionRegistration \<Rightarrow> CoordinatorRPCServerSharedBase
    \<Rightarrow> (CoordinatorError, unit) result \<times> CoordinatorRPCServerSharedBase" where
  "insert_execution registration s =
     (case execution_new registration (srv_n s) of
        Ok d \<Rightarrow> (Ok (), put_execution (reg_execution_id registration) d s)
      | Err e \<Rightarrow> (Err e, s)
      | Panic \<Rightarrow> (Panic, s))"

definition register_execution ::
  "ExecutionRegistration \<Rightarrow> CoordinatorRPCServerSharedBase
    \<Rightarrow> (CoordinatorError, unit) result \<times> CoordinatorRPCServerSharedBase" where
  "register_execution registration s =
     (case map_of (srv_executions s) (reg_execution_id registration) of
        Some existing \<Rightarrow>
          if ex_registration existing = registration then (Ok (), s)
          else (Err (JSONError (ExecutionRegisteredWithDifferentMetadata (reg_execution_id registration))), s)
      | None \<Rightarrow>
          if DEFAULT_MAX_CONCURRENT_EXECUTIONS \<le> length (srv_executions s) then
            (case evictable s of
               Some (e, d) \<Rightarrow>
                 insert_execution registration
                   (s\<lparr>srv_executions := AList.delete e (srv_executions s),
                      srv_retired := seal (srv_retired s) e (ex_retirement_acks d)\<rparr>)
             | None \<Rightarrow> (Err (JSONError (ExecutionCapacityReached DEFAULT_MAX_CONCURRENT_EXECUTIONS)), s))
          else insert_execution registration s)"

definition new_for_execution ::
  "ExecutionId \<Rightarrow> bytes \<Rightarrow> u64 \<Rightarrow> u64 \<Rightarrow> ClientIdentity list \<Rightarrow> u64 \<Rightarrow> ClientIdentity list \<Rightarrow> InputAssignment
    \<Rightarrow> (CoordinatorError, CoordinatorRPCServerSharedBase) result" where
  "new_for_execution e prog_hash n t initial_mpc_nodes n_inputs output_clients input_assignment =
     (case Option.bind (checked_mul t 2) (\<lambda>threshold. checked_add threshold 1) of
        None \<Rightarrow> Err (JSONError OutputQuorumOverflow)
      | Some min_output_shares \<Rightarrow>
          and_then (coordinator_new n t initial_mpc_nodes) (\<lambda>s.
            case register_execution
                \<lparr>reg_execution_id = e, reg_program_hash = prog_hash, reg_n_inputs = n_inputs,
                 reg_output_clients = output_clients, reg_input_assignment = input_assignment,
                 reg_min_output_shares = min_output_shares\<rparr> s of
              (Ok _, s') \<Rightarrow> Ok s'
            | (Err err, _) \<Rightarrow> Err err
            | (Panic, _) \<Rightarrow> Panic))"

definition round_of :: "CoordinatorRPCServerSharedBase \<Rightarrow> ExecutionId \<Rightarrow> Round option" where
  "round_of s e = map_option ex_round (map_of (srv_executions s) e)"

definition watch_for_shutdown_request ::
  "ExecutionId \<Rightarrow> CoordinatorRPCServerSharedBase \<Rightarrow> CoordinatorRPCServerSharedBase" where
  "watch_for_shutdown_request e s =
     s\<lparr>srv_shutdown_notify := True, srv_shutdown_fired := False, srv_one_off_execution := Some e\<rparr>"

definition retire_execution ::
  "ExecutionId \<Rightarrow> ClientIdentity \<Rightarrow> CoordinatorRPCServerSharedBase
    \<Rightarrow> (CoordinatorError, unit) result \<times> CoordinatorRPCServerSharedBase" where
  "retire_execution e party s =
     (if party \<notin> set (srv_mpc_nodes s) then (Err (JSONError OnlyPartiesCanRetire), s)
      else
        let (known, retired) = acknowledge (srv_retired s) e party (length (srv_mpc_nodes s));
            s1 = s\<lparr>srv_retired := retired\<rparr>
        in if known then (Ok (), s1)
           else case map_of (srv_executions s1) e of
             None \<Rightarrow> (Ok (), s1)
           | Some d \<Rightarrow> (Ok (), put_execution e (acknowledge_retirement party d) s1))"

definition is_retired :: "CoordinatorRPCServerSharedBase \<Rightarrow> ExecutionId \<Rightarrow> bool" where
  "is_retired s e \<longleftrightarrow>
     retired_contains (srv_retired s) e \<or>
     (case map_of (srv_executions s) e of
        None \<Rightarrow> False | Some d \<Rightarrow> retirement_quorum s \<le> card (ex_retirement_acks d))"

definition retirement_progress :: "CoordinatorRPCServerSharedBase \<Rightarrow> ExecutionId \<Rightarrow> nat \<times> nat \<times> bool" where
  "retirement_progress s e =
     (let n = length (srv_mpc_nodes s) in
      case map_of (srv_executions s) e of
        Some d \<Rightarrow>
          let acknowledged = card (ex_retirement_acks d) in (acknowledged, n, n \<le> acknowledged)
      | None \<Rightarrow>
          (case ret_acks (srv_retired s) e of
             Some acks \<Rightarrow> (card acks, n, False)
           | None \<Rightarrow> (n, n, True)))"

section \<open>RPC methods\<close>

type_synonym 'a reply = "'a rpc_result \<times> CoordinatorRPCServerSharedBase \<times> delivery list"

text \<open>\<open>execution_state\<close>: run a locked section on an execution, or report that there is none.\<close>

definition with_execution ::
  "ExecutionId \<Rightarrow> CoordinatorRPCServerSharedBase
    \<Rightarrow> (CoordinatorExecutionState \<Rightarrow> 'a rpc_result \<times> CoordinatorExecutionState \<times> delivery list) \<Rightarrow> 'a reply" where
  "with_execution e s section =
     (case map_of (srv_executions s) e of
        None \<Rightarrow> (Err (ServerError RpcExecutionNotFound), s, [])
      | Some d \<Rightarrow> (let (r, d', ds) = section d in (r, put_execution e d' s, ds)))"

definition rpc_register_execution ::
  "ClientIdentity \<Rightarrow> ExecutionRegistration \<Rightarrow> CoordinatorRPCServerSharedBase \<Rightarrow> unit reply" where
  "rpc_register_execution caller registration s =
     (if caller \<notin> set (srv_mpc_nodes s) then (Err (ServerError NotParty), s, [])
      else case register_execution registration s of
        (Ok _, s') \<Rightarrow> (Ok (), s', [])
      | (Err _, s') \<Rightarrow> (Err (ServerError ExecutionAlreadyRegistered), s', [])
      | (Panic, s') \<Rightarrow> (Panic, s', []))"

definition rpc_retire_execution ::
  "ClientIdentity \<Rightarrow> ExecutionId \<Rightarrow> CoordinatorRPCServerSharedBase \<Rightarrow> unit reply" where
  "rpc_retire_execution caller e s =
     (if caller \<notin> set (srv_mpc_nodes s) then (Err (ServerError NotParty), s, [])
      else case retire_execution e caller s of
        (Ok _, s') \<Rightarrow> (Ok (), s', [])
      | (Err _, s') \<Rightarrow> (Err (ServerError RpcExecutionNotFound), s', [])
      | (Panic, s') \<Rightarrow> (Panic, s', []))"

definition request_shutdown ::
  "ClientIdentity \<Rightarrow> CoordinatorRPCServerSharedBase \<Rightarrow> unit reply" where
  "request_shutdown caller s =
     (case srv_mpc_nodes s of
        [] \<Rightarrow> (Panic, s, [])
      | designated_party # _ \<Rightarrow>
          if caller \<noteq> designated_party then (Err (ServerError NotDesignatedParty), s, [])
          else case srv_one_off_execution s of
            None \<Rightarrow> (Err (ServerError ShutdownNotAccepted), s, [])
          | Some e \<Rightarrow>
              if round_of s e \<noteq> Some ProgramFinished then (Err (ServerError WrongRound), s, [])
              else if srv_shutdown_notify s
              then (Ok (), s\<lparr>srv_shutdown_notify := False, srv_shutdown_fired := True\<rparr>, [])
              else (Err (ServerError ShutdownNotAccepted), s, []))"

text \<open>
  The subscriptions check that the execution exists, accept the pending sink without the lock, and
  look the execution up again. \<open>accepted\<close> is the outcome of the handshake.
\<close>

definition subscription ::
  "sink option \<Rightarrow> ExecutionId \<Rightarrow> CoordinatorRPCServerSharedBase
    \<Rightarrow> (sink \<Rightarrow> CoordinatorExecutionState \<Rightarrow> CoordinatorExecutionState \<times> delivery list) \<Rightarrow> unit reply" where
  "subscription accepted e s subscribe =
     (if map_of (srv_executions s) e = None then (Err (ServerError RpcExecutionNotFound), s, [])
      else case accepted of
        None \<Rightarrow> (Err TransportError, s, [])
      | Some k \<Rightarrow> with_execution e s (\<lambda>d. let (d', ds) = subscribe k d in (Ok (), d', ds)))"

definition sub_round ::
  "sink option \<Rightarrow> ExecutionId \<Rightarrow> Round \<Rightarrow> CoordinatorRPCServerSharedBase \<Rightarrow> unit reply" where
  "sub_round accepted e round s =
     (if round_before round = None then (Err InvalidParams, s, [])
      else subscription accepted e s (subscribe_round round))"

definition available_input_masks :: "ExecutionId \<Rightarrow> CoordinatorRPCServerSharedBase \<Rightarrow> u64 reply" where
  "available_input_masks e s = with_execution e s (\<lambda>d. (Ok (available_masks d), d, []))"

definition sub_assigned_reserved_indices ::
  "(sink \<Rightarrow> message \<Rightarrow> bool) \<Rightarrow> sink option \<Rightarrow> ExecutionId \<Rightarrow> CoordinatorRPCServerSharedBase \<Rightarrow> unit reply" where
  "sub_assigned_reserved_indices ok accepted e s =
     subscription accepted e s (subscribe_assigned_reserved_indices ok)"

definition sub_assigned_masked_inputs ::
  "(sink \<Rightarrow> message \<Rightarrow> bool) \<Rightarrow> sink option \<Rightarrow> ExecutionId \<Rightarrow> CoordinatorRPCServerSharedBase \<Rightarrow> unit reply" where
  "sub_assigned_masked_inputs ok accepted e s =
     subscription accepted e s (subscribe_assigned_masked_inputs ok)"

definition sub_reserved_indices ::
  "(sink \<Rightarrow> message \<Rightarrow> bool) \<Rightarrow> sink option \<Rightarrow> ExecutionId \<Rightarrow> CoordinatorRPCServerSharedBase \<Rightarrow> unit reply" where
  "sub_reserved_indices ok accepted e s = subscription accepted e s (subscribe_reserved_indices ok)"

definition sub_masked_inputs ::
  "(sink \<Rightarrow> message \<Rightarrow> bool) \<Rightarrow> sink option \<Rightarrow> ExecutionId \<Rightarrow> CoordinatorRPCServerSharedBase \<Rightarrow> unit reply" where
  "sub_masked_inputs ok accepted e s = subscription accepted e s (subscribe_masked_inputs ok)"

definition submit_masked_inputs ::
  "(sink \<Rightarrow> message \<Rightarrow> bool) \<Rightarrow> ClientIdentity \<Rightarrow> ExecutionId \<Rightarrow> bytes list \<Rightarrow> u64 list
    \<Rightarrow> CoordinatorRPCServerSharedBase \<Rightarrow> unit reply" where
  "submit_masked_inputs ok caller e masked_inputs reserved_indices s =
     (case srv_mpc_nodes s of
        [] \<Rightarrow> (Panic, s, [])
      | roster_head # _ \<Rightarrow>
          (case with_execution e s
              (\<lambda>d. let (r, d') = submit_record caller masked_inputs reserved_indices d in (r, d', [])) of
             (Ok p, s1, _) \<Rightarrow>
               (case with_execution e s1 (submit_finish ok (transition_quorum s) roster_head p) of
                  (Err _, s2, _) \<Rightarrow> (Ok (), s2, submit_deliver p)
                | (r, s2, ds) \<Rightarrow> (r, s2, submit_deliver p @ ds))
           | (Err err, s1, _) \<Rightarrow> (Err err, s1, [])
           | (Panic, s1, _) \<Rightarrow> (Panic, s1, [])))"

definition submit_masked_input ::
  "(sink \<Rightarrow> message \<Rightarrow> bool) \<Rightarrow> ClientIdentity \<Rightarrow> ExecutionId \<Rightarrow> bytes \<Rightarrow> u64
    \<Rightarrow> CoordinatorRPCServerSharedBase \<Rightarrow> unit reply" where
  "submit_masked_input ok caller e masked_input reserved_index s =
     submit_masked_inputs ok caller e [masked_input] [reserved_index] s"

definition reserve_mask_indices ::
  "(sink \<Rightarrow> message \<Rightarrow> bool) \<Rightarrow> ClientIdentity \<Rightarrow> ExecutionId \<Rightarrow> u64 list
    \<Rightarrow> CoordinatorRPCServerSharedBase \<Rightarrow> unit reply" where
  "reserve_mask_indices ok caller e indices s = with_execution e s (execution_reserve ok caller indices)"

definition reserve_mask_index ::
  "(sink \<Rightarrow> message \<Rightarrow> bool) \<Rightarrow> ClientIdentity \<Rightarrow> ExecutionId \<Rightarrow> u64
    \<Rightarrow> CoordinatorRPCServerSharedBase \<Rightarrow> unit reply" where
  "reserve_mask_index ok caller e i s = reserve_mask_indices ok caller e [i] s"

definition rpc_transition ::
  "ClientIdentity \<Rightarrow> ExecutionId \<Rightarrow> Round \<Rightarrow> CoordinatorRPCServerSharedBase \<Rightarrow> unit reply" where
  "rpc_transition caller e next_round s =
     (case srv_mpc_nodes s of
        [] \<Rightarrow> (Panic, s, [])
      | roster_head # _ \<Rightarrow>
          if caller \<notin> set (srv_mpc_nodes s) then (Err (ServerError NotParty), s, [])
          else if round_before next_round = None then (Err InvalidParams, s, [])
          else with_execution e s (execution_vote (transition_quorum s) roster_head caller next_round))"

text \<open>The \<open>expect\<close> on the lookup panics if the execution has gone meanwhile.\<close>

definition deliver_ready_output_waiters ::
  "(sink \<Rightarrow> message \<Rightarrow> bool) \<Rightarrow> (sink \<Rightarrow> bool) \<Rightarrow> ExecutionId \<Rightarrow> ClientIdentity \<Rightarrow> nat
    \<Rightarrow> CoordinatorRPCServerSharedBase \<Rightarrow> unit reply" where
  "deliver_ready_output_waiters ok closed e client min_shares s =
     (case map_of (srv_executions s) e of
        None \<Rightarrow> (Panic, s, [])
      | Some d \<Rightarrow>
          (case ready_output_snapshot closed client min_shares d of
             (None, d') \<Rightarrow> (Ok (), put_execution e d' s, [])
           | (Some (waiter, shares), d') \<Rightarrow>
               let s' = put_execution e d' s; m = OutputSharesMsg shares in
               if ok waiter m then (Ok (), s', [(waiter, m)])
               else (Ok (), put_execution e (forget_output_waiter client waiter d') s', [(waiter, m)])))"

definition send_output_shares ::
  "(sink \<Rightarrow> message \<Rightarrow> bool) \<Rightarrow> (sink \<Rightarrow> bool) \<Rightarrow> ClientIdentity \<Rightarrow> ExecutionId \<Rightarrow> ClientIdentity \<Rightarrow> enc_share
    \<Rightarrow> CoordinatorRPCServerSharedBase \<Rightarrow> unit reply" where
  "send_output_shares ok closed caller e client enc_shares s =
     (case map_of (srv_executions s) e of
        None \<Rightarrow> (Err (ServerError RpcExecutionNotFound), s, [])
      | Some d \<Rightarrow>
          (case record_output_shares (caller \<in> set (srv_mpc_nodes s)) caller client enc_shares d of
             (Ok _, d') \<Rightarrow>
               deliver_ready_output_waiters ok closed e client
                 (unat (reg_min_output_shares (ex_registration d'))) (put_execution e d' s)
           | (Err err, _) \<Rightarrow> (Err err, s, [])
           | (Panic, _) \<Rightarrow> (Panic, s, [])))"

definition resolve_output_encryption_key ::
  "ExecutionId \<Rightarrow> ClientIdentity \<Rightarrow> CoordinatorRPCServerSharedBase \<Rightarrow> bytes option reply" where
  "resolve_output_encryption_key e client s =
     (Ok (resolve_ecdh_public_key (srv_webauthn_bindings s) e client), s, [])"

definition obtain_output_shares ::
  "(sink \<Rightarrow> message \<Rightarrow> bool) \<Rightarrow> (sink \<Rightarrow> bool) \<Rightarrow> sink option \<Rightarrow> ClientIdentity \<Rightarrow> ExecutionId
    \<Rightarrow> CoordinatorRPCServerSharedBase \<Rightarrow> unit reply" where
  "obtain_output_shares ok closed accepted caller e s =
     (case map_of (srv_executions s) e of
        None \<Rightarrow> (Err (ServerError RpcExecutionNotFound), s, [])
      | Some d \<Rightarrow>
          (case output_rejection closed caller d of
             Some err \<Rightarrow> (Err err, s, [])
           | None \<Rightarrow>
               (case accepted of
                  None \<Rightarrow> (Err TransportError, s, [])
                | Some k \<Rightarrow>
                    (case wait_for_output closed caller k d of
                       (False, _) \<Rightarrow> (Ok (), s, [])
                     | (True, d') \<Rightarrow>
                         deliver_ready_output_waiters ok closed e caller
                           (unat (reg_min_output_shares (ex_registration d'))) (put_execution e d' s)))))"

section \<open>Interleavings\<close>

text \<open>
  One step is one locked section of one handler, with any arguments and any outcome of the
  network. The second section of \<open>submit_masked_inputs\<close> may come at any time and bring back any
  sinks, which covers every interleaving the delivery mutex allows and more. \<open>reorder\<close> is the
  unspecified iteration order of the hash map of executions.
\<close>

inductive coord_step :: "CoordinatorRPCServerSharedBase \<Rightarrow> CoordinatorRPCServerSharedBase \<Rightarrow> bool" where
  step_register: "coord_step s (snd (register_execution registration s))"
| step_retire: "coord_step s (snd (retire_execution e party s))"
| step_watch: "coord_step s (watch_for_shutdown_request e s)"
| step_shutdown: "coord_step s (fst (snd (request_shutdown caller s)))"
| step_sub_round: "map_of (srv_executions s) e = Some d \<Longrightarrow>
    coord_step s (put_execution e (fst (subscribe_round round k d)) s)"
| step_sub_reserved: "map_of (srv_executions s) e = Some d \<Longrightarrow>
    coord_step s (put_execution e (fst (subscribe_reserved_indices ok k d)) s)"
| step_sub_masked: "map_of (srv_executions s) e = Some d \<Longrightarrow>
    coord_step s (put_execution e (fst (subscribe_masked_inputs ok k d)) s)"
| step_sub_assigned_reserved: "map_of (srv_executions s) e = Some d \<Longrightarrow>
    coord_step s (put_execution e (fst (subscribe_assigned_reserved_indices ok k d)) s)"
| step_sub_assigned_masked: "map_of (srv_executions s) e = Some d \<Longrightarrow>
    coord_step s (put_execution e (fst (subscribe_assigned_masked_inputs ok k d)) s)"
| step_reserve: "map_of (srv_executions s) e = Some d \<Longrightarrow>
    coord_step s (put_execution e (fst (snd (execution_reserve ok client indices d))) s)"
| step_submit: "map_of (srv_executions s) e = Some d \<Longrightarrow>
    coord_step s (put_execution e (snd (submit_record client masked_inputs indices d)) s)"
| step_advance: "map_of (srv_executions s) e = Some d \<Longrightarrow> srv_mpc_nodes s = roster_head # rest \<Longrightarrow>
    coord_step s (put_execution e (fst (snd (submit_finish ok (transition_quorum s) roster_head p d))) s)"
| step_record_output: "map_of (srv_executions s) e = Some d \<Longrightarrow>
    coord_step s (put_execution e (snd (record_output_shares (party \<in> set (srv_mpc_nodes s)) party client shares d)) s)"
| step_wait_output: "map_of (srv_executions s) e = Some d \<Longrightarrow>
    coord_step s (put_execution e (snd (wait_for_output closed client k d)) s)"
| step_snapshot: "map_of (srv_executions s) e = Some d \<Longrightarrow>
    coord_step s (put_execution e (snd (ready_output_snapshot closed client m d)) s)"
| step_forget: "map_of (srv_executions s) e = Some d \<Longrightarrow>
    coord_step s (put_execution e (forget_output_waiter client k d) s)"
| step_transition: "coord_step s (fst (snd (rpc_transition caller e round s)))"
| step_bindings: "coord_step s (s\<lparr>srv_webauthn_bindings := w\<rparr>)"
| step_reorder: "mset xs = mset (srv_executions s) \<Longrightarrow> coord_step s (s\<lparr>srv_executions := xs\<rparr>)"

definition coord_init :: "CoordinatorRPCServerSharedBase \<Rightarrow> bool" where
  "coord_init s \<longleftrightarrow>
     (\<exists>n t nodes. coordinator_new n t nodes = Ok s \<and> vec_ok nodes)"

abbreviation coord_reachable :: "CoordinatorRPCServerSharedBase \<Rightarrow> bool" where
  "coord_reachable \<equiv> reachable coord_init coord_step"

end
