(* ===== verification/Run_Coord.thy ===== *)
theory Run_Coord
  imports Coord_Server
begin

text \<open>
  The program \<^verbatim>\<open>crates/bins/src/bin/run-coord.rs\<close>: the parsers of its arguments, the binding of a
  program's client inputs and outputs to identities, and \<open>main\<close> up to the point where the listener
  starts.

  The record \<open>host\<close> is what \<open>main\<close> takes from outside: files, the public key of an X.509
  certificate (crate \<open>x509-parser\<close>) and the client manifest of a compiled program (crate
  \<open>stoffel-vm-types\<close>, of whose types the fields that the code reads are here). \<open>hex::decode\<close> is an
  argument of the parsers. Every failed \<open>assert\<close>, \<open>expect\<close> and \<open>unwrap\<close> of \<open>main\<close> is \<open>Panic\<close>. The
  arguments are those \<open>clap\<close> has parsed.
\<close>

section \<open>Arguments\<close>

type_synonym u16 = "16 word"

datatype Backend = HoneyBadger | Avss

record OneOff =
  oo_hash :: bytes
  oo_execution_id :: ExecutionId

record Args =
  arg_one_off :: "OneOff option"
  arg_one_off_shutdown_grace_secs :: u64
  arg_initial_mpc_nodes :: "string list"
  arg_server_cert :: string
  arg_server_key :: string
  arg_n :: u64
  arg_t :: u64
  arg_n_inputs :: "u64 option"
  arg_output_clients :: "string list"
  arg_program :: "string option"
  arg_client_bindings :: "string list"
  arg_addr :: string
  arg_port :: u16
  arg_backend :: Backend
  arg_browser_addr :: "string option"
  arg_browser_port :: u16
  arg_browser_tls_cert_chain :: "string option"
  arg_browser_tls_key :: "string option"
  arg_webauthn_rp_id :: "string option"
  arg_client_cert_dir :: "string option"
  arg_client_credential_id_dir :: "string option"

text \<open>\<open>str::split_once\<close> and \<open>str::parse::<u64>\<close>.\<close>

definition split_once :: "char \<Rightarrow> string \<Rightarrow> (string \<times> string) option" where
  "split_once c s =
     (if c \<in> set s then Some (takeWhile (\<lambda>x. x \<noteq> c) s, tl (dropWhile (\<lambda>x. x \<noteq> c) s)) else None)"

fun parse_digits :: "string \<Rightarrow> nat \<Rightarrow> nat option" where
  "parse_digits [] acc = Some acc"
| "parse_digits (c # cs) acc =
     (if 48 \<le> (of_char c :: nat) \<and> (of_char c :: nat) \<le> 57 then parse_digits cs (10 * acc + (of_char c - 48)) else None)"

definition parse_u64 :: "string \<Rightarrow> u64 option" where
  "parse_u64 s =
     (let digits = (case s of CHR ''+'' # ds \<Rightarrow> ds | _ \<Rightarrow> s) in
      if digits = [] then None
      else case parse_digits digits 0 of
        Some v \<Rightarrow> if int v < 2 ^ 64 then Some (of_nat v) else None
      | None \<Rightarrow> None)"

definition parse_nonzero_execution_id ::
  "(string \<Rightarrow> bytes option) \<Rightarrow> string \<Rightarrow> (parse_error, ExecutionId) result" where
  "parse_nonzero_execution_id hex_decode value =
     and_then (eid_from_str hex_decode value) (\<lambda>execution_id.
       if is_zero execution_id then Err MustBeNonzero else Ok execution_id)"

definition parse_one_off :: "(string \<Rightarrow> bytes option) \<Rightarrow> string \<Rightarrow> (parse_error, OneOff) result" where
  "parse_one_off hex_decode value =
     (case split_once CHR '','' value of
        None \<Rightarrow> Err MissingComma
      | Some (hash, execution_id) \<Rightarrow>
          (case hex_decode hash of
             None \<Rightarrow> Err InvalidHash
           | Some bs \<Rightarrow>
               if length bs \<noteq> 32 then Err HashNot32Bytes
               else and_then (parse_nonzero_execution_id hex_decode execution_id) (\<lambda>e.
                 Ok \<lparr>oo_hash = bs, oo_execution_id = e\<rparr>)))"

section \<open>Binding a program's clients\<close>

record ('i, 'o) ClientIoSchema =
  schema_client_slot :: u64
  schema_inputs :: "'i list"
  schema_outputs :: "'o list"

datatype MpcBackend = MpcHoneyBadger | MpcAvss

record ('i, 'o) ClientIoManifest =
  manifest_mpc_backend :: MpcBackend
  manifest_clients :: "('i, 'o) ClientIoSchema list"

fun index_schemas ::
  "('i, 'o) ClientIoSchema list \<Rightarrow> (u64, ('i, 'o) ClientIoSchema) hashmap
    \<Rightarrow> (CoordinatorError, (u64, ('i, 'o) ClientIoSchema) hashmap) result" where
  "index_schemas [] by_slot = Ok by_slot"
| "index_schemas (schema # schemas) by_slot =
     (if map_of by_slot (schema_client_slot schema) \<noteq> None
      then Err (JSONError (DuplicateClientSlot (schema_client_slot schema)))
      else index_schemas schemas (AList.update (schema_client_slot schema) schema by_slot))"

fun bind_schemas ::
  "(u64 \<times> ClientIdentity) list \<Rightarrow> (u64, ('i, 'o) ClientIoSchema) hashmap
    \<Rightarrow> (CoordinatorError, (ClientIdentity \<times> u64 \<times> u64 \<times> u64) list \<times> (u64, ('i, 'o) ClientIoSchema) hashmap) result" where
  "bind_schemas [] by_slot = Ok ([], by_slot)"
| "bind_schemas ((client_slot, client) # bindings) by_slot =
     (case map_of by_slot client_slot of
        None \<Rightarrow> Err (JSONError (NoManifestEntry client_slot))
      | Some schema \<Rightarrow>
          and_then (bind_schemas bindings (AList.delete client_slot by_slot)) (\<lambda>(bound_clients, unbound).
            Ok ((client, client_slot, of_nat (length (schema_inputs schema)), of_nat (length (schema_outputs schema))) # bound_clients,
                unbound)))"

fun assign_ranges ::
  "(ClientIdentity \<times> u64 \<times> u64 \<times> u64) list \<Rightarrow> ClientIdentity set \<Rightarrow> ClientIdentity list \<Rightarrow> InputClientRange list
    \<Rightarrow> ClientIdentity list \<Rightarrow> (CoordinatorError, InputAssignment \<times> ClientIdentity list) result" where
  "assign_ranges [] seen_clients clients ranges output_clients =
     Ok (\<lparr>ia_clients = clients, ia_ranges = ranges\<rparr>, output_clients)"
| "assign_ranges ((client, client_slot, input_count, output_count) # bound_clients) seen_clients clients ranges output_clients =
     (if client \<in> seen_clients then Err (JSONError ClientBoundToMultipleSlots)
      else
        let seen_clients = insert client seen_clients;
            output_clients = (if output_count > 0 then output_clients @ [client] else output_clients)
        in if input_count = 0 then assign_ranges bound_clients seen_clients clients ranges output_clients
           else if 2 ^ 32 \<le> int (length clients) then Err (JSONError TooManyInputClients)
           else assign_ranges bound_clients seen_clients (clients @ [client])
                  (ranges @ [\<lparr>range_client_index = of_nat (length clients), range_count = input_count\<rparr>]) output_clients)"

definition build_input_assignment ::
  "('i, 'o) ClientIoManifest \<Rightarrow> (u64 \<times> ClientIdentity) list
    \<Rightarrow> (CoordinatorError, InputAssignment \<times> ClientIdentity list) result" where
  "build_input_assignment manifest bindings =
     and_then (index_schemas (manifest_clients manifest) []) (\<lambda>by_slot.
       and_then (bind_schemas bindings by_slot) (\<lambda>(bound_clients, unbound).
         if unbound \<noteq> [] then Err (JSONError (UnboundSlots (sort_key unat (map fst unbound))))
         else assign_ranges bound_clients {} [] [] []))"

section \<open>The program\<close>

record ('i, 'o) host =
  host_read :: "string \<Rightarrow> bytes option"
  host_public_key :: "bytes \<Rightarrow> bytes option"
  host_load_program :: "string \<Rightarrow> ('i, 'o) ClientIoManifest option"

record BrowserTls =
  bt_addr :: string
  bt_port :: u16
  bt_cert_chain_pem :: bytes
  bt_key_pem :: bytes
  bt_webauthn_rp_id :: string
  bt_client_credential_id_dirs :: "(string \<times> string) option"

record listener =
  ls_addr :: string
  ls_port :: u16
  ls_server_cert_der :: bytes
  ls_server_key_der :: bytes

datatype run_mode = RunStanding "BrowserTls option" | RunOneOff ExecutionId u64

text \<open>\<open>unwrap\<close> and \<open>expect\<close> on an option.\<close>

definition unwrap :: "'a option \<Rightarrow> ('e, 'a) result" where
  "unwrap x = (case x of Some v \<Rightarrow> Ok v | None \<Rightarrow> Panic)"

definition expect :: "('e, 'a) result \<Rightarrow> ('f, 'a) result" where
  "expect r = (case r of Ok v \<Rightarrow> Ok v | _ \<Rightarrow> Panic)"

fun traverse :: "('a \<Rightarrow> ('e, 'b) result) \<Rightarrow> 'a list \<Rightarrow> ('e, 'b list) result" where
  "traverse f [] = Ok []"
| "traverse f (x # xs) = and_then (f x) (\<lambda>y. and_then (traverse f xs) (\<lambda>ys. Ok (y # ys)))"

definition parse_public_keys :: "('i, 'o) host \<Rightarrow> string list \<Rightarrow> ('e, bytes list) result" where
  "parse_public_keys host cert_files =
     traverse (\<lambda>cert_file. and_then (unwrap (host_read host cert_file)) (\<lambda>cert_der.
       unwrap (host_public_key host cert_der))) cert_files"

definition binding_keys :: "('i, 'o) host \<Rightarrow> string list \<Rightarrow> ('e, (u64 \<times> bytes) list) result" where
  "binding_keys host bindings =
     traverse (\<lambda>binding. and_then (unwrap (split_once CHR ''='' binding)) (\<lambda>(slot, cert_file).
       and_then (unwrap (parse_u64 slot)) (\<lambda>slot.
         and_then (parse_public_keys host [cert_file]) (\<lambda>keys. Ok (slot, hd keys))))) bindings"

definition browser_tls :: "('i, 'o) host \<Rightarrow> Args \<Rightarrow> ('e, BrowserTls option) result" where
  "browser_tls host args =
     (case arg_browser_addr args of
        None \<Rightarrow> Ok None
      | Some addr \<Rightarrow>
          and_then (unwrap (Option.bind (arg_browser_tls_cert_chain args) (host_read host))) (\<lambda>cert_chain_pem.
          and_then (unwrap (Option.bind (arg_browser_tls_key args) (host_read host))) (\<lambda>key_pem.
          and_then (unwrap (arg_webauthn_rp_id args)) (\<lambda>webauthn_rp_id.
          Ok (Some \<lparr>bt_addr = addr, bt_port = arg_browser_port args, bt_cert_chain_pem = cert_chain_pem, bt_key_pem = key_pem,
                    bt_webauthn_rp_id = webauthn_rp_id,
                    bt_client_credential_id_dirs =
                      (case (arg_client_cert_dir args, arg_client_credential_id_dir args) of
                         (Some cert_dir, Some credential_id_dir) \<Rightarrow> Some (cert_dir, credential_id_dir)
                       | _ \<Rightarrow> None)\<rparr>)))))"

text \<open>The client bindings of a program: those given, or the output clients in slot order.\<close>

definition program_bindings ::
  "('i, 'o) host \<Rightarrow> Args \<Rightarrow> ('i, 'o) ClientIoManifest \<Rightarrow> bytes list \<Rightarrow> ('e, (u64 \<times> bytes) list) result" where
  "program_bindings host args manifest output_client_keys =
     (if arg_client_bindings args = [] then
        let schemas = sort_key (\<lambda>schema. unat (schema_client_slot schema)) (manifest_clients manifest) in
        if length schemas \<noteq> length output_client_keys then Panic
        else Ok (zip (map schema_client_slot schemas) output_client_keys)
      else binding_keys host (arg_client_bindings args))"

definition backend_of :: "Backend \<Rightarrow> MpcBackend" where
  "backend_of backend = (case backend of HoneyBadger \<Rightarrow> MpcHoneyBadger | Avss \<Rightarrow> MpcAvss)"

definition one_off_io ::
  "('i, 'o) host \<Rightarrow> Args \<Rightarrow> bytes list \<Rightarrow> ('e, MpcBackend \<times> InputAssignment \<times> ClientIdentity list \<times> u64) result" where
  "one_off_io host args output_client_keys =
     (case arg_program args of
        Some program_path \<Rightarrow>
          and_then (unwrap (host_load_program host program_path)) (\<lambda>manifest.
          and_then (program_bindings host args manifest output_client_keys) (\<lambda>bindings.
          and_then (expect (build_input_assignment manifest bindings)) (\<lambda>(input_assignment, output_clients).
          Ok (manifest_mpc_backend manifest, input_assignment, output_clients,
              wrapping_sum (map range_count (ia_ranges input_assignment))))))
      | None \<Rightarrow>
          and_then (unwrap (arg_n_inputs args)) (\<lambda>n_inputs.
          Ok (backend_of (arg_backend args), \<lparr>ia_clients = [], ia_ranges = []\<rparr>, output_client_keys, n_inputs)))"

definition min_output_shares :: "MpcBackend \<Rightarrow> u64 \<Rightarrow> u64" where
  "min_output_shares mpc_backend t = (case mpc_backend of MpcHoneyBadger \<Rightarrow> 2 * t + 1 | MpcAvss \<Rightarrow> t + 1)"

text \<open>The registration of the one execution of a one-off coordinator.\<close>

definition configure_one_off ::
  "('i, 'o) host \<Rightarrow> Args \<Rightarrow> bytes list \<Rightarrow> OneOff \<Rightarrow> CoordinatorRPCServerSharedBase
    \<Rightarrow> ('e, CoordinatorRPCServerSharedBase) result" where
  "configure_one_off host args output_client_keys one_off server_state =
     and_then (one_off_io host args output_client_keys) (\<lambda>(mpc_backend, input_assignment, output_clients, n_inputs).
       case register_execution
           \<lparr>reg_execution_id = oo_execution_id one_off, reg_program_hash = oo_hash one_off,
            reg_n_inputs = n_inputs, reg_output_clients = output_clients,
            reg_input_assignment = input_assignment,
            reg_min_output_shares = min_output_shares mpc_backend (arg_t args)\<rparr> server_state of
         (Ok _, s) \<Rightarrow> Ok s
       | _ \<Rightarrow> Panic)"

text \<open>The arguments \<open>run_coord\<close> or \<open>run_coord_one_off\<close> is called with.\<close>

definition run_coord_main ::
  "('i, 'o) host \<Rightarrow> Args \<Rightarrow> ('e, CoordinatorRPCServerSharedBase \<times> listener \<times> run_mode) result" where
  "run_coord_main host args =
     and_then (parse_public_keys host (arg_initial_mpc_nodes args)) (\<lambda>public_keys.
       if arg_n args = 0 \<or> length public_keys \<noteq> unat (arg_n args) \<or> arg_n args \<le> arg_t args \<or>
          \<not> distinct public_keys
       then Panic
       else
         and_then (parse_public_keys host (arg_output_clients args)) (\<lambda>output_client_keys.
         and_then (unwrap (host_read host (arg_server_cert args))) (\<lambda>server_cert_der.
         and_then (unwrap (host_read host (arg_server_key args))) (\<lambda>server_key_der.
         if arg_browser_addr args \<noteq> None \<and> arg_one_off args \<noteq> None then Panic
         else
           and_then (browser_tls host args) (\<lambda>browser.
           and_then (expect (coordinator_new (arg_n args) (arg_t args) public_keys)) (\<lambda>server_state.
           let at = \<lparr>ls_addr = arg_addr args, ls_port = arg_port args, ls_server_cert_der = server_cert_der,
                     ls_server_key_der = server_key_der\<rparr> in
           case arg_one_off args of
             None \<Rightarrow> Ok (server_state, at, RunStanding browser)
           | Some one_off \<Rightarrow>
               and_then (configure_one_off host args output_client_keys one_off server_state) (\<lambda>s.
                 Ok (s, at, RunOneOff (oo_execution_id one_off) (arg_one_off_shutdown_grace_secs args)))))))))"

end
