(* ===== verification/Rpc_Transport.thy ===== *)
theory Rpc_Transport
  imports Coord_Shared
begin

text \<open>
  The JSON-RPC listeners of \<^verbatim>\<open>crates/coord-shared/src/rpc.rs\<close> and the TLS configurations and certificate
  verifiers of \<^verbatim>\<open>crates/coord-shared/src/self_signed_certs.rs\<close>: who may connect, which identity a
  connection acts under, and what a shutdown leaves.

  The crates \<open>rustls\<close>, \<open>rustls-pemfile\<close> and \<open>x509-parser\<close> are the record \<open>tls\<close>; sockets and HTTP are the
  arguments that say whether an operation succeeds. The listener task is the sequence of the events
  that its \<open>select!\<close> takes; a spawned connection is served from the moment its handshake and its
  identity are established.
\<close>

section \<open>Third-party code\<close>

datatype tls_version = Tls12 | Tls13

record 'dss tls =
  verify_tls12_signature :: "bytes \<Rightarrow> bytes \<Rightarrow> 'dss \<Rightarrow> bool"
  verify_tls13_signature :: "bytes \<Rightarrow> bytes \<Rightarrow> 'dss \<Rightarrow> bool"
  single_cert_error :: "bytes list \<Rightarrow> bytes \<Rightarrow> string option"
  client_cert_error :: "bytes list \<Rightarrow> bytes \<Rightarrow> string option"
  pemfile_certs :: "bytes \<Rightarrow> bytes list option"
  pemfile_private_key :: "bytes \<Rightarrow> bytes option option"
  x509_public_key :: "bytes \<Rightarrow> bytes option"

section \<open>Verifiers\<close>

text \<open>Both verifiers accept every certificate and leave the handshake signature to \<open>rustls\<close>.\<close>

definition verify_client_cert :: "bytes \<Rightarrow> bytes list \<Rightarrow> bool" where
  "verify_client_cert end_entity intermediates = True"

definition verify_server_cert :: "bytes \<Rightarrow> bytes list \<Rightarrow> bool" where
  "verify_server_cert end_entity intermediates = True"

definition client_verifier_signature :: "'dss tls \<Rightarrow> tls_version \<Rightarrow> bytes \<Rightarrow> bytes \<Rightarrow> 'dss \<Rightarrow> bool" where
  "client_verifier_signature t version message cert dss =
     (case version of
        Tls12 \<Rightarrow> verify_tls12_signature t message cert dss
      | Tls13 \<Rightarrow> verify_tls13_signature t message cert dss)"

definition server_verifier_signature :: "'dss tls \<Rightarrow> tls_version \<Rightarrow> bytes \<Rightarrow> bytes \<Rightarrow> 'dss \<Rightarrow> bool" where
  "server_verifier_signature t version message cert dss =
     (case version of
        Tls12 \<Rightarrow> verify_tls12_signature t message cert dss
      | Tls13 \<Rightarrow> verify_tls13_signature t message cert dss)"

section \<open>Configurations\<close>

record ServerConfig =
  sc_certs :: "bytes list"
  sc_key :: bytes
  sc_client_auth :: bool

record ClientConfig =
  cc_certs :: "bytes list"
  cc_key :: bytes

definition server_tls_config :: "'dss tls \<Rightarrow> bytes \<Rightarrow> bytes \<Rightarrow> (CoordinatorError, ServerConfig) result" where
  "server_tls_config t cert_der key_der =
     (case single_cert_error t [cert_der] key_der of
        None \<Rightarrow> Ok \<lparr>sc_certs = [cert_der], sc_key = key_der, sc_client_auth = True\<rparr>
      | Some e \<Rightarrow> Err (TlsConfigError e))"

definition client_tls_config :: "'dss tls \<Rightarrow> bytes \<Rightarrow> bytes \<Rightarrow> (CoordinatorError, ClientConfig) result" where
  "client_tls_config t cert_der key_der =
     (case client_cert_error t [cert_der] key_der of
        None \<Rightarrow> Ok \<lparr>cc_certs = [cert_der], cc_key = key_der\<rparr>
      | Some e \<Rightarrow> Err (TlsConfigError e))"

definition browser_tls_config :: "'dss tls \<Rightarrow> bytes \<Rightarrow> bytes \<Rightarrow> (CoordinatorError, ServerConfig) result" where
  "browser_tls_config t cert_chain_pem key_pem =
     (case pemfile_certs t cert_chain_pem of
        None \<Rightarrow> Err (TlsConfigError ''invalid certificate chain PEM'')
      | Some certs \<Rightarrow>
          if certs = [] then Err (TlsConfigError ''certificate chain PEM contained no certificates'')
          else (case pemfile_private_key t key_pem of
             None \<Rightarrow> Err (TlsConfigError ''invalid private key PEM'')
           | Some None \<Rightarrow> Err (TlsConfigError ''private key PEM contained no key'')
           | Some (Some key) \<Rightarrow>
               (case single_cert_error t certs key of
                  None \<Rightarrow> Ok \<lparr>sc_certs = certs, sc_key = key, sc_client_auth = False\<rparr>
                | Some e \<Rightarrow> Err (TlsConfigError e))))"

section \<open>Connecting\<close>

text \<open>
  The steps of \<open>setup_client\<close> that can fail, in their order; each is the error text or \<open>None\<close>. The
  verifier it installs accepts every server certificate.
\<close>

record client_steps =
  cs_tcp_connect :: "string option"
  cs_server_name :: "string option"
  cs_tls_connect :: "string option"
  cs_url :: "string option"
  cs_websocket :: "string option"

definition setup_client ::
  "'dss tls \<Rightarrow> client_steps \<Rightarrow> bytes \<Rightarrow> bytes \<Rightarrow> (CoordinatorError, ClientConfig) result" where
  "setup_client t steps cert_der key_der =
     and_then (client_tls_config t cert_der key_der) (\<lambda>tls_config.
       (case find (\<lambda>step. step \<noteq> None)
           [cs_tcp_connect steps, cs_server_name steps, cs_tls_connect steps, cs_url steps, cs_websocket steps] of
          Some (Some e) \<Rightarrow> Err (ConnectError e)
        | _ \<Rightarrow> Ok tls_config))"

text \<open>\<open>accept\<close> is the TLS handshake: \<open>None\<close> when it fails, and the peer's certificates, if any, when it succeeds.\<close>

definition connection_identity ::
  "'dss tls \<Rightarrow> (ServerConfig \<Rightarrow> 'tcp \<Rightarrow> bytes list option option) \<Rightarrow> ServerConfig \<Rightarrow> 'tcp \<Rightarrow> bytes option" where
  "connection_identity t accept cfg tcp_stream =
     (case accept cfg tcp_stream of
        None \<Rightarrow> None
      | Some peer_certificates \<Rightarrow>
          (case Option.bind peer_certificates (\<lambda>certificates. vec_get certificates 0) of
             None \<Rightarrow> None
           | Some cert_der \<Rightarrow> x509_public_key t cert_der))"

definition browser_connection ::
  "(ServerConfig \<Rightarrow> 'tcp \<Rightarrow> bytes list option option) \<Rightarrow> ServerConfig \<Rightarrow> 'tcp \<Rightarrow> unit option" where
  "browser_connection accept cfg tcp_stream = map_option (\<lambda>_. ()) (accept cfg tcp_stream)"

section \<open>The listener\<close>

datatype 'tcp listener_event = ShutdownReceived | ConnectionEnded nat | AcceptFailed | Accepted nat 'tcp

record 'id listener_state =
  ln_listening :: bool
  ln_connections :: "(nat \<times> 'id) list"

definition listener_start :: "'id listener_state" where
  "listener_start = \<lparr>ln_listening = True, ln_connections = []\<rparr>"

text \<open>
  One turn of the loop. \<open>admit\<close> is \<open>connection_identity\<close> or \<open>browser_connection\<close>; a refused connection
  returns at once. After the shutdown signal the remaining connections are aborted.
\<close>

fun listener_step :: "('tcp \<Rightarrow> 'id option) \<Rightarrow> 'tcp listener_event \<Rightarrow> 'id listener_state \<Rightarrow> 'id listener_state" where
  "listener_step admit event s =
     (if \<not> ln_listening s then s
      else case event of
        ShutdownReceived \<Rightarrow> s\<lparr>ln_listening := False, ln_connections := []\<rparr>
      | ConnectionEnded k \<Rightarrow> s\<lparr>ln_connections := filter (\<lambda>c. fst c \<noteq> k) (ln_connections s)\<rparr>
      | AcceptFailed \<Rightarrow> s
      | Accepted k tcp_stream \<Rightarrow>
          (case admit tcp_stream of
             None \<Rightarrow> s
           | Some identity \<Rightarrow> s\<lparr>ln_connections := ln_connections s @ [(k, identity)]\<rparr>))"

definition listener_run :: "('tcp \<Rightarrow> 'id option) \<Rightarrow> 'tcp listener_event list \<Rightarrow> 'id listener_state" where
  "listener_run admit events = foldl (\<lambda>s event. listener_step admit event s) listener_start events"

definition start_coord ::
  "'dss tls \<Rightarrow> string option \<Rightarrow> (ServerConfig \<Rightarrow> 'tcp \<Rightarrow> bytes list option option) \<Rightarrow> bytes \<Rightarrow> bytes
    \<Rightarrow> (CoordinatorError, 'tcp listener_event list \<Rightarrow> bytes listener_state) result" where
  "start_coord t bind_error accept cert_der key_der =
     and_then (server_tls_config t cert_der key_der) (\<lambda>tls_config.
       case bind_error of
         Some e \<Rightarrow> Err (BindError e)
       | None \<Rightarrow> Ok (listener_run (connection_identity t accept tls_config)))"

definition start_coord_browser_tls ::
  "'dss tls \<Rightarrow> string option \<Rightarrow> (ServerConfig \<Rightarrow> 'tcp \<Rightarrow> bytes list option option) \<Rightarrow> bytes \<Rightarrow> bytes
    \<Rightarrow> (CoordinatorError, 'tcp listener_event list \<Rightarrow> unit listener_state) result" where
  "start_coord_browser_tls t bind_error accept cert_chain_pem key_pem =
     and_then (browser_tls_config t cert_chain_pem key_pem) (\<lambda>tls_config.
       case bind_error of
         Some e \<Rightarrow> Err (BindError e)
       | None \<Rightarrow> Ok (listener_run (browser_connection accept tls_config)))"

section \<open>Identities are proven\<close>

text \<open>
  The documented behaviour of a \<open>rustls\<close> server with a client certificate verifier: a handshake that
  succeeds has a client certificate, the verifier accepts it, and the client's signature over the
  handshake passes the verifier's check for that certificate.
\<close>

definition tls_authenticates ::
  "'dss tls \<Rightarrow> ('tcp \<Rightarrow> bytes \<times> tls_version \<times> 'dss) \<Rightarrow> (ServerConfig \<Rightarrow> 'tcp \<Rightarrow> bytes list option option) \<Rightarrow> bool" where
  "tls_authenticates t handshake accept \<longleftrightarrow>
     (\<forall>cfg tcp certs. sc_client_auth cfg \<longrightarrow> accept cfg tcp = Some certs \<longrightarrow>
        (\<exists>cert rest. certs = Some (cert # rest) \<and> verify_client_cert cert rest \<and>
           (case handshake tcp of (message, version, dss) \<Rightarrow> client_verifier_signature t version message cert dss)))"

lemma listener_run_snoc: "listener_run admit (events @ [event]) = listener_step admit event (listener_run admit events)"
  by (simp add: listener_run_def)

lemma served_was_admitted:
  "(k, identity) \<in> set (ln_connections (listener_run admit events)) \<Longrightarrow>
     ShutdownReceived \<notin> set events \<and> (\<exists>tcp. Accepted k tcp \<in> set events \<and> admit tcp = Some identity)"
proof -
  have "(ShutdownReceived \<in> set events \<longrightarrow> \<not> ln_listening (listener_run admit events) \<and> ln_connections (listener_run admit events) = []) \<and>
      (ShutdownReceived \<notin> set events \<longrightarrow> ln_listening (listener_run admit events)) \<and>
      (\<forall>(k, identity) \<in> set (ln_connections (listener_run admit events)).
         \<exists>tcp. Accepted k tcp \<in> set events \<and> admit tcp = Some identity)"
  proof (induction events rule: rev_induct)
    case Nil
    show ?case by (simp add: listener_run_def listener_start_def)
  next
    case (snoc event events)
    then show ?case
      by (cases event) (auto simp: listener_run_snoc split: option.splits)
  qed
  then show "(k, identity) \<in> set (ln_connections (listener_run admit events)) \<Longrightarrow>
     ShutdownReceived \<notin> set events \<and> (\<exists>tcp. Accepted k tcp \<in> set events \<and> admit tcp = Some identity)"
    by fastforce
qed

text \<open>What the peer of a connection has shown by the handshake, and what an admitted connection gives.\<close>

definition proven_identity ::
  "'dss tls \<Rightarrow> ('tcp \<Rightarrow> bytes \<times> tls_version \<times> 'dss) \<Rightarrow> 'tcp \<Rightarrow> bytes \<Rightarrow> bool" where
  "proven_identity t handshake tcp identity \<longleftrightarrow>
     (\<exists>cert message version dss. handshake tcp = (message, version, dss) \<and> x509_public_key t cert = Some identity \<and>
        client_verifier_signature t version message cert dss)"

lemma start_coord_Ok:
  assumes "start_coord t bind_error accept cert_der key_der = Ok run"
  shows "run = listener_run (connection_identity t accept
    \<lparr>sc_certs = [cert_der], sc_key = key_der, sc_client_auth = True\<rparr>)"
  using assms
  by (cases "single_cert_error t [cert_der] key_der"; cases bind_error) (simp_all add: start_coord_def server_tls_config_def)

lemma admitted_is_proven:
  assumes "tls_authenticates t handshake accept" and "sc_client_auth cfg"
    and id: "connection_identity t accept cfg tcp = Some identity"
  shows "proven_identity t handshake tcp identity"
proof -
  from id obtain certs where acc: "accept cfg tcp = Some certs"
    by (cases "accept cfg tcp") (simp_all add: connection_identity_def)
  from assms(1) have "sc_client_auth cfg \<longrightarrow> accept cfg tcp = Some certs \<longrightarrow>
        (\<exists>cert rest. certs = Some (cert # rest) \<and> verify_client_cert cert rest \<and>
           (case handshake tcp of (message, version, dss) \<Rightarrow> client_verifier_signature t version message cert dss))"
    unfolding tls_authenticates_def by (elim allE) assumption
  with acc assms(2) obtain cert rest where "certs = Some (cert # rest)"
      "case handshake tcp of (message, version, dss) \<Rightarrow> client_verifier_signature t version message cert dss"
    by auto
  moreover from this(1) id acc have "x509_public_key t cert = Some identity"
    by (simp add: connection_identity_def vec_get_def)
  ultimately show ?thesis by (cases "handshake tcp") (auto simp: proven_identity_def)
qed

text \<open>
  On the native listener every connection that is served acts under the public key of a
  certificate for which its peer has signed the handshake; no connection is served any more once the
  listener has been told to shut down.
\<close>

theorem served_identity_is_proven:
  assumes "start_coord t None accept cert_der key_der = Ok run"
    and "tls_authenticates t handshake accept"
    and "(k, identity) \<in> set (ln_connections (run events))"
  shows "ShutdownReceived \<notin> set events \<and>
    (\<exists>tcp. Accepted k tcp \<in> set events \<and> proven_identity t handshake tcp identity)"
  using served_was_admitted [OF assms(3) [unfolded start_coord_Ok [OF assms(1)]]]
    admitted_is_proven [OF assms(2), where cfg = "\<lparr>sc_certs = [cert_der], sc_key = key_der, sc_client_auth = True\<rparr>"]
  by auto

definition demo_tls :: "bytes tls" where
  "demo_tls = \<lparr>verify_tls12_signature = (\<lambda>m cert dss. dss = cert @ m), verify_tls13_signature = (\<lambda>m cert dss. dss = cert @ m),
     single_cert_error = (\<lambda>_ _. None), client_cert_error = (\<lambda>_ _. None), pemfile_certs = (\<lambda>bs. Some [bs]),
     pemfile_private_key = (\<lambda>bs. Some (Some bs)), x509_public_key = Some\<rparr>"

text \<open>A connection is the certificate shown and the signature; the handshake is the byte 5.\<close>

definition demo_accept :: "ServerConfig \<Rightarrow> bytes \<times> bytes \<Rightarrow> bytes list option option" where
  "demo_accept cfg tcp = (if snd tcp = fst tcp @ [5] then Some (Some [fst tcp]) else None)"

lemma demo_authenticates: "tls_authenticates demo_tls (\<lambda>tcp. ([5], Tls13, snd tcp)) demo_accept"
  by (auto simp: tls_authenticates_def demo_accept_def verify_client_cert_def client_verifier_signature_def demo_tls_def
      split: if_splits)

theorem served_identity_is_proven_witness:
  "\<exists>run. start_coord demo_tls None demo_accept [1] [2] = Ok run \<and>
     ln_connections (run [Accepted 0 ([8], [8]), Accepted 1 ([9], [9, 5])]) = [(1, [9])] \<and>
     (\<exists>tcp. Accepted 1 tcp \<in> set [Accepted 0 ([8], [8]), Accepted 1 ([9], [9, 5 :: u8])] \<and> snd tcp = [9, 5])"
proof -
  let ?evs = "[Accepted 0 ([8], [8]), Accepted 1 ([9], [9, 5])]"
  let ?run = "listener_run (connection_identity demo_tls demo_accept \<lparr>sc_certs = [[1]], sc_key = [2], sc_client_auth = True\<rparr>)"
  have run: "start_coord demo_tls None demo_accept [1] [2] = Ok ?run"
    by (simp add: start_coord_def server_tls_config_def demo_tls_def)
  have conns: "ln_connections (?run ?evs) = [(1, [9])]"
    by (simp add: demo_tls_def listener_run_def listener_start_def connection_identity_def demo_accept_def vec_get_def)
  from served_identity_is_proven [OF run demo_authenticates, of 1 "[9]" ?evs] conns run show ?thesis
    by (auto simp: proven_identity_def client_verifier_signature_def demo_tls_def)
qed

end
