(* ===== verification/Browser_Auth.thy ===== *)
theory Browser_Auth
  imports Session_Auth
begin

text \<open>
  The authentication of browser requests of \<^verbatim>\<open>crates/off-chain/src/browser_rpc.rs\<close>: the message a
  request signature covers, \<open>authenticate\<close>, the challenge of a WebAuthn ceremony and the
  verification of its assertion, and the loading of the credential index.

  The crates \<open>p256\<close>, \<open>sha2\<close>, \<open>base64\<close> and \<open>serde_json\<close> are third-party code. What is used of
  them is the record \<open>crypto\<close>, an argument of every definition below; \<open>client_data\<close> is
  \<open>serde_json::from_slice\<close> followed by \<open>get(field).and_then(as_str)\<close>. Files are reached through
  the record \<open>file_system\<close>. A Rust string is the list of its bytes.
\<close>

section \<open>Strings and integers as bytes\<close>

definition str_bytes :: "string \<Rightarrow> bytes" where
  "str_bytes s = map of_char s"

definition u64_to_le_bytes :: "u64 \<Rightarrow> bytes" where
  "u64_to_le_bytes x = map (\<lambda>i. ucast (drop_bit (8 * i) x)) [0..<8]"

definition u32_from_be_bytes :: "bytes \<Rightarrow> u32" where
  "u32_from_be_bytes bs = foldl (\<lambda>acc b. push_bit 8 acc + ucast b) 0 bs"

section \<open>Third-party code\<close>

record ('vk, 'sig) crypto =
  from_sec1_bytes :: "bytes \<Rightarrow> 'vk option"
  sig_from_slice :: "bytes \<Rightarrow> 'sig option"
  sig_from_der :: "bytes \<Rightarrow> 'sig option"
  verify :: "'vk \<Rightarrow> bytes \<Rightarrow> 'sig \<Rightarrow> bool"
  sha256 :: "bytes \<Rightarrow> bytes"
  b64_encode :: "bytes \<Rightarrow> string"
  b64_decode :: "string \<Rightarrow> bytes option"
  client_data :: "bytes \<Rightarrow> (string \<Rightarrow> string option) option"

section \<open>Requests\<close>

record SignedBrowserRequest =
  sbr_public_key :: bytes
  sbr_created :: u64
  sbr_nonce :: bytes
  sbr_signature :: bytes
  sbr_body :: bytes
  sbr_session_token :: string

record BrowserCall =
  bc_execution_id :: ExecutionId
  bc_request :: SignedBrowserRequest

definition AUTH_DOMAIN :: bytes where
  "AUTH_DOMAIN = str_bytes ''stoffel-browser-rpc-auth''"

definition authentication_message ::
  "('vk, 'sig) crypto \<Rightarrow> string \<Rightarrow> ExecutionId \<Rightarrow> u64 \<Rightarrow> bytes \<Rightarrow> bytes \<Rightarrow> string \<Rightarrow> bytes" where
  "authentication_message c rpc_method execution_id created nonce body session_token =
     AUTH_DOMAIN @ [0] @ str_bytes rpc_method @ [0] @ as_bytes execution_id @ u64_to_le_bytes created @
     nonce @ sha256 c body @ str_bytes session_token"

text \<open>
  \<open>now\<close> is the clock reading in seconds. Every failure is the same error code; the nonce book is
  only reached, and changed, once the session is known.
\<close>

definition authenticate ::
  "('vk, 'sig) crypto \<Rightarrow> u64 \<Rightarrow> string \<Rightarrow> BrowserCall \<Rightarrow> NonceBook \<Rightarrow> WebauthnBindings
    \<Rightarrow> ClientIdentity rpc_result \<times> NonceBook" where
  "authenticate c now rpc_method call nonces bindings =
     (let request = bc_request call in
      if length (sbr_nonce request) \<noteq> 16 then (Err auth_error, nonces)
      else case from_sec1_bytes c (sbr_public_key request) of
        None \<Rightarrow> (Err auth_error, nonces)
      | Some key \<Rightarrow>
          (case sig_from_slice c (sbr_signature request) of
             None \<Rightarrow> (Err auth_error, nonces)
           | Some signature \<Rightarrow>
               let message = authentication_message c rpc_method (bc_execution_id call) (sbr_created request)
                     (sbr_nonce request) (sbr_body request) (sbr_session_token request)
               in if \<not> verify c key message signature then (Err auth_error, nonces)
                  else (case bindings_get bindings (sbr_session_token request) of
                     None \<Rightarrow> (Err auth_error, nonces)
                   | Some binding \<Rightarrow>
                       if wb_ecdsa_public_key binding \<noteq> sbr_public_key request then (Err auth_error, nonces)
                       else
                         let identity = wb_client_identity binding in
                         (case nonce_accept nonces (bc_execution_id call) identity (sbr_created request)
                             (sbr_nonce request) now of
                            (Ok _, nonces') \<Rightarrow> (Ok identity, nonces')
                          | (Err e, nonces') \<Rightarrow> (Err e, nonces')
                          | (Panic, nonces') \<Rightarrow> (Panic, nonces')))))"

section \<open>WebAuthn assertions\<close>

record WebauthnAssertion =
  authenticator_data :: bytes
  client_data_json :: bytes
  assertion_signature :: bytes

definition webauthn_bind_challenge :: "('vk, 'sig) crypto \<Rightarrow> bytes \<Rightarrow> bytes \<Rightarrow> bytes" where
  "webauthn_bind_challenge c ecdsa_public_key ecdh_public_key =
     sha256 c (str_bytes ''stoffel-browser-webauthn-bind-v1'' @ ecdsa_public_key @ ecdh_public_key)"

definition USER_PRESENT :: u8 where "USER_PRESENT = 1"
definition USER_VERIFIED :: u8 where "USER_VERIFIED = 4"

text \<open>\<open>Err(())\<close> is \<open>None\<close>. The slices are within bounds behind the length check.\<close>

definition verify_webauthn_assertion ::
  "('vk, 'sig) crypto \<Rightarrow> WebauthnAssertion \<Rightarrow> bytes \<Rightarrow> bytes \<Rightarrow> string \<Rightarrow> bytes \<Rightarrow> u32 option" where
  "verify_webauthn_assertion c assertion candidate_public_key expected_rp_id_hash expected_origin
     expected_challenge =
     (case client_data c (client_data_json assertion) of
        None \<Rightarrow> None
      | Some field \<Rightarrow>
          if field ''type'' \<noteq> Some ''webauthn.get'' then None
          else if field ''origin'' \<noteq> Some expected_origin then None
          else (case field ''challenge'' of
             None \<Rightarrow> None
           | Some challenge_b64 \<Rightarrow>
               (case b64_decode c challenge_b64 of
                  None \<Rightarrow> None
                | Some challenge \<Rightarrow>
                    let data = authenticator_data assertion in
                    if challenge \<noteq> expected_challenge then None
                    else if length data < 37 then None
                    else if take 32 data \<noteq> expected_rp_id_hash then None
                    else if and (data ! 32) USER_PRESENT = 0 \<or> and (data ! 32) USER_VERIFIED = 0 then None
                    else
                      let sign_count = u32_from_be_bytes (take 4 (drop 33 data)) in
                      (case (from_sec1_bytes c candidate_public_key,
                             sig_from_der c (assertion_signature assertion)) of
                         (Some key, Some signature) \<Rightarrow>
                           if verify c key (data @ sha256 c (client_data_json assertion)) signature
                           then Some sign_count else None
                       | _ \<Rightarrow> None))))"

section \<open>The credential index\<close>

datatype io_error = NotFound | OtherIoError

record 'p file_system =
  read_dir :: "'p \<Rightarrow> (io_error, (io_error, 'p) result list) result"
  read_file :: "'p \<Rightarrow> (io_error, bytes) result"
  path_extension :: "'p \<Rightarrow> string option"
  path_stem :: "'p \<Rightarrow> string option"
  path_join :: "'p \<Rightarrow> string \<Rightarrow> 'p"

fun load_entries ::
  "'p file_system \<Rightarrow> 'p \<Rightarrow> (io_error, 'p) result list \<Rightarrow> (bytes \<rightharpoonup> ClientIdentity)
    \<Rightarrow> (io_error, bytes \<rightharpoonup> ClientIdentity) result" where
  "load_entries fs client_cert_dir [] index = Ok index"
| "load_entries fs client_cert_dir (entry # entries) index =
     and_then entry (\<lambda>path.
       if path_extension fs path \<noteq> Some ''id'' then load_entries fs client_cert_dir entries index
       else case path_stem fs path of
         None \<Rightarrow> load_entries fs client_cert_dir entries index
       | Some stem \<Rightarrow>
           and_then (read_file fs path) (\<lambda>credential_id.
             case read_file fs (path_join fs client_cert_dir (stem @ ''.crt'')) of
               Ok public_key \<Rightarrow> load_entries fs client_cert_dir entries (index(credential_id \<mapsto> public_key))
             | Err NotFound \<Rightarrow> load_entries fs client_cert_dir entries index
             | Err OtherIoError \<Rightarrow> Err OtherIoError
             | Panic \<Rightarrow> Panic))"

definition load_credential_id_index ::
  "'p file_system \<Rightarrow> 'p \<Rightarrow> 'p \<Rightarrow> (io_error, bytes \<rightharpoonup> ClientIdentity) result" where
  "load_credential_id_index fs client_cert_dir client_credential_id_dir =
     (case read_dir fs client_credential_id_dir of
        Ok entries \<Rightarrow> load_entries fs client_cert_dir entries Map.empty
      | Err NotFound \<Rightarrow> Ok Map.empty
      | Err OtherIoError \<Rightarrow> Err OtherIoError
      | Panic \<Rightarrow> Panic)"

section \<open>Byte lemmas\<close>

lemma inj_of_char8: "(of_char a :: u8) = of_char b \<longleftrightarrow> a = b"
proof
  assume eq: "(of_char a :: u8) = of_char b"
  have "unat (of_char x :: u8) = of_char x" for x
  proof -
    have "(of_char x :: u8) = of_nat (of_char x)" by (simp add: of_char_def)
    moreover have "(of_char x :: nat) < 256" by (rule nat_of_char_less_256)
    ultimately show ?thesis by (simp add: unsigned_of_nat take_bit_nat_eq_self)
  qed
  with eq have "(of_char a :: nat) = of_char b" by metis
  then show "a = b" by simp
qed simp

lemma str_bytes_inject [simp]: "str_bytes s = str_bytes t \<longleftrightarrow> s = t"
  by (simp add: str_bytes_def inj_map_eq_map inj_def inj_of_char8)

lemma length_u64_to_le_bytes [simp]: "length (u64_to_le_bytes x) = 8"
  by (simp add: u64_to_le_bytes_def)

lemma u64_to_le_bytes_inject [simp]: "u64_to_le_bytes x = u64_to_le_bytes y \<longleftrightarrow> x = y"
proof
  assume eq: "u64_to_le_bytes x = u64_to_le_bytes y"
  show "x = y"
  proof (rule bit_word_eqI)
    fix n assume n: "n < LENGTH(64)"
    then have i: "n div 8 < 8" by simp
    then have "(ucast (drop_bit (8 * (n div 8)) x) :: u8) = ucast (drop_bit (8 * (n div 8)) y)"
      using arg_cong [OF eq, of "\<lambda>l. l ! (n div 8)"] by (simp add: u64_to_le_bytes_def)
    then have "bit (ucast (drop_bit (8 * (n div 8)) x) :: u8) (n mod 8) =
        bit (ucast (drop_bit (8 * (n div 8)) y) :: u8) (n mod 8)" by simp
    with n show "bit x n = bit y n" by (simp add: bit_simps)
  qed
qed simp

section \<open>Authentication lemmas\<close>

lemma nonce_accept_not_Panic: "fst (nonce_accept seen e identity created nonce now) \<noteq> Panic"
  by (simp add: nonce_accept_def Let_def)

lemma authenticate_Ok_iff:
  "authenticate c now rpc_method call nonces bindings = (Ok identity, nonces') \<longleftrightarrow>
     length (sbr_nonce (bc_request call)) = 16 \<and>
     (\<exists>key signature. from_sec1_bytes c (sbr_public_key (bc_request call)) = Some key \<and>
        sig_from_slice c (sbr_signature (bc_request call)) = Some signature \<and>
        verify c key (authentication_message c rpc_method (bc_execution_id call) (sbr_created (bc_request call))
          (sbr_nonce (bc_request call)) (sbr_body (bc_request call)) (sbr_session_token (bc_request call))) signature) \<and>
     (\<exists>binding. bindings_get bindings (sbr_session_token (bc_request call)) = Some binding \<and>
        wb_ecdsa_public_key binding = sbr_public_key (bc_request call) \<and> wb_client_identity binding = identity) \<and>
     nonce_accept nonces (bc_execution_id call) identity (sbr_created (bc_request call))
       (sbr_nonce (bc_request call)) now = (Ok (), nonces')"
  by (auto simp: authenticate_def Let_def split: option.splits prod.splits result.splits)

lemma authenticate_nonces:
  "snd (authenticate c now rpc_method call nonces bindings) = nonces \<or>
   (\<exists>identity. snd (authenticate c now rpc_method call nonces bindings) =
      snd (nonce_accept nonces (bc_execution_id call) identity (sbr_created (bc_request call))
        (sbr_nonce (bc_request call)) now))"
  by (auto simp: authenticate_def Let_def split: option.splits prod.splits result.splits)
     (metis snd_conv)+

lemma authenticate_Err:
  assumes "authenticate c now rpc_method call nonces bindings = (r, nonces')" and "\<not> is_Ok r"
  shows "r = Err auth_error"
  using assms
  by (auto simp: authenticate_def nonce_accept_def Let_def
      split: option.splits prod.splits result.splits if_splits)

section \<open>Hosts of browser sessions\<close>

text \<open>
  A run of steps labelled with the clock readings they use, which do not decrease. The coordinator
  and every node host browser sessions; what they share is that a step touches the nonce book only
  through \<open>accept\<close>, with the reading of that step.
\<close>

inductive timed_run :: "(u64 \<Rightarrow> 's \<Rightarrow> 's \<Rightarrow> bool) \<Rightarrow> u64 \<Rightarrow> 's \<Rightarrow> u64 \<Rightarrow> 's \<Rightarrow> bool"
  for step :: "u64 \<Rightarrow> 's \<Rightarrow> 's \<Rightarrow> bool" where
  run_refl: "timed_run step now st now st"
| run_step: "timed_run step start st now st' \<Longrightarrow> now \<le> later \<Longrightarrow> step later st' st'' \<Longrightarrow>
    timed_run step start st later st''"

lemma run_one: "step now st st' \<Longrightarrow> timed_run step now st now st'"
  by (rule run_step [OF run_refl]) auto

lemma run_trans:
  "timed_run step b st' later st'' \<Longrightarrow> timed_run step a st b st' \<Longrightarrow> timed_run step a st later st''"
  by (induction rule: timed_run.induct) (auto intro: run_step)

locale session_host =
  fixes nonces_of :: "'s \<Rightarrow> NonceBook"
    and step :: "u64 \<Rightarrow> 's \<Rightarrow> 's \<Rightarrow> bool"
  assumes step_nonces: "step now st st' \<Longrightarrow> nonces_of st' = nonces_of st \<or>
    (\<exists>e identity created nonce. nonces_of st' = snd (nonce_accept (nonces_of st) e identity created nonce now))"
begin

lemma run_le: "timed_run step start st now st' \<Longrightarrow> start \<le> now"
  by (induction rule: timed_run.induct) auto

lemma guarded_run:
  assumes "timed_run step start st now st'" and "nonce_guarded start e identity created nonce (nonces_of st)"
  shows "nonce_guarded now e identity created nonce (nonces_of st')"
  using assms
proof (induction rule: timed_run.induct)
  case (run_step start st now st' later st'')
  from run_step have g: "nonce_guarded now e identity created nonce (nonces_of st')" by simp
  from step_nonces [OF run_step(3)] show ?case
  proof
    assume "nonces_of st'' = nonces_of st'"
    with g run_step(2) show ?thesis by (simp add: nonce_guarded_later)
  next
    assume "\<exists>e' i' c' n'. nonces_of st'' = snd (nonce_accept (nonces_of st') e' i' c' n' later)"
    then obtain e' i' c' n' where "nonces_of st'' = snd (nonce_call (nonces_of st') (e', i', c', n', later))"
      by auto
    with nonce_guarded_step [OF g, of "(e', i', c', n', later)"] run_step(2) show ?thesis by simp
  qed
qed

lemma replay_refused:
  assumes "authenticate c now rpc_method call (nonces_of st) bindings = (Ok identity, nonces)"
    and "nonces_of st1 = nonces" and "timed_run step now st1 later st2"
    and "bc_execution_id call' = bc_execution_id call"
    and "sbr_created (bc_request call') = sbr_created (bc_request call)"
    and "sbr_nonce (bc_request call') = sbr_nonce (bc_request call)"
  shows "fst (authenticate c' later rpc_method' call' (nonces_of st2) bindings') \<noteq> Ok identity"
proof
  let ?q = "bc_request call"
  have "nonce_guarded now (bc_execution_id call) identity (sbr_created ?q) (sbr_nonce ?q) (nonces_of st1)"
    using assms(1,2) by (auto simp: authenticate_Ok_iff intro: nonce_guarded_accepted)
  then have "nonce_guarded later (bc_execution_id call) identity (sbr_created ?q) (sbr_nonce ?q) (nonces_of st2)"
    by (rule guarded_run [OF assms(3)])
  then have "fst (nonce_accept (nonces_of st2) (bc_execution_id call) identity (sbr_created ?q) (sbr_nonce ?q) later) =
      Err auth_error" by (rule nonce_guarded_rejects)
  moreover assume "fst (authenticate c' later rpc_method' call' (nonces_of st2) bindings') = Ok identity"
  then obtain ns where "authenticate c' later rpc_method' call' (nonces_of st2) bindings' = (Ok identity, ns)"
    by (metis prod.collapse)
  ultimately show False using assms(4-6) by (simp add: authenticate_Ok_iff)
qed

end

section \<open>What a request signature covers\<close>

text \<open>
  The challenge of a bind does not fix the boundary between the two keys: an assertion over one
  pair covers every other way to cut the same bytes in two.
\<close>

lemma webauthn_bind_challenge_ambiguous:
  "ecdsa @ ecdh = ecdsa' @ ecdh' \<Longrightarrow> webauthn_bind_challenge c ecdsa ecdh = webauthn_bind_challenge c ecdsa' ecdh'"
  by (simp add: webauthn_bind_challenge_def)

lemma split_at_zero:
  assumes "xs @ 0 # ys = xs' @ 0 # ys'" and "0 \<notin> set xs" and "0 \<notin> set xs'"
  shows "xs = xs' \<and> ys = ys'"
  using assms
proof (induction xs arbitrary: xs')
  case Nil
  then show ?case by (cases xs') auto
next
  case (Cons x xs)
  then show ?case by (cases xs') auto
qed

text \<open>
  C26. The message a request signature covers determines the request: with 32-byte hashes, two
  requests whose messages agree have the same method, execution, timestamp, nonce, session token
  and body hash, so a signature made for one request is not valid for any other one.
\<close>

theorem authentication_message_injective:
  assumes "\<And>x. length (sha256 c x) = 32"
    and "0 \<notin> set (str_bytes m)" and "0 \<notin> set (str_bytes m')"
    and "eid_wf e" and "eid_wf e'" and "length nonce = 16" and "length nonce' = 16"
    and "authentication_message c m e created nonce body token =
         authentication_message c m' e' created' nonce' body' token'"
  shows "m = m' \<and> e = e' \<and> created = created' \<and> nonce = nonce' \<and> sha256 c body = sha256 c body' \<and>
    token = token'"
proof -
  from assms(8) have "str_bytes m @ 0 # as_bytes e @ u64_to_le_bytes created @ nonce @ sha256 c body @ str_bytes token =
      str_bytes m' @ 0 # as_bytes e' @ u64_to_le_bytes created' @ nonce' @ sha256 c body' @ str_bytes token'"
    by (simp add: authentication_message_def)
  from split_at_zero [OF this assms(2,3)] have "m = m'"
    and rest: "as_bytes e @ u64_to_le_bytes created @ nonce @ sha256 c body @ str_bytes token =
      as_bytes e' @ u64_to_le_bytes created' @ nonce' @ sha256 c body' @ str_bytes token'" by simp_all
  moreover from rest assms(4,5) have "as_bytes e = as_bytes e'"
    and "u64_to_le_bytes created @ nonce @ sha256 c body @ str_bytes token =
      u64_to_le_bytes created' @ nonce' @ sha256 c body' @ str_bytes token'"
    by (simp_all add: eid_wf_def)
  ultimately show ?thesis
    using assms(1,6,7) by (simp add: ExecutionId.expand)
qed

text \<open>
  An instance of the third-party code for evaluation: a key signs with itself, the hash keeps the
  first 32 bytes, and the client data of an assertion hold its challenge.
\<close>

definition demo_crypto :: "(bytes, bytes) crypto" where
  "demo_crypto =
     \<lparr>from_sec1_bytes = Some, sig_from_slice = Some, sig_from_der = Some,
      verify = (\<lambda>key message signature. signature = key),
      sha256 = (\<lambda>x. take 32 (x @ replicate 32 0)),
      b64_encode = map (\<lambda>b. char_of (unat b)), b64_decode = (\<lambda>s. Some (str_bytes s)),
      client_data = (\<lambda>json. Some (\<lambda>field.
        if field = ''type'' then Some ''webauthn.get''
        else if field = ''origin'' then Some ''https://vote''
        else if field = ''challenge'' then Some (map (\<lambda>b. char_of (unat b)) json) else None))\<rparr>"

lemma length_demo_hash [simp]: "length (sha256 demo_crypto x) = 32"
  by (simp add: demo_crypto_def)

theorem authentication_message_injective_witness:
  "authentication_message demo_crypto ''browser_round'' (ExecutionId (replicate 32 1)) 7 (replicate 16 2) [1] ''tok'' \<noteq>
   authentication_message demo_crypto ''browser_round'' (ExecutionId (replicate 32 1)) 7 (replicate 16 2) [1] ''tak''"
  using authentication_message_injective [where c = demo_crypto and m = "''browser_round''" and m' = "''browser_round''"
      and e = "ExecutionId (replicate 32 1)" and e' = "ExecutionId (replicate 32 1)" and created = 7 and created' = 7
      and nonce = "replicate 16 2" and nonce' = "replicate 16 2" and body = "[1]" and body' = "[1]"
      and token = "''tok''" and token' = "''tak''"]
  by (auto simp: eid_wf_def str_bytes_def)

end
