(* ===== verification/Node_Rpc.thy ===== *)
theory Node_Rpc
  imports Offchain_Types
begin

text \<open>
  The module \<open>node_rpc\<close> of \<^verbatim>\<open>crates/off-chain/src/lib.rs\<close>: a node's RPC server, which hands the mask
  shares of reserved slots to the clients that reserved them, and the client that collects them
  from all nodes and recovers the masks.

  Serialisation of shares (\<open>serialize_compressed\<close>, \<open>deserialize_compressed\<close>) and the recovery of
  a secret from shares (\<open>recover_secret\<close>, \<open>min_shares\<close>) are arguments.
\<close>

section \<open>The node's state\<close>

record AssignedMaskRequest =
  req_start :: u64
  req_count :: u64
  req_sink :: sink

record NodeRPCExecutionState =
  nd_index_to_client :: "u64 \<rightharpoonup> ClientIdentity"
  nd_assigned_reservations :: "u64 \<rightharpoonup> AssignedMaskReservation"
  nd_assigned_sinks :: "ClientIdentity \<rightharpoonup> AssignedMaskRequest"
  nd_mask_shares :: "u64 \<rightharpoonup> bytes"

type_synonym NodeRPCServerInternal = "(ExecutionId, NodeRPCExecutionState) hashmap"

datatype OffChainNodeRPCServerError =
    NodeSharesSerializationError
  | NodeExecutionNotFound
  | NodeTransportError

fun node_error_code :: "OffChainNodeRPCServerError \<Rightarrow> int" where
  "node_error_code NodeSharesSerializationError = 1"
| "node_error_code NodeExecutionNotFound = 2"
| "node_error_code NodeTransportError = 0"

definition node_execution_new :: NodeRPCExecutionState where
  "node_execution_new =
     \<lparr>nd_index_to_client = Map.empty, nd_assigned_reservations = Map.empty,
      nd_assigned_sinks = Map.empty, nd_mask_shares = Map.empty\<rparr>"

definition node_register_execution ::
  "ExecutionId \<Rightarrow> NodeRPCServerInternal \<Rightarrow> (CoordinatorError, unit) result \<times> NodeRPCServerInternal" where
  "node_register_execution e s =
     (if is_zero e then (Err (JSONError ZeroExecutionIdNotValid), s)
      else if map_of s e \<noteq> None then (Err (JSONError (ExecutionIsAlreadyRegistered e)), s)
      else if DEFAULT_MAX_CONCURRENT_EXECUTIONS \<le> length s
      then (Err (JSONError (ExecutionCapacityReached DEFAULT_MAX_CONCURRENT_EXECUTIONS)), s)
      else (Ok (), AList.update e node_execution_new s))"

definition node_retire_execution :: "ExecutionId \<Rightarrow> NodeRPCServerInternal \<Rightarrow> bool \<times> NodeRPCServerInternal" where
  "node_retire_execution e s = (map_of s e \<noteq> None, AList.delete e s)"

section \<open>Assembling the shares of a range\<close>

definition assigned_mask_share ::
  "NodeRPCExecutionState \<Rightarrow> u64 \<Rightarrow> bytes \<Rightarrow> (NodeRPCError, AssignedMaskShare) result" where
  "assigned_mask_share d i share_bytes =
     (case nd_assigned_reservations d i of
        None \<Rightarrow> Err IndexNotAdded
      | Some _ \<Rightarrow> Ok \<lparr>ams_reserved_index = i, ams_share_bytes = share_bytes\<rparr>)"

text \<open>\<open>start..end\<close>, in order.\<close>

definition u64_range :: "u64 \<Rightarrow> u64 \<Rightarrow> u64 list" where
  "u64_range a b = map of_nat [unat a..<unat b]"

fun collect_shares ::
  "NodeRPCExecutionState \<Rightarrow> ClientIdentity \<Rightarrow> u64 list
    \<Rightarrow> (NodeRPCError, AssignedMaskShare list option) result" where
  "collect_shares d client [] = Ok (Some [])"
| "collect_shares d client (i # is) =
     (case nd_index_to_client d i of
        None \<Rightarrow> Ok None
      | Some owner \<Rightarrow>
          if owner \<noteq> client then Err (AuthenticationFailed client)
          else (case nd_mask_shares d i of
             None \<Rightarrow> Ok None
           | Some share \<Rightarrow>
               and_then (assigned_mask_share d i share) (\<lambda>assigned.
                 and_then (collect_shares d client is) (\<lambda>rest.
                   Ok (map_option ((#) assigned) rest)))))"

definition assigned_mask_shares_for_client ::
  "NodeRPCExecutionState \<Rightarrow> ClientIdentity \<Rightarrow> u64 \<Rightarrow> u64
    \<Rightarrow> (NodeRPCError, AssignedMaskShare list option) result" where
  "assigned_mask_shares_for_client d client start cnt =
     (case checked_add start cnt of
        None \<Rightarrow> Err IndexNotAdded
      | Some end_ \<Rightarrow> collect_shares d client (u64_range start end_))"

section \<open>Pending requests\<close>

text \<open>
  The second phase of both \<open>add_..._for_execution\<close> methods: complete the pending request of each
  touched client if it can be. An error leaves the method at once; what was collected for other
  clients until then is in the accumulator and is dropped with it.
\<close>

fun complete_requests ::
  "ClientIdentity list \<Rightarrow> NodeRPCExecutionState \<Rightarrow> delivery list
    \<Rightarrow> (NodeRPCError, delivery list) result \<times> NodeRPCExecutionState" where
  "complete_requests [] d pending_sends = (Ok pending_sends, d)"
| "complete_requests (client # clients) d pending_sends =
     (case nd_assigned_sinks d client of
        None \<Rightarrow> complete_requests clients d pending_sends
      | Some request \<Rightarrow>
          let d1 = d\<lparr>nd_assigned_sinks := (nd_assigned_sinks d)(client := None)\<rparr> in
          (case assigned_mask_shares_for_client d1 client (req_start request) (req_count request) of
             Ok (Some shares) \<Rightarrow>
               complete_requests clients d1 (pending_sends @ [(req_sink request, MaskSharesMsg shares)])
           | Ok None \<Rightarrow>
               complete_requests clients
                 (d1\<lparr>nd_assigned_sinks := (nd_assigned_sinks d1)(client \<mapsto> request)\<rparr>) pending_sends
           | Err e \<Rightarrow> (Err e, d1)
           | Panic \<Rightarrow> (Panic, d1)))"

text \<open>\<open>touched_clients\<close>: in the order they are met, each once.\<close>

fun push_new :: "'a list \<Rightarrow> 'a \<Rightarrow> 'a list" where
  "push_new xs x = (if x \<in> set xs then xs else xs @ [x])"

fun register_reservations ::
  "AssignedMaskReservation list \<Rightarrow> NodeRPCExecutionState \<Rightarrow> ClientIdentity list
    \<Rightarrow> NodeRPCExecutionState \<times> ClientIdentity list" where
  "register_reservations [] d touched = (d, touched)"
| "register_reservations (r # rs) d touched =
     register_reservations rs
       (d\<lparr>nd_index_to_client := (nd_index_to_client d)(amr_reserved_index r \<mapsto> amr_client r),
          nd_assigned_reservations := (nd_assigned_reservations d)(amr_reserved_index r \<mapsto> r)\<rparr>)
       (push_new touched (amr_client r))"

definition node_add_reservations ::
  "AssignedMaskReservation list \<Rightarrow> NodeRPCExecutionState
    \<Rightarrow> (NodeRPCError, delivery list) result \<times> NodeRPCExecutionState" where
  "node_add_reservations reservations d =
     (if \<exists>r \<in> set reservations. nd_index_to_client d (amr_reserved_index r) \<noteq> None
      then (Err IndexAlreadyAdded, d)
      else
        let (d1, touched) = register_reservations reservations d [] in
        complete_requests touched d1 [])"

fun record_shares ::
  "('s \<Rightarrow> bytes option) \<Rightarrow> (u64 \<times> 's) list \<Rightarrow> NodeRPCExecutionState \<Rightarrow> ClientIdentity list
    \<Rightarrow> (NodeRPCError, ClientIdentity list) result \<times> NodeRPCExecutionState" where
  "record_shares serialize [] d touched = (Ok touched, d)"
| "record_shares serialize ((i, share) # rest) d touched =
     (case serialize share of
        None \<Rightarrow> (Err NodeSerializationError, d)
      | Some share_bytes \<Rightarrow>
          let d1 = d\<lparr>nd_mask_shares := (nd_mask_shares d)(i \<mapsto> share_bytes)\<rparr> in
          record_shares serialize rest d1
            (case nd_index_to_client d1 i of None \<Rightarrow> touched | Some client \<Rightarrow> push_new touched client))"

definition node_add_shares ::
  "('s \<Rightarrow> bytes option) \<Rightarrow> (u64 \<times> 's) list \<Rightarrow> NodeRPCExecutionState
    \<Rightarrow> (NodeRPCError, delivery list) result \<times> NodeRPCExecutionState" where
  "node_add_shares serialize shares d =
     (if \<exists>p \<in> set shares. nd_mask_shares d (fst p) \<noteq> None then (Err IndexAlreadyAdded, d)
      else case record_shares serialize shares d [] of
        (Ok touched, d1) \<Rightarrow> complete_requests touched d1 []
      | (Err e, d1) \<Rightarrow> (Err e, d1)
      | (Panic, d1) \<Rightarrow> (Panic, d1))"

section \<open>The node's methods\<close>

definition node_with_execution ::
  "ExecutionId \<Rightarrow> NodeRPCServerInternal
    \<Rightarrow> (NodeRPCExecutionState \<Rightarrow> (NodeRPCError, delivery list) result \<times> NodeRPCExecutionState)
    \<Rightarrow> (NodeRPCError, unit) result \<times> NodeRPCServerInternal \<times> delivery list" where
  "node_with_execution e s f =
     (case map_of s e of
        None \<Rightarrow> (Err ExecutionNotFound, s, [])
      | Some d \<Rightarrow>
          (case f d of
             (Ok pending_sends, d') \<Rightarrow> (Ok (), AList.update e d' s, pending_sends)
           | (Err err, d') \<Rightarrow> (Err err, AList.update e d' s, [])
           | (Panic, d') \<Rightarrow> (Panic, AList.update e d' s, [])))"

definition add_assigned_reserved_indices_for_execution ::
  "ExecutionId \<Rightarrow> AssignedMaskReservation list \<Rightarrow> NodeRPCServerInternal
    \<Rightarrow> (NodeRPCError, unit) result \<times> NodeRPCServerInternal \<times> delivery list" where
  "add_assigned_reserved_indices_for_execution e reservations s =
     node_with_execution e s (node_add_reservations reservations)"

definition add_assigned_reserved_index_for_execution ::
  "ExecutionId \<Rightarrow> AssignedMaskReservation \<Rightarrow> NodeRPCServerInternal
    \<Rightarrow> (NodeRPCError, unit) result \<times> NodeRPCServerInternal \<times> delivery list" where
  "add_assigned_reserved_index_for_execution e reservation s =
     add_assigned_reserved_indices_for_execution e [reservation] s"

definition add_reserved_indices_for_execution ::
  "ExecutionId \<Rightarrow> ClientIdentity \<Rightarrow> u64 list \<Rightarrow> NodeRPCServerInternal
    \<Rightarrow> (NodeRPCError, unit) result \<times> NodeRPCServerInternal \<times> delivery list" where
  "add_reserved_indices_for_execution e client indices s =
     add_assigned_reserved_indices_for_execution e
       (map (\<lambda>i. \<lparr>amr_client = client, amr_reserved_index = i, amr_input_ordinal = i\<rparr>) indices) s"

definition add_reserved_index_for_execution ::
  "ExecutionId \<Rightarrow> ClientIdentity \<Rightarrow> u64 \<Rightarrow> NodeRPCServerInternal
    \<Rightarrow> (NodeRPCError, unit) result \<times> NodeRPCServerInternal \<times> delivery list" where
  "add_reserved_index_for_execution e client reserved_index s =
     add_reserved_indices_for_execution e client [reserved_index] s"

definition add_mask_shares_for_execution ::
  "('s \<Rightarrow> bytes option) \<Rightarrow> ExecutionId \<Rightarrow> (u64 \<times> 's) list \<Rightarrow> NodeRPCServerInternal
    \<Rightarrow> (NodeRPCError, unit) result \<times> NodeRPCServerInternal \<times> delivery list" where
  "add_mask_shares_for_execution serialize e shares s =
     node_with_execution e s (node_add_shares serialize shares)"

definition add_mask_share_for_execution ::
  "('s \<Rightarrow> bytes option) \<Rightarrow> ExecutionId \<Rightarrow> u64 \<Rightarrow> 's \<Rightarrow> NodeRPCServerInternal
    \<Rightarrow> (NodeRPCError, unit) result \<times> NodeRPCServerInternal \<times> delivery list" where
  "add_mask_share_for_execution serialize e i share s =
     add_mask_shares_for_execution serialize e [(i, share)] s"

text \<open>A client's subscription. A later one of the same client supersedes one still pending.\<close>

definition receive_assigned_mask_shares ::
  "(sink \<Rightarrow> message \<Rightarrow> bool) \<Rightarrow> sink option \<Rightarrow> ClientIdentity \<Rightarrow> ExecutionId \<Rightarrow> u64 \<Rightarrow> u64
    \<Rightarrow> NodeRPCServerInternal
    \<Rightarrow> (OffChainNodeRPCServerError, unit) result \<times> NodeRPCServerInternal \<times> delivery list" where
  "receive_assigned_mask_shares ok accepted caller e start cnt s =
     (case map_of s e of
        None \<Rightarrow> (Err NodeExecutionNotFound, s, [])
      | Some d \<Rightarrow>
          let d1 = d\<lparr>nd_assigned_sinks := (nd_assigned_sinks d)(caller := None)\<rparr>;
              s1 = AList.update e d1 s
          in (case assigned_mask_shares_for_client d1 caller start cnt of
             Err _ \<Rightarrow> (Err NodeSharesSerializationError, s1, [])
           | Panic \<Rightarrow> (Panic, s1, [])
           | Ok (Some shares) \<Rightarrow>
               (case accepted of
                  None \<Rightarrow> (Err NodeTransportError, s1, [])
                | Some k \<Rightarrow>
                    (if ok k (MaskSharesMsg shares) then Ok () else Err NodeTransportError,
                     s1, [(k, MaskSharesMsg shares)]))
           | Ok None \<Rightarrow>
               (case accepted of
                  None \<Rightarrow> (Err NodeTransportError, s1, [])
                | Some k \<Rightarrow>
                    (Ok (),
                     AList.update e (d1\<lparr>nd_assigned_sinks := (nd_assigned_sinks d1)(caller \<mapsto>
                       \<lparr>req_start = start, req_count = cnt, req_sink = k\<rparr>)\<rparr>) s,
                     []))))"

section \<open>Recovering masks on the client\<close>

text \<open>
  What a node's subscription yields: shares, an item that does not decode, or the end of the
  stream. The replies are in the order in which \<open>join_next\<close> returns them.
\<close>

datatype node_reply = ReplyShares "AssignedMaskShare list" | ReplyBroken | ReplyEnded

fun push_shares ::
  "(bytes \<Rightarrow> 's option) \<Rightarrow> AssignedMaskShare list \<Rightarrow> (u64 \<rightharpoonup> 's list)
    \<Rightarrow> (CoordinatorError, u64 \<rightharpoonup> 's list) result" where
  "push_shares deserialize [] sets = Ok sets"
| "push_shares deserialize (a # as) sets =
     (case deserialize (ams_share_bytes a) of
        None \<Rightarrow> Err DeserializationError
      | Some share \<Rightarrow>
          push_shares deserialize as
            (sets(ams_reserved_index a \<mapsto>
               (case sets (ams_reserved_index a) of None \<Rightarrow> [] | Some xs \<Rightarrow> xs) @ [share])))"

fun gather_shares ::
  "(bytes \<Rightarrow> 's option) \<Rightarrow> nat \<Rightarrow> u64 list \<Rightarrow> node_reply list \<Rightarrow> (u64 \<rightharpoonup> 's list)
    \<Rightarrow> (CoordinatorError, u64 \<rightharpoonup> 's list) result" where
  "gather_shares deserialize min_shares expected [] sets = Ok sets"
| "gather_shares deserialize min_shares expected (ReplyBroken # replies) sets =
     Err (SubscriptionError RemoteCallFailed)"
| "gather_shares deserialize min_shares expected (ReplyEnded # replies) sets =
     gather_shares deserialize min_shares expected replies sets"
| "gather_shares deserialize min_shares expected (ReplyShares assigned # replies) sets =
     (if expected \<noteq> sort_key unat (map ams_reserved_index assigned)
      then Err (JSONError WrongAssignedMaskShareRange)
      else and_then (push_shares deserialize assigned sets) (\<lambda>sets'.
        if \<forall>i \<in> set expected. (case sets' i of None \<Rightarrow> False | Some xs \<Rightarrow> min_shares \<le> length xs)
        then Ok sets'
        else gather_shares deserialize min_shares expected replies sets'))"

fun recover_masks ::
  "('s list \<Rightarrow> 'v option) \<Rightarrow> nat \<Rightarrow> (u64 \<rightharpoonup> 's list) \<Rightarrow> u64 list \<Rightarrow> (CoordinatorError, 'v list) result" where
  "recover_masks recover min_shares sets [] = Ok []"
| "recover_masks recover min_shares sets (i # is) =
     (case sets i of
        None \<Rightarrow> Err (MaskReconstructionFailed 0)
      | Some xs \<Rightarrow>
          if length xs < min_shares then Err (MaskReconstructionFailed (length xs))
          else (case recover xs of
             None \<Rightarrow> Err (MaskReconstructionFailed (length xs))
           | Some value_ \<Rightarrow>
               and_then (recover_masks recover min_shares (sets(i := None)) is) (\<lambda>masks.
                 Ok (value_ # masks))))"

definition receive_assigned_masks ::
  "(bytes \<Rightarrow> 's option) \<Rightarrow> nat \<Rightarrow> ('s list \<Rightarrow> 'v option) \<Rightarrow> bool list \<Rightarrow> node_reply list \<Rightarrow> u64 \<Rightarrow> u64
    \<Rightarrow> (CoordinatorError, 'v list) result" where
  "receive_assigned_masks deserialize min_shares recover opened replies start cnt =
     (case checked_add start cnt of
        None \<Rightarrow> Err (JSONError AssignedMaskRangeOverflows)
      | Some end_ \<Rightarrow>
          if cnt = 0 then Ok []
          else if False \<in> set opened then Err (SubscriptionError RemoteCallFailed)
          else
            let expected = u64_range start end_ in
            and_then (gather_shares deserialize min_shares expected replies Map.empty) (\<lambda>sets.
              recover_masks recover min_shares sets expected))"

section \<open>Interleavings\<close>

text \<open>A share enters the step relation by the outcome of its serialisation.\<close>

inductive node_step :: "NodeRPCServerInternal \<Rightarrow> NodeRPCServerInternal \<Rightarrow> bool" where
  node_step_register: "node_step s (snd (node_register_execution e s))"
| node_step_retire: "node_step s (snd (node_retire_execution e s))"
| node_step_reserve: "node_step s (fst (snd (add_assigned_reserved_indices_for_execution e rs s)))"
| node_step_share: "node_step s (fst (snd (add_mask_shares_for_execution (\<lambda>outcome. outcome) e shares s)))"
| node_step_receive: "node_step s (fst (snd (receive_assigned_mask_shares ok accepted caller e start cnt s)))"

definition node_init :: "NodeRPCServerInternal \<Rightarrow> bool" where
  "node_init s \<longleftrightarrow> s = []"

abbreviation node_reachable :: "NodeRPCServerInternal \<Rightarrow> bool" where
  "node_reachable \<equiv> reachable node_init node_step"

end
