(* ===== verification/Browser_Rpc.thy ===== *)
theory Browser_Rpc
  imports Browser_Auth Coord_Server Node_Rpc
begin

text \<open>
  The RPC methods for browsers of \<^verbatim>\<open>crates/off-chain/src/browser_rpc.rs\<close>: the states of the
  coordinator's and the node's browser listeners, every method they register, and the browser
  views on an execution.

  \<open>serde\<close> holds the three parsers \<open>parse_body\<close> is instantiated with. A method takes its parameters
  as \<open>params.one()\<close> leaves them, \<open>None\<close> when they do not parse. The iteration order of the hash
  set of candidates is the argument \<open>perm\<close>, and the random token draws are the argument \<open>draws\<close>.
  The method names are those the module registers.
\<close>

section \<open>Data\<close>

record MaskRange =
  mr_start :: u64
  mr_count :: u64

record MaskedInputBatch =
  mib_reserved_indices :: "u64 list"
  mib_masked_inputs :: "bytes list"

record BindWebauthnIdentity =
  bwi_execution_id :: ExecutionId
  bwi_assertion :: WebauthnAssertion
  bwi_ecdsa_public_key :: bytes
  bwi_ecdh_public_key :: bytes
  bwi_credential_id :: bytes

record BindWebauthnIdentityToNode =
  bwn_client_identity :: ClientIdentity
  bwn_assertion :: WebauthnAssertion
  bwn_ecdsa_public_key :: bytes
  bwn_ecdh_public_key :: bytes

record WebauthnBindingResponse =
  wbr_session_token :: string
  wbr_client_identity :: ClientIdentity

record BrowserExecutionStatus =
  bs_round :: Round
  bs_input_indices :: "u64 list"
  bs_total_inputs :: u64
  bs_reserved_inputs :: u64
  bs_submitted_inputs :: u64
  bs_total_clients :: u64
  bs_submitted_clients :: u64
  bs_own_input_reserved :: bool
  bs_own_input_submitted :: bool
  bs_output_ready :: bool

record CoordinatorBrowserState =
  cb_coordinator :: CoordinatorRPCServerSharedBase
  cb_nonces :: NonceBook
  cb_sign_counts :: SignCounts
  cb_rp_id_hash :: bytes
  cb_origin :: string
  cb_credential_id_index :: "bytes \<rightharpoonup> ClientIdentity"

record NodeBrowserState =
  nb_node :: NodeRPCServerInternal
  nb_nonces :: NonceBook
  nb_bindings :: WebauthnBindings
  nb_sign_counts :: SignCounts
  nb_rp_id_hash :: bytes
  nb_origin :: string

record serde =
  parse_indices :: "bytes \<Rightarrow> u64 list option"
  parse_batch :: "bytes \<Rightarrow> MaskedInputBatch option"
  parse_range :: "bytes \<Rightarrow> MaskRange option"

definition parse_body :: "(bytes \<Rightarrow> 'a option) \<Rightarrow> bytes \<Rightarrow> 'a rpc_result" where
  "parse_body parse body =
     (case parse body of Some x \<Rightarrow> Ok x | None \<Rightarrow> Err (BrowserError BAD_BODY))"

definition browser_execution_not_found :: rpc_error where
  "browser_execution_not_found = BrowserError (- 32016)"

definition browser_not_authorized :: rpc_error where
  "browser_not_authorized = BrowserError (- 32012)"

section \<open>Starting the listeners\<close>

text \<open>\<open>dirs\<close> are the certificate and the credential directory; a load failure is an empty index.\<close>

definition coordinator_browser_methods ::
  "('vk, 'sig) crypto \<Rightarrow> 'p file_system \<Rightarrow> CoordinatorRPCServerSharedBase \<Rightarrow> string \<Rightarrow> ('p \<times> 'p) option
    \<Rightarrow> CoordinatorBrowserState" where
  "coordinator_browser_methods c fs coordinator rp_id dirs =
     \<lparr>cb_coordinator = coordinator,
      cb_nonces = Map.empty,
      cb_sign_counts = Map.empty,
      cb_rp_id_hash = sha256 c (str_bytes rp_id),
      cb_origin = ''https://'' @ rp_id,
      cb_credential_id_index =
        (case dirs of
           Some (client_cert_dir, client_credential_id_dir) \<Rightarrow>
             (case load_credential_id_index fs client_cert_dir client_credential_id_dir of
                Ok index \<Rightarrow> index
              | _ \<Rightarrow> Map.empty)
         | None \<Rightarrow> Map.empty)\<rparr>"

definition node_browser_methods ::
  "('vk, 'sig) crypto \<Rightarrow> NodeRPCServerInternal \<Rightarrow> string \<Rightarrow> NodeBrowserState" where
  "node_browser_methods c node rp_id =
     \<lparr>nb_node = node,
      nb_nonces = Map.empty,
      nb_bindings = webauthn_bindings_default,
      nb_sign_counts = Map.empty,
      nb_rp_id_hash = sha256 c (str_bytes rp_id),
      nb_origin = ''https://'' @ rp_id\<rparr>"

section \<open>Views on an execution\<close>

text \<open>
  Indexing panics out of range. \<open>all_at\<close> and \<open>any_at\<close> are \<open>all\<close> and \<open>any\<close> over positions of a
  vector, which stop at the first position that decides them.
\<close>

fun all_at :: "('a \<Rightarrow> bool) \<Rightarrow> 'a list \<Rightarrow> nat list \<Rightarrow> ('e, bool) result" where
  "all_at P xs [] = Ok True"
| "all_at P xs (i # is) =
     (if length xs \<le> i then Panic else if P (xs ! i) then all_at P xs is else Ok False)"

fun any_at :: "('a \<Rightarrow> bool) \<Rightarrow> 'a list \<Rightarrow> nat list \<Rightarrow> ('e, bool) result" where
  "any_at P xs [] = Ok False"
| "any_at P xs (i # is) =
     (if length xs \<le> i then Panic else if P (xs ! i) then Ok True else any_at P xs is)"

definition client_slots :: "CoordinatorExecutionState \<Rightarrow> ClientIdentity \<Rightarrow> nat list" where
  "client_slots d client =
     filter (\<lambda>i. input_slot_client d (ex_input_assignments d ! i) = Some client)
       [0..<length (ex_input_assignments d)]"

definition assigned_clients :: "CoordinatorExecutionState \<Rightarrow> ClientIdentity list" where
  "assigned_clients d = remdups (List.map_filter (input_slot_client d) (ex_input_assignments d))"

fun count_ok :: "('a \<Rightarrow> ('e, bool) result) \<Rightarrow> 'a list \<Rightarrow> ('e, nat) result" where
  "count_ok f [] = Ok 0"
| "count_ok f (x # xs) =
     and_then (f x) (\<lambda>b. and_then (count_ok f xs) (\<lambda>n. Ok (if b then Suc n else n)))"

definition output_share_list :: "ClientIdentity \<Rightarrow> CoordinatorExecutionState \<Rightarrow> enc_share list" where
  "output_share_list client d =
     map snd (filter (\<lambda>entry. fst (fst entry) = client) (ex_output_shares d))"

definition browser_execution_status ::
  "ExecutionId \<Rightarrow> ClientIdentity \<Rightarrow> CoordinatorRPCServerSharedBase \<Rightarrow> BrowserExecutionStatus rpc_result" where
  "browser_execution_status e client s =
     (case map_of (srv_executions s) e of
        None \<Rightarrow> Err browser_execution_not_found
      | Some d \<Rightarrow>
          let input_indices = client_slots d client;
              authorized_for_output = client \<in> set (ex_output_clients d)
          in
          if input_indices = [] \<and> \<not> authorized_for_output then Err browser_not_authorized
          else
            and_then (if input_indices = [] then Ok False
                      else all_at (\<lambda>owner. owner = Some client) (ex_reserved_indices d) input_indices)
              (\<lambda>own_input_reserved.
            and_then (if input_indices = [] then Ok False
                      else all_at (\<lambda>input. input \<noteq> None) (ex_masked_inputs d) input_indices)
              (\<lambda>own_input_submitted.
            and_then (count_ok (\<lambda>candidate.
                        all_at (\<lambda>input. input \<noteq> None) (ex_masked_inputs d) (client_slots d candidate))
                        (assigned_clients d))
              (\<lambda>submitted_clients.
            Ok \<lparr>bs_round = ex_round d,
                bs_input_indices = map of_nat input_indices,
                bs_total_inputs = reg_n_inputs (ex_registration d),
                bs_reserved_inputs = of_nat (length (filter (\<lambda>owner. owner \<noteq> None) (ex_reserved_indices d))),
                bs_submitted_inputs = of_nat (length (filter (\<lambda>input. input \<noteq> None) (ex_masked_inputs d))),
                bs_total_clients = of_nat (length (assigned_clients d)),
                bs_submitted_clients = of_nat submitted_clients,
                bs_own_input_reserved = own_input_reserved,
                bs_own_input_submitted = own_input_submitted,
                bs_output_ready =
                  (authorized_for_output \<and>
                   unat (reg_min_output_shares (ex_registration d)) \<le> length (output_share_list client d))\<rparr>))))"

definition browser_round :: "ExecutionId \<Rightarrow> CoordinatorRPCServerSharedBase \<Rightarrow> Round rpc_result" where
  "browser_round e s =
     (case map_of (srv_executions s) e of
        Some d \<Rightarrow> Ok (ex_round d)
      | None \<Rightarrow> Err browser_execution_not_found)"

definition browser_output_shares ::
  "ExecutionId \<Rightarrow> ClientIdentity \<Rightarrow> CoordinatorRPCServerSharedBase \<Rightarrow> enc_share list option rpc_result" where
  "browser_output_shares e client s =
     (case map_of (srv_executions s) e of
        None \<Rightarrow> Err browser_execution_not_found
      | Some d \<Rightarrow>
          if client \<notin> set (ex_output_clients d) then Err browser_not_authorized
          else
            let shares = output_share_list client d in
            if length shares < unat (reg_min_output_shares (ex_registration d)) then Ok None
            else Ok (Some shares))"

section \<open>The coordinator's methods\<close>

type_synonym 'a browser_reply = "'a rpc_result \<times> CoordinatorBrowserState \<times> delivery list"

text \<open>The start every authenticated method shares: parse the parameters, authenticate, go on.\<close>

definition authenticated ::
  "('vk, 'sig) crypto \<Rightarrow> u64 \<Rightarrow> string \<Rightarrow> BrowserCall option \<Rightarrow> CoordinatorBrowserState
    \<Rightarrow> (BrowserCall \<Rightarrow> ClientIdentity \<Rightarrow> CoordinatorBrowserState \<Rightarrow> 'a browser_reply) \<Rightarrow> 'a browser_reply" where
  "authenticated c now rpc_method params st continue =
     (case params of
        None \<Rightarrow> (Err InvalidParams, st, [])
      | Some call \<Rightarrow>
          (case authenticate c now rpc_method call (cb_nonces st) (srv_webauthn_bindings (cb_coordinator st)) of
             (Ok identity, nonces) \<Rightarrow> continue call identity (st\<lparr>cb_nonces := nonces\<rparr>)
           | (Err err, nonces) \<Rightarrow> (Err err, st\<lparr>cb_nonces := nonces\<rparr>, [])
           | (Panic, nonces) \<Rightarrow> (Panic, st\<lparr>cb_nonces := nonces\<rparr>, [])))"

definition status_method ::
  "('vk, 'sig) crypto \<Rightarrow> u64 \<Rightarrow> BrowserCall option \<Rightarrow> CoordinatorBrowserState
    \<Rightarrow> BrowserExecutionStatus browser_reply" where
  "status_method c now params st =
     authenticated c now ''browser_execution_status'' params st (\<lambda>call identity st'.
       (browser_execution_status (bc_execution_id call) identity (cb_coordinator st'), st', []))"

text \<open>The one method without authentication.\<close>

definition round_method :: "ExecutionId option \<Rightarrow> CoordinatorBrowserState \<Rightarrow> Round browser_reply" where
  "round_method params st =
     (case params of
        None \<Rightarrow> (Err InvalidParams, st, [])
      | Some e \<Rightarrow> (browser_round e (cb_coordinator st), st, []))"

definition reserve_method ::
  "('vk, 'sig) crypto \<Rightarrow> serde \<Rightarrow> (sink \<Rightarrow> message \<Rightarrow> bool) \<Rightarrow> u64 \<Rightarrow> BrowserCall option
    \<Rightarrow> CoordinatorBrowserState \<Rightarrow> unit browser_reply" where
  "reserve_method c sj ok now params st =
     authenticated c now ''browser_reserve_mask_indices'' params st (\<lambda>call identity st'.
       case parse_body (parse_indices sj) (sbr_body (bc_request call)) of
         Ok indices \<Rightarrow>
           (let (r, s, ds) = reserve_mask_indices ok identity (bc_execution_id call) indices (cb_coordinator st')
            in (r, st'\<lparr>cb_coordinator := s\<rparr>, ds))
       | Err err \<Rightarrow> (Err err, st', [])
       | Panic \<Rightarrow> (Panic, st', []))"

definition submit_method ::
  "('vk, 'sig) crypto \<Rightarrow> serde \<Rightarrow> (sink \<Rightarrow> message \<Rightarrow> bool) \<Rightarrow> u64 \<Rightarrow> BrowserCall option
    \<Rightarrow> CoordinatorBrowserState \<Rightarrow> unit browser_reply" where
  "submit_method c sj ok now params st =
     authenticated c now ''browser_submit_masked_inputs'' params st (\<lambda>call identity st'.
       case parse_body (parse_batch sj) (sbr_body (bc_request call)) of
         Ok batch \<Rightarrow>
           (case submit_masked_inputs ok identity (bc_execution_id call) (mib_masked_inputs batch)
               (mib_reserved_indices batch) (cb_coordinator st') of
              (Ok _, s, ds) \<Rightarrow>
                (Ok (),
                 st'\<lparr>cb_coordinator := s\<lparr>srv_webauthn_bindings :=
                   pin_binding_from_token (srv_webauthn_bindings s) (bc_execution_id call)
                     (sbr_session_token (bc_request call))\<rparr>\<rparr>,
                 ds)
            | (Err err, s, ds) \<Rightarrow> (Err err, st'\<lparr>cb_coordinator := s\<rparr>, ds)
            | (Panic, s, ds) \<Rightarrow> (Panic, st'\<lparr>cb_coordinator := s\<rparr>, ds))
       | Err err \<Rightarrow> (Err err, st', [])
       | Panic \<Rightarrow> (Panic, st', []))"

definition output_shares_method ::
  "('vk, 'sig) crypto \<Rightarrow> u64 \<Rightarrow> BrowserCall option \<Rightarrow> CoordinatorBrowserState
    \<Rightarrow> enc_share list option browser_reply" where
  "output_shares_method c now params st =
     authenticated c now ''browser_output_shares'' params st (\<lambda>call identity st'.
       (browser_output_shares (bc_execution_id call) identity (cb_coordinator st'), st', []))"

section \<open>Binding a session on the coordinator\<close>

fun find_map :: "('a \<Rightarrow> 'b option) \<Rightarrow> 'a list \<Rightarrow> 'b option" where
  "find_map f [] = None"
| "find_map f (x # xs) = (case f x of Some y \<Rightarrow> Some y | None \<Rightarrow> find_map f xs)"

definition bind_candidates :: "CoordinatorExecutionState \<Rightarrow> ClientIdentity list" where
  "bind_candidates d =
     remdups (List.map_filter (input_slot_client d) (ex_input_assignments d) @ ex_output_clients d)"

definition bind_match ::
  "('vk, 'sig) crypto \<Rightarrow> (ClientIdentity list \<Rightarrow> ClientIdentity list) \<Rightarrow> CoordinatorBrowserState
    \<Rightarrow> BindWebauthnIdentity \<Rightarrow> CoordinatorExecutionState \<Rightarrow> (ClientIdentity \<times> u32) option" where
  "bind_match c perm st call d =
     (let candidates = bind_candidates d;
          challenge = webauthn_bind_challenge c (bwi_ecdsa_public_key call) (bwi_ecdh_public_key call);
          attempt = (\<lambda>candidate. map_option (Pair candidate)
            (verify_webauthn_assertion c (bwi_assertion call) candidate (cb_rp_id_hash st) (cb_origin st) challenge));
          indexed_match =
            (if bwi_credential_id call = [] then None
             else case cb_credential_id_index st (bwi_credential_id call) of
               None \<Rightarrow> None
             | Some candidate \<Rightarrow> if candidate \<in> set candidates then attempt candidate else None)
      in case indexed_match of
           Some found \<Rightarrow> Some found
         | None \<Rightarrow> find_map attempt (perm candidates))"

text \<open>The part of the method that holds the coordinator's lock.\<close>

definition bind_check ::
  "('vk, 'sig) crypto \<Rightarrow> (ClientIdentity list \<Rightarrow> ClientIdentity list) \<Rightarrow> CoordinatorBrowserState
    \<Rightarrow> BindWebauthnIdentity \<Rightarrow> (ClientIdentity \<times> u32) rpc_result" where
  "bind_check c perm st call =
     (case map_of (srv_executions (cb_coordinator st)) (bwi_execution_id call) of
        None \<Rightarrow> Err browser_execution_not_found
      | Some d \<Rightarrow>
          (case bind_match c perm st call d of
             None \<Rightarrow> Err auth_error
           | Some (client_identity, sign_count) \<Rightarrow>
               and_then (any_at (\<lambda>input. input \<noteq> None) (ex_masked_inputs d) (client_slots d client_identity))
                 (\<lambda>already_submitted.
                   if already_submitted then Err auth_error else Ok (client_identity, sign_count))))"

text \<open>
  The rest, without it: the signature counter and then the new session. \<open>None\<close> is a token loop
  that never draws a fresh token from \<open>draws\<close>.
\<close>

definition bind_commit ::
  "('vk, 'sig) crypto \<Rightarrow> bytes list \<Rightarrow> BindWebauthnIdentity \<Rightarrow> ClientIdentity \<Rightarrow> u32 \<Rightarrow> CoordinatorBrowserState
    \<Rightarrow> (WebauthnBindingResponse rpc_result \<times> CoordinatorBrowserState) option" where
  "bind_commit c draws call client_identity sign_count st =
     (case sign_count_accept (cb_sign_counts st) client_identity sign_count of
        (Ok _, sign_counts) \<Rightarrow>
          (case bindings_insert (b64_encode c) draws (Some (bwi_execution_id call))
              \<lparr>wb_client_identity = client_identity,
               wb_ecdsa_public_key = bwi_ecdsa_public_key call,
               wb_ecdh_public_key = bwi_ecdh_public_key call\<rparr>
              (srv_webauthn_bindings (cb_coordinator st)) of
             None \<Rightarrow> None
           | Some (session_token, bindings) \<Rightarrow>
               Some (Ok \<lparr>wbr_session_token = session_token, wbr_client_identity = client_identity\<rparr>,
                 st\<lparr>cb_sign_counts := sign_counts,
                    cb_coordinator := (cb_coordinator st)\<lparr>srv_webauthn_bindings := bindings\<rparr>\<rparr>))
      | (Err err, sign_counts) \<Rightarrow> Some (Err err, st\<lparr>cb_sign_counts := sign_counts\<rparr>)
      | (Panic, sign_counts) \<Rightarrow> Some (Panic, st\<lparr>cb_sign_counts := sign_counts\<rparr>))"

definition bind_method ::
  "('vk, 'sig) crypto \<Rightarrow> (ClientIdentity list \<Rightarrow> ClientIdentity list) \<Rightarrow> bytes list
    \<Rightarrow> BindWebauthnIdentity option \<Rightarrow> CoordinatorBrowserState
    \<Rightarrow> (WebauthnBindingResponse rpc_result \<times> CoordinatorBrowserState) option" where
  "bind_method c perm draws params st =
     (case params of
        None \<Rightarrow> Some (Err InvalidParams, st)
      | Some call \<Rightarrow>
          (case bind_check c perm st call of
             Ok (client_identity, sign_count) \<Rightarrow> bind_commit c draws call client_identity sign_count st
           | Err err \<Rightarrow> Some (Err err, st)
           | Panic \<Rightarrow> Some (Panic, st)))"

section \<open>The node's methods\<close>

definition assigned_mask_shares_method ::
  "('vk, 'sig) crypto \<Rightarrow> serde \<Rightarrow> u64 \<Rightarrow> BrowserCall option \<Rightarrow> NodeBrowserState
    \<Rightarrow> AssignedMaskShare list option rpc_result \<times> NodeBrowserState" where
  "assigned_mask_shares_method c sj now params st =
     (case params of
        None \<Rightarrow> (Err InvalidParams, st)
      | Some call \<Rightarrow>
          (case authenticate c now ''browser_assigned_mask_shares'' call (nb_nonces st) (nb_bindings st) of
             (Ok identity, nonces) \<Rightarrow>
               (and_then (parse_body (parse_range sj) (sbr_body (bc_request call))) (\<lambda>r.
                  case map_of (nb_node st) (bc_execution_id call) of
                    None \<Rightarrow> Err browser_execution_not_found
                  | Some d \<Rightarrow>
                      (case assigned_mask_shares_for_client d identity (mr_start r) (mr_count r) of
                         Ok shares \<Rightarrow> Ok shares
                       | Err _ \<Rightarrow> Err (BrowserError (- 32051))
                       | Panic \<Rightarrow> Panic)),
                st\<lparr>nb_nonces := nonces\<rparr>)
           | (Err err, nonces) \<Rightarrow> (Err err, st\<lparr>nb_nonces := nonces\<rparr>)
           | (Panic, nonces) \<Rightarrow> (Panic, st\<lparr>nb_nonces := nonces\<rparr>)))"

definition node_bind_method ::
  "('vk, 'sig) crypto \<Rightarrow> bytes list \<Rightarrow> BindWebauthnIdentityToNode option \<Rightarrow> NodeBrowserState
    \<Rightarrow> (WebauthnBindingResponse rpc_result \<times> NodeBrowserState) option" where
  "node_bind_method c draws params st =
     (case params of
        None \<Rightarrow> Some (Err InvalidParams, st)
      | Some call \<Rightarrow>
          (case verify_webauthn_assertion c (bwn_assertion call) (bwn_client_identity call) (nb_rp_id_hash st)
              (nb_origin st) (webauthn_bind_challenge c (bwn_ecdsa_public_key call) (bwn_ecdh_public_key call)) of
             None \<Rightarrow> Some (Err auth_error, st)
           | Some sign_count \<Rightarrow>
               (case sign_count_accept (nb_sign_counts st) (bwn_client_identity call) sign_count of
                  (Ok _, sign_counts) \<Rightarrow>
                    (case bindings_insert (b64_encode c) draws None
                        \<lparr>wb_client_identity = bwn_client_identity call,
                         wb_ecdsa_public_key = bwn_ecdsa_public_key call,
                         wb_ecdh_public_key = bwn_ecdh_public_key call\<rparr>
                        (nb_bindings st) of
                       None \<Rightarrow> None
                     | Some (session_token, bindings) \<Rightarrow>
                         Some (Ok \<lparr>wbr_session_token = session_token,
                                   wbr_client_identity = bwn_client_identity call\<rparr>,
                           st\<lparr>nb_sign_counts := sign_counts, nb_bindings := bindings\<rparr>))
                | (Err err, sign_counts) \<Rightarrow> Some (Err err, st\<lparr>nb_sign_counts := sign_counts\<rparr>)
                | (Panic, sign_counts) \<Rightarrow> Some (Panic, st\<lparr>nb_sign_counts := sign_counts\<rparr>))))"

section \<open>Interleavings\<close>

text \<open>
  One step of the coordinator's browser listener is one section of a method, with the clock reading
  it uses: an authentication, sections of the coordinator that leave the sessions alone (its own
  RPC methods, the browser views and whatever the native listener serves), the pinning after a
  submission, and the commit of a bind, whose check may lie in the past but has verified the
  assertion. A step of the node's listener is one of its two methods or a step of the node.
\<close>

inductive browser_step ::
  "('vk, 'sig) crypto \<Rightarrow> u64 \<Rightarrow> CoordinatorBrowserState \<Rightarrow> CoordinatorBrowserState \<Rightarrow> bool"
  for c :: "('vk, 'sig) crypto" where
  bstep_authenticate: "browser_step c now st
    (st\<lparr>cb_nonces := snd (authenticate c now rpc_method call (cb_nonces st)
       (srv_webauthn_bindings (cb_coordinator st)))\<rparr>)"
| bstep_native: "reachable ((=) (cb_coordinator st)) coord_step s \<Longrightarrow>
    srv_webauthn_bindings s = srv_webauthn_bindings (cb_coordinator st) \<Longrightarrow>
    browser_step c now st (st\<lparr>cb_coordinator := s\<rparr>)"
| bstep_pin: "browser_step c now st (st\<lparr>cb_coordinator := (cb_coordinator st)\<lparr>srv_webauthn_bindings :=
    pin_binding_from_token (srv_webauthn_bindings (cb_coordinator st)) e session_token\<rparr>\<rparr>)"
| bstep_bind: "verify_webauthn_assertion c (bwi_assertion call) client_identity (cb_rp_id_hash st) (cb_origin st)
      (webauthn_bind_challenge c (bwi_ecdsa_public_key call) (bwi_ecdh_public_key call)) = Some sign_count \<Longrightarrow>
    bind_commit c draws call client_identity sign_count st = Some (r, st') \<Longrightarrow> browser_step c now st st'"

inductive node_browser_step ::
  "('vk, 'sig) crypto \<Rightarrow> u64 \<Rightarrow> NodeBrowserState \<Rightarrow> NodeBrowserState \<Rightarrow> bool"
  for c :: "('vk, 'sig) crypto" where
  nbstep_shares: "node_browser_step c now st (snd (assigned_mask_shares_method c sj now params st))"
| nbstep_bind: "node_bind_method c draws params st = Some (r, st') \<Longrightarrow> node_browser_step c now st st'"
| nbstep_node: "node_step (nb_node st) node \<Longrightarrow> node_browser_step c now st (st\<lparr>nb_node := node\<rparr>)"

end
