(* ===== verification/Coord_Client.thy ===== *)
theory Coord_Client
  imports Coord_Server
begin

text \<open>
  The client of the off-chain coordinator, \<open>OffChainCoordinatorClient\<close> of
  \<^verbatim>\<open>crates/off-chain/src/lib.rs\<close>, which parties and input and output clients use.

  A call runs the method of \<open>Coord_Server\<close> with the identity of the client's connection. \<open>link\<close>
  says what the network does to the call: it may lose the request, or the reply after the server
  has acted. A subscription is the list of the items it yields; when the list ends the
  subscription has ended. HPKE (crate \<open>hpke\<close>), the serialisation of \<open>ark-serialize\<close> and the shares
  of \<open>stoffelmpc_mpc\<close> are the records \<open>hpke\<close> and \<open>share_scheme\<close>.
\<close>

section \<open>Third-party code\<close>

record ('sk, 'pk, 'ek) hpke =
  from_pkcs8_der :: "bytes \<Rightarrow> bytes option"
  sk_from_bytes :: "bytes \<Rightarrow> 'sk option"
  pk_from_bytes :: "bytes \<Rightarrow> 'pk option"
  ek_from_bytes :: "bytes \<Rightarrow> 'ek option"
  single_shot_seal :: "nat \<Rightarrow> 'pk \<Rightarrow> bytes \<Rightarrow> bytes \<Rightarrow> (bytes \<times> bytes) option"
  single_shot_open :: "'sk \<Rightarrow> 'ek \<Rightarrow> bytes \<Rightarrow> bytes \<Rightarrow> bytes option"

record ('s, 'v) share_scheme =
  min_shares :: "usize \<Rightarrow> usize"
  recover_secret :: "'s list \<Rightarrow> usize \<Rightarrow> usize \<Rightarrow> 'v option"
  compute_masked_input :: "'v \<Rightarrow> 's \<Rightarrow> 's option"
  serialize_value :: "'v \<Rightarrow> bytes option"
  deserialize_value :: "bytes \<Rightarrow> 'v option"
  serialize_shares :: "'s list \<Rightarrow> bytes option"
  deserialize_shares :: "bytes \<Rightarrow> 's list option"

section \<open>The client and its connection\<close>

record OffChainCoordinatorClient =
  cl_identity :: ClientIdentity
  cl_execution_id :: ExecutionId
  cl_t :: u64
  cl_n_parties :: u64
  cl_n_outputs :: u64
  cl_key_der :: bytes

datatype link = Delivered | RequestLost | ReplyLost

datatype 'a item = Received 'a | Undecodable

type_synonym 'a outcome = "(CoordinatorError, 'a) result \<times> CoordinatorRPCServerSharedBase \<times> delivery list"

text \<open>\<open>call(..).await.map_err(|e| CoordinatorError::JSONError(e.to_string()))\<close>.\<close>

definition remote :: "link \<Rightarrow> 'a reply \<Rightarrow> CoordinatorRPCServerSharedBase \<Rightarrow> 'a outcome" where
  "remote l reply s =
     (case l of
        RequestLost \<Rightarrow> (Err (JSONError RemoteCallFailed), s, [])
      | ReplyLost \<Rightarrow> (Err (JSONError RemoteCallFailed), fst (snd reply), snd (snd reply))
      | Delivered \<Rightarrow>
          ((case fst reply of Ok x \<Rightarrow> Ok x | _ \<Rightarrow> Err (JSONError RemoteCallFailed)),
           fst (snd reply), snd (snd reply)))"

section \<open>Calls\<close>

definition client_trigger_round ::
  "link \<Rightarrow> OffChainCoordinatorClient \<Rightarrow> Round \<Rightarrow> CoordinatorRPCServerSharedBase \<Rightarrow> unit outcome" where
  "client_trigger_round l cl round s = remote l (rpc_transition (cl_identity cl) (cl_execution_id cl) round s) s"

definition client_register_execution ::
  "link \<Rightarrow> OffChainCoordinatorClient \<Rightarrow> ExecutionRegistration \<Rightarrow> CoordinatorRPCServerSharedBase \<Rightarrow> unit outcome" where
  "client_register_execution l cl registration s =
     remote l (rpc_register_execution (cl_identity cl) registration s) s"

definition client_retire_execution ::
  "link \<Rightarrow> OffChainCoordinatorClient \<Rightarrow> CoordinatorRPCServerSharedBase \<Rightarrow> unit outcome" where
  "client_retire_execution l cl s = remote l (rpc_retire_execution (cl_identity cl) (cl_execution_id cl) s) s"

definition client_request_shutdown ::
  "link \<Rightarrow> OffChainCoordinatorClient \<Rightarrow> CoordinatorRPCServerSharedBase \<Rightarrow> unit outcome" where
  "client_request_shutdown l cl s = remote l (request_shutdown (cl_identity cl) s) s"

text \<open>
  The six round triggers of the trait \<open>Coordinator\<close> call the RPC trait \<open>StoffelCoordinatorRPC\<close>.
  \<open>run-coord\<close> serves it with \<open>CoordinatorConnection\<close> of \<^verbatim>\<open>crates/off-chain/src/tests/fake_coord.rs\<close>,
  whose methods are the following.
\<close>

definition connection_start_preprocessing ::
  "ClientIdentity \<Rightarrow> ExecutionId \<Rightarrow> CoordinatorRPCServerSharedBase \<Rightarrow> unit reply" where
  "connection_start_preprocessing caller e s = rpc_transition caller e Preprocessing s"

definition connection_reserve_input_masks ::
  "ClientIdentity \<Rightarrow> ExecutionId \<Rightarrow> CoordinatorRPCServerSharedBase \<Rightarrow> unit reply" where
  "connection_reserve_input_masks caller e s = rpc_transition caller e InputMaskReservation s"

definition connection_collect_inputs ::
  "ClientIdentity \<Rightarrow> ExecutionId \<Rightarrow> CoordinatorRPCServerSharedBase \<Rightarrow> unit reply" where
  "connection_collect_inputs caller e s = rpc_transition caller e InputCollection s"

definition connection_start_mpc ::
  "ClientIdentity \<Rightarrow> ExecutionId \<Rightarrow> CoordinatorRPCServerSharedBase \<Rightarrow> unit reply" where
  "connection_start_mpc caller e s = rpc_transition caller e MPCExecution s"

definition connection_send_output ::
  "ClientIdentity \<Rightarrow> ExecutionId \<Rightarrow> CoordinatorRPCServerSharedBase \<Rightarrow> unit reply" where
  "connection_send_output caller e s = rpc_transition caller e OutputDistribution s"

definition connection_finalize ::
  "ClientIdentity \<Rightarrow> ExecutionId \<Rightarrow> CoordinatorRPCServerSharedBase \<Rightarrow> unit reply" where
  "connection_finalize caller e s = rpc_transition caller e ProgramFinished s"

definition client_start_preprocessing ::
  "link \<Rightarrow> OffChainCoordinatorClient \<Rightarrow> CoordinatorRPCServerSharedBase \<Rightarrow> unit outcome" where
  "client_start_preprocessing l cl s = remote l (connection_start_preprocessing (cl_identity cl) (cl_execution_id cl) s) s"

definition client_reserve_input_masks ::
  "link \<Rightarrow> OffChainCoordinatorClient \<Rightarrow> CoordinatorRPCServerSharedBase \<Rightarrow> unit outcome" where
  "client_reserve_input_masks l cl s = remote l (connection_reserve_input_masks (cl_identity cl) (cl_execution_id cl) s) s"

definition client_collect_inputs ::
  "link \<Rightarrow> OffChainCoordinatorClient \<Rightarrow> CoordinatorRPCServerSharedBase \<Rightarrow> unit outcome" where
  "client_collect_inputs l cl s = remote l (connection_collect_inputs (cl_identity cl) (cl_execution_id cl) s) s"

definition client_start_mpc ::
  "link \<Rightarrow> OffChainCoordinatorClient \<Rightarrow> CoordinatorRPCServerSharedBase \<Rightarrow> unit outcome" where
  "client_start_mpc l cl s = remote l (connection_start_mpc (cl_identity cl) (cl_execution_id cl) s) s"

definition client_send_output ::
  "link \<Rightarrow> OffChainCoordinatorClient \<Rightarrow> CoordinatorRPCServerSharedBase \<Rightarrow> unit outcome" where
  "client_send_output l cl s = remote l (connection_send_output (cl_identity cl) (cl_execution_id cl) s) s"

definition client_finalize ::
  "link \<Rightarrow> OffChainCoordinatorClient \<Rightarrow> CoordinatorRPCServerSharedBase \<Rightarrow> unit outcome" where
  "client_finalize l cl s = remote l (connection_finalize (cl_identity cl) (cl_execution_id cl) s) s"

definition client_reserve_mask_indices ::
  "(sink \<Rightarrow> message \<Rightarrow> bool) \<Rightarrow> link \<Rightarrow> OffChainCoordinatorClient \<Rightarrow> u64 list \<Rightarrow> CoordinatorRPCServerSharedBase
    \<Rightarrow> unit outcome" where
  "client_reserve_mask_indices ok l cl indices s =
     remote l (reserve_mask_indices ok (cl_identity cl) (cl_execution_id cl) indices s) s"

definition client_reserve_mask_index ::
  "(sink \<Rightarrow> message \<Rightarrow> bool) \<Rightarrow> link \<Rightarrow> OffChainCoordinatorClient \<Rightarrow> u64 \<Rightarrow> CoordinatorRPCServerSharedBase
    \<Rightarrow> unit outcome" where
  "client_reserve_mask_index ok l cl i s = client_reserve_mask_indices ok l cl [i] s"

text \<open>All inputs are serialised before anything is sent.\<close>

fun serialize_inputs ::
  "('v \<Rightarrow> bytes option) \<Rightarrow> (u64 \<times> 'v) list \<Rightarrow> (CoordinatorError, u64 list \<times> bytes list) result" where
  "serialize_inputs ser [] = Ok ([], [])"
| "serialize_inputs ser ((i, masked_input) # inputs) =
     (case ser masked_input of
        None \<Rightarrow> Err SerializationError
      | Some masked_input_bytes \<Rightarrow>
          and_then (serialize_inputs ser inputs) (\<lambda>(reserved_indices, masked_inputs).
            Ok (i # reserved_indices, masked_input_bytes # masked_inputs)))"

definition client_send_masked_inputs ::
  "('s, 'v) share_scheme \<Rightarrow> (sink \<Rightarrow> message \<Rightarrow> bool) \<Rightarrow> link \<Rightarrow> OffChainCoordinatorClient \<Rightarrow> (u64 \<times> 'v) list
    \<Rightarrow> CoordinatorRPCServerSharedBase \<Rightarrow> unit outcome" where
  "client_send_masked_inputs sch ok l cl inputs s =
     (case serialize_inputs (serialize_value sch) inputs of
        Ok (reserved_indices, masked_inputs) \<Rightarrow>
          remote l (submit_masked_inputs ok (cl_identity cl) (cl_execution_id cl) masked_inputs reserved_indices s) s
      | Err e \<Rightarrow> (Err e, s, [])
      | Panic \<Rightarrow> (Panic, s, []))"

definition client_send_masked_input ::
  "('s, 'v) share_scheme \<Rightarrow> (sink \<Rightarrow> message \<Rightarrow> bool) \<Rightarrow> link \<Rightarrow> OffChainCoordinatorClient \<Rightarrow> 'v \<Rightarrow> u64
    \<Rightarrow> CoordinatorRPCServerSharedBase \<Rightarrow> unit outcome" where
  "client_send_masked_input sch ok l cl masked_input i s = client_send_masked_inputs sch ok l cl [(i, masked_input)] s"

section \<open>Waiting\<close>

definition extend_entry :: "('k \<rightharpoonup> 'a list) \<Rightarrow> 'k \<Rightarrow> 'a list \<Rightarrow> ('k \<rightharpoonup> 'a list)" where
  "extend_entry m k xs = m(k \<mapsto> (case m k of None \<Rightarrow> [] | Some ys \<Rightarrow> ys) @ xs)"

fun indices_loop ::
  "u64 \<Rightarrow> Event item list \<Rightarrow> u64 \<Rightarrow> (ClientIdentity \<rightharpoonup> u64 list)
    \<Rightarrow> (CoordinatorError, ClientIdentity \<rightharpoonup> u64 list) result" where
  "indices_loop n_inputs [] received m =
     (if n_inputs \<le> received then Ok m else Err (JSONError SubscriptionEnded))"
| "indices_loop n_inputs (item # items) received m =
     (if n_inputs \<le> received then Ok m
      else case item of
        Received (ReservedInputEvent client reserved_indices) \<Rightarrow>
          indices_loop n_inputs items (received + of_nat (length reserved_indices))
            (extend_entry m client reserved_indices)
      | _ \<Rightarrow> Err (JSONError SubscriptionEnded))"

text \<open>\<open>sub\<close> is the subscription, \<open>None\<close> when it could not be opened: the \<open>unwrap\<close> panics.\<close>

definition wait_for_indices ::
  "u64 \<Rightarrow> Event item list option \<Rightarrow> (CoordinatorError, ClientIdentity \<rightharpoonup> u64 list) result" where
  "wait_for_indices n_inputs sub =
     (case sub of None \<Rightarrow> Panic | Some items \<Rightarrow> indices_loop n_inputs items 0 Map.empty)"

fun unmask_inputs ::
  "('s, 'v) share_scheme \<Rightarrow> 's list \<Rightarrow> ClientIdentity \<Rightarrow> (u64 \<times> bytes) list \<Rightarrow> (ClientIdentity \<rightharpoonup> (u64 \<times> 's) list)
    \<Rightarrow> (CoordinatorError, ClientIdentity \<rightharpoonup> (u64 \<times> 's) list) result" where
  "unmask_inputs sch mask_shares client [] m = Ok m"
| "unmask_inputs sch mask_shares client ((reserved_index, masked_input) # rest) m =
     (if length mask_shares \<le> unat reserved_index then Panic
      else case deserialize_value sch masked_input of
        None \<Rightarrow> Err DeserializationError
      | Some v \<Rightarrow>
          (case compute_masked_input sch v (mask_shares ! unat reserved_index) of
             None \<Rightarrow> Err ShareError
           | Some input \<Rightarrow>
               unmask_inputs sch mask_shares client rest (extend_entry m client [(reserved_index, input)])))"

fun inputs_loop ::
  "('s, 'v) share_scheme \<Rightarrow> 's list \<Rightarrow> u64 \<Rightarrow> Event item list \<Rightarrow> u64 \<Rightarrow> (ClientIdentity \<rightharpoonup> (u64 \<times> 's) list)
    \<Rightarrow> (CoordinatorError, ClientIdentity \<rightharpoonup> (u64 \<times> 's) list) result" where
  "inputs_loop sch mask_shares n_inputs [] received m =
     (if n_inputs \<le> received then Ok m else Err (JSONError SubscriptionEnded))"
| "inputs_loop sch mask_shares n_inputs (item # items) received m =
     (if n_inputs \<le> received then Ok m
      else case item of
        Received (MaskedInputEvent client masked_inputs) \<Rightarrow>
          and_then (unmask_inputs sch mask_shares client masked_inputs m)
            (inputs_loop sch mask_shares n_inputs items (received + of_nat (length masked_inputs)))
      | _ \<Rightarrow> Err (JSONError SubscriptionEnded))"

definition wait_for_inputs ::
  "('s, 'v) share_scheme \<Rightarrow> u64 \<Rightarrow> 's list \<Rightarrow> Event item list option
    \<Rightarrow> (CoordinatorError, ClientIdentity \<rightharpoonup> 's list) result" where
  "wait_for_inputs sch n_inputs mask_shares sub =
     (case sub of
        None \<Rightarrow> Err (JSONError RemoteCallFailed)
      | Some items \<Rightarrow>
          and_then (inputs_loop sch mask_shares n_inputs items 0 Map.empty) (\<lambda>m.
            Ok (\<lambda>client. map_option (\<lambda>indexed_inputs.
              map snd (sort_key (\<lambda>(reserved_index, _). unat reserved_index) indexed_inputs)) (m client))))"

definition wait_for_round :: "Event item list option \<Rightarrow> (CoordinatorError, unit) result" where
  "wait_for_round sub =
     (case sub of
        None \<Rightarrow> Err (JSONError RemoteCallFailed)
      | Some (Received _ # _) \<Rightarrow> Ok ()
      | Some _ \<Rightarrow> Err (JSONError SubscriptionEnded))"

section \<open>Outputs\<close>

definition ENC_INFO :: string where
  "ENC_INFO = ''StoffelOutputShareEncryption''"

definition execution_enc_info :: "ExecutionId \<Rightarrow> bytes" where
  "execution_enc_info e = map of_char ENC_INFO @ as_bytes e"

fun open_shares ::
  "('sk, 'pk, 'ek) hpke \<Rightarrow> ('s, 'v) share_scheme \<Rightarrow> 'sk \<Rightarrow> bytes \<Rightarrow> u64 \<Rightarrow> enc_share list
    \<Rightarrow> (CoordinatorError, 's list list) result" where
  "open_shares h sch client_sk enc_info n_outputs [] = Ok []"
| "open_shares h sch client_sk enc_info n_outputs ((encapped_key_bytes, c) # rest) =
     (case ek_from_bytes h encapped_key_bytes of
        None \<Rightarrow> Err ParsingEncapsulatedKeyFailed
      | Some encapped_key \<Rightarrow>
          (case single_shot_open h client_sk encapped_key enc_info c of
             None \<Rightarrow> Err DecryptionError
           | Some output_shares_bytes \<Rightarrow>
               (case deserialize_shares sch output_shares_bytes of
                  None \<Rightarrow> Err DeserializationError
                | Some shares \<Rightarrow>
                    and_then (open_shares h sch client_sk enc_info n_outputs rest) (\<lambda>output_shares.
                      Ok (if of_nat (length shares) \<noteq> n_outputs then output_shares
                          else shares # output_shares)))))"

definition recover_outputs ::
  "('s, 'v) share_scheme \<Rightarrow> usize \<Rightarrow> usize \<Rightarrow> nat \<Rightarrow> 's list list \<Rightarrow> 'v list" where
  "recover_outputs sch n t n_outputs output_shares =
     List.map_filter (\<lambda>i. recover_secret sch (map (\<lambda>shares. shares ! i) output_shares) n t) [0..<n_outputs]"

fun outputs_loop ::
  "('sk, 'pk, 'ek) hpke \<Rightarrow> ('s, 'v) share_scheme \<Rightarrow> OffChainCoordinatorClient \<Rightarrow> 'sk \<Rightarrow> enc_share list item list
    \<Rightarrow> (CoordinatorError, 'v list) result" where
  "outputs_loop h sch cl client_sk (Received enc_output_shares # items) =
     (if length enc_output_shares < unat (min_shares sch (cl_t cl))
      then Err (SubscriptionError (TooFewOutputShares (length enc_output_shares) (unat (min_shares sch (cl_t cl)))))
      else
        and_then (open_shares h sch client_sk (execution_enc_info (cl_execution_id cl)) (cl_n_outputs cl) enc_output_shares)
          (\<lambda>output_shares.
            let outputs = recover_outputs sch (cl_n_parties cl) (cl_t cl) (unat (cl_n_outputs cl)) output_shares in
            if length outputs = unat (cl_n_outputs cl) then Ok outputs
            else outputs_loop h sch cl client_sk items))"
| "outputs_loop h sch cl client_sk _ = Err (JSONError OutputSubscriptionEnded)"

definition obtain_outputs ::
  "('sk, 'pk, 'ek) hpke \<Rightarrow> ('s, 'v) share_scheme \<Rightarrow> OffChainCoordinatorClient \<Rightarrow> enc_share list item list option
    \<Rightarrow> (CoordinatorError, 'v list) result" where
  "obtain_outputs h sch cl sub =
     (case sub of
        None \<Rightarrow> Err (JSONError RemoteCallFailed)
      | Some items \<Rightarrow>
          (case from_pkcs8_der h (cl_key_der cl) of
             None \<Rightarrow> Err ParsingDERAsPKCS8Failed
           | Some raw_sk \<Rightarrow>
               (case sk_from_bytes h raw_sk of
                  None \<Rightarrow> Err ParsingPrivateKeyFailed
                | Some client_sk \<Rightarrow> outputs_loop h sch cl client_sk items)))"

text \<open>
  What a party sends to an output client: the shares under the key of the client's browser session
  if it has one, and under \<open>key\<close> otherwise. \<open>seed\<close> is the randomness of the encryption; \<open>lookup\<close> and
  \<open>l\<close> are the fates of the two calls.
\<close>

definition seal_shares ::
  "('sk, 'pk, 'ek) hpke \<Rightarrow> ('s, 'v) share_scheme \<Rightarrow> nat \<Rightarrow> ExecutionId \<Rightarrow> bytes \<Rightarrow> 's list
    \<Rightarrow> (CoordinatorError, enc_share) result" where
  "seal_shares h sch seed e encryption_key output_shares =
     (case pk_from_bytes h encryption_key of
        None \<Rightarrow> Err ParsingPublicKeyFailed
      | Some client_pk \<Rightarrow>
          (case serialize_shares sch output_shares of
             None \<Rightarrow> Err SerializationError
           | Some output_shares_bytes \<Rightarrow>
               (case single_shot_seal h seed client_pk (execution_enc_info e) output_shares_bytes of
                  None \<Rightarrow> Err EncryptionError
                | Some c \<Rightarrow> Ok c)))"

definition client_send_output_shares ::
  "('sk, 'pk, 'ek) hpke \<Rightarrow> ('s, 'v) share_scheme \<Rightarrow> nat \<Rightarrow> (sink \<Rightarrow> message \<Rightarrow> bool) \<Rightarrow> (sink \<Rightarrow> bool) \<Rightarrow> link \<Rightarrow> link
    \<Rightarrow> OffChainCoordinatorClient \<Rightarrow> ClientIdentity \<Rightarrow> bytes \<Rightarrow> 's list \<Rightarrow> CoordinatorRPCServerSharedBase
    \<Rightarrow> unit outcome" where
  "client_send_output_shares h sch seed ok closed lookup l cl client_id key output_shares s =
     (let encryption_key =
            (case fst (remote lookup (resolve_output_encryption_key (cl_execution_id cl) client_id s) s) of
               Ok (Some session_key) \<Rightarrow> session_key
             | _ \<Rightarrow> key)
      in case seal_shares h sch seed (cl_execution_id cl) encryption_key output_shares of
           Ok c \<Rightarrow>
             remote l (send_output_shares ok closed (cl_identity cl) (cl_execution_id cl) client_id c s) s
         | Err e \<Rightarrow> (Err e, s, [])
         | Panic \<Rightarrow> (Panic, s, []))"

section \<open>A one-off coordinator\<close>

text \<open>
  The wait of \<open>start_coord_one_off\<close> after the shutdown request: the coordinator's states at the
  successive polls, as many as fit into the grace period. The listener is shut down in any case;
  the result says whether every party had acknowledged, and if not how many had.
\<close>

fun drain :: "ExecutionId \<Rightarrow> CoordinatorRPCServerSharedBase list \<Rightarrow> bool" where
  "drain e [] = False"
| "drain e (s # polls) = (snd (snd (retirement_progress s e)) \<or> drain e polls)"

definition one_off_shutdown ::
  "ExecutionId \<Rightarrow> CoordinatorRPCServerSharedBase list \<Rightarrow> CoordinatorRPCServerSharedBase \<Rightarrow> (nat \<times> nat) option" where
  "one_off_shutdown e polls final =
     (if drain e polls then None
      else let (acknowledged, parties, _) = retirement_progress final e in Some (acknowledged, parties))"

end
