(* ===== verification/Coord_Service.thy ===== *)
theory Coord_Service
  imports Run_Coord Rpc_Transport Browser_Rpc Coord_Client
begin

text \<open>
  The coordinator as a running service: \<open>OffChainCoordinatorServer\<close> of \<^verbatim>\<open>crates/off-chain/src/lib.rs\<close>,
  which puts the native listener and, if asked to, the browser listener in front of one shared
  state, the RPC interface those listeners serve, \<open>RPCServerHandle\<close> of
  \<^verbatim>\<open>crates/coord-shared/src/rpc.rs\<close>, and \<open>run_coord\<close> and \<open>run_coord_one_off\<close> of
  \<^verbatim>\<open>crates/bins/src/bin/run-coord.rs\<close>, which complete \<open>main\<close>.

  A listener is its function from the events it has seen to its state, together with those events.
  The record \<open>platform\<close> collects the parameters of the parts: TLS, binding an address (the error, if
  it fails), the TLS handshake, hashing and signatures, files and paths.
\<close>

section \<open>The RPC interface\<close>

text \<open>
  One constructor per method of \<open>CoordinatorRPCBase\<close> and of \<open>StoffelCoordinatorRPC\<close>. A subscription
  brings the sink its handshake ends with, if it does not fail.
\<close>

datatype coordinator_call =
    RegisterExecution ExecutionRegistration
  | RetireExecution ExecutionId
  | RequestShutdown
  | SubRound ExecutionId Round "sink option"
  | SubReservedIndices ExecutionId "sink option"
  | SubMaskedInputs ExecutionId "sink option"
  | SubAssignedReservedIndices ExecutionId "sink option"
  | SubAssignedMaskedInputs ExecutionId "sink option"
  | AvailableInputMasks ExecutionId
  | ReserveMaskIndex ExecutionId u64
  | ReserveMaskIndices ExecutionId "u64 list"
  | SubmitMaskedInput ExecutionId bytes u64
  | SubmitMaskedInputs ExecutionId "bytes list" "u64 list"
  | Transition ExecutionId Round
  | SendOutputShares ExecutionId ClientIdentity enc_share
  | ResolveOutputEncryptionKey ExecutionId ClientIdentity
  | ObtainOutputShares ExecutionId "sink option"

datatype stoffel_call =
    StartPreprocessing ExecutionId
  | ReserveInputMasks ExecutionId
  | CollectInputs ExecutionId
  | StartMpc ExecutionId
  | SendOutput ExecutionId
  | Finalize ExecutionId

datatype coordinator_answer = Done | InputMasks u64 | OutputKey "bytes option"

record net =
  net_ok :: "sink \<Rightarrow> message \<Rightarrow> bool"
  net_closed :: "sink \<Rightarrow> bool"

definition answered :: "('a \<Rightarrow> coordinator_answer) \<Rightarrow> 'a reply \<Rightarrow> coordinator_answer reply" where
  "answered f reply = (and_then (fst reply) (\<lambda>x. Ok (f x)), snd reply)"

abbreviation acknowledged :: "unit reply \<Rightarrow> coordinator_answer reply" where
  "acknowledged \<equiv> answered (\<lambda>_. Done)"

fun serve_call ::
  "net \<Rightarrow> ClientIdentity \<Rightarrow> coordinator_call \<Rightarrow> CoordinatorRPCServerSharedBase \<Rightarrow> coordinator_answer reply" where
  "serve_call net caller (RegisterExecution registration) s = acknowledged (rpc_register_execution caller registration s)"
| "serve_call net caller (RetireExecution e) s = acknowledged (rpc_retire_execution caller e s)"
| "serve_call net caller RequestShutdown s = acknowledged (request_shutdown caller s)"
| "serve_call net caller (SubRound e r accepted) s = acknowledged (sub_round accepted e r s)"
| "serve_call net caller (SubReservedIndices e accepted) s = acknowledged (sub_reserved_indices (net_ok net) accepted e s)"
| "serve_call net caller (SubMaskedInputs e accepted) s = acknowledged (sub_masked_inputs (net_ok net) accepted e s)"
| "serve_call net caller (SubAssignedReservedIndices e accepted) s =
     acknowledged (sub_assigned_reserved_indices (net_ok net) accepted e s)"
| "serve_call net caller (SubAssignedMaskedInputs e accepted) s =
     acknowledged (sub_assigned_masked_inputs (net_ok net) accepted e s)"
| "serve_call net caller (AvailableInputMasks e) s = answered InputMasks (available_input_masks e s)"
| "serve_call net caller (ReserveMaskIndex e i) s = acknowledged (reserve_mask_index (net_ok net) caller e i s)"
| "serve_call net caller (ReserveMaskIndices e indices) s =
     acknowledged (reserve_mask_indices (net_ok net) caller e indices s)"
| "serve_call net caller (SubmitMaskedInput e masked_input i) s =
     acknowledged (submit_masked_input (net_ok net) caller e masked_input i s)"
| "serve_call net caller (SubmitMaskedInputs e masked_inputs indices) s =
     acknowledged (submit_masked_inputs (net_ok net) caller e masked_inputs indices s)"
| "serve_call net caller (Transition e r) s = acknowledged (rpc_transition caller e r s)"
| "serve_call net caller (SendOutputShares e client enc_shares) s =
     acknowledged (send_output_shares (net_ok net) (net_closed net) caller e client enc_shares s)"
| "serve_call net caller (ResolveOutputEncryptionKey e client) s =
     answered OutputKey (resolve_output_encryption_key e client s)"
| "serve_call net caller (ObtainOutputShares e accepted) s =
     acknowledged (obtain_output_shares (net_ok net) (net_closed net) accepted caller e s)"

fun serve_stoffel_call ::
  "ClientIdentity \<Rightarrow> stoffel_call \<Rightarrow> CoordinatorRPCServerSharedBase \<Rightarrow> unit reply" where
  "serve_stoffel_call caller (StartPreprocessing e) s = connection_start_preprocessing caller e s"
| "serve_stoffel_call caller (ReserveInputMasks e) s = connection_reserve_input_masks caller e s"
| "serve_stoffel_call caller (CollectInputs e) s = connection_collect_inputs caller e s"
| "serve_stoffel_call caller (StartMpc e) s = connection_start_mpc caller e s"
| "serve_stoffel_call caller (SendOutput e) s = connection_send_output caller e s"
| "serve_stoffel_call caller (Finalize e) s = connection_finalize caller e s"

text \<open>The batch that a call submits.\<close>

fun submission :: "coordinator_call \<Rightarrow> (ExecutionId \<times> bytes list \<times> u64 list) option" where
  "submission (SubmitMaskedInput e masked_input i) = Some (e, [masked_input], [i])"
| "submission (SubmitMaskedInputs e masked_inputs indices) = Some (e, masked_inputs, indices)"
| "submission _ = None"

section \<open>Sections of a call\<close>

text \<open>
  What one locked section of the call \<open>call\<close>, made by \<open>caller\<close>, does to the shared state: the whole
  call, or one of the sections into which the handlers for inputs and for output shares fall. The
  later sections come with any sinks, as in \<open>coord_step\<close>.
\<close>

inductive call_section ::
  "ClientIdentity \<Rightarrow> coordinator_call + stoffel_call \<Rightarrow> CoordinatorRPCServerSharedBase
    \<Rightarrow> CoordinatorRPCServerSharedBase \<Rightarrow> bool" for caller :: ClientIdentity where
  sec_call: "call_section caller (Inl call) s (fst (snd (serve_call net caller call s)))"
| sec_stoffel: "call_section caller (Inr call) s (fst (snd (serve_stoffel_call caller call s)))"
| sec_submit: "submission call = Some (e, masked_inputs, indices) \<Longrightarrow> map_of (srv_executions s) e = Some d \<Longrightarrow>
    call_section caller (Inl call) s (put_execution e (snd (submit_record caller masked_inputs indices d)) s)"
| sec_advance: "submission call = Some (e, masked_inputs, indices) \<Longrightarrow> map_of (srv_executions s) e = Some d \<Longrightarrow>
    srv_mpc_nodes s = roster_head # rest \<Longrightarrow>
    call_section caller (Inl call) s
      (put_execution e (fst (snd (submit_finish ok (transition_quorum s) roster_head p d))) s)"
| sec_record_output: "map_of (srv_executions s) e = Some d \<Longrightarrow>
    call_section caller (Inl (SendOutputShares e client shares)) s
      (put_execution e (snd (record_output_shares (caller \<in> set (srv_mpc_nodes s)) caller client shares d)) s)"
| sec_wait_output: "map_of (srv_executions s) e = Some d \<Longrightarrow>
    call_section caller (Inl (ObtainOutputShares e accepted)) s
      (put_execution e (snd (wait_for_output closed caller k d)) s)"
| sec_snapshot: "call = SendOutputShares e client shares \<or> call = ObtainOutputShares e accepted \<Longrightarrow>
    map_of (srv_executions s) e = Some d \<Longrightarrow>
    call_section caller (Inl call) s (put_execution e (snd (ready_output_snapshot closed client' m d)) s)"
| sec_forget: "call = SendOutputShares e client shares \<or> call = ObtainOutputShares e accepted \<Longrightarrow>
    map_of (srv_executions s) e = Some d \<Longrightarrow>
    call_section caller (Inl call) s (put_execution e (forget_output_waiter client' k d) s)"

text \<open>
  A section of a browser method: the authentication, a section of the reservation or submission the
  method makes for the identity it has authenticated, the pinning after a submission, and the
  commit of a bind. The views change nothing.
\<close>

inductive method_section ::
  "('vk, 'sig) crypto \<Rightarrow> u64 \<Rightarrow> CoordinatorBrowserState \<Rightarrow> CoordinatorBrowserState \<Rightarrow> bool"
  for c :: "('vk, 'sig) crypto" and now :: u64 where
  msec_authenticate: "method_section c now st
    (st\<lparr>cb_nonces := snd (authenticate c now rpc_method call (cb_nonces st)
       (srv_webauthn_bindings (cb_coordinator st)))\<rparr>)"
| msec_call: "call = ReserveMaskIndices e indices \<or> submission call = Some (e, masked_inputs, indices) \<Longrightarrow>
    call_section identity (Inl call) (cb_coordinator st) s \<Longrightarrow>
    method_section c now st (st\<lparr>cb_coordinator := s\<rparr>)"
| msec_pin: "method_section c now st (st\<lparr>cb_coordinator := (cb_coordinator st)\<lparr>srv_webauthn_bindings :=
    pin_binding_from_token (srv_webauthn_bindings (cb_coordinator st)) e session_token\<rparr>\<rparr>)"
| msec_bind: "verify_webauthn_assertion c (bwi_assertion call) client_identity (cb_rp_id_hash st) (cb_origin st)
      (webauthn_bind_challenge c (bwi_ecdsa_public_key call) (bwi_ecdh_public_key call)) = Some sign_count \<Longrightarrow>
    bind_commit c draws call client_identity sign_count st = Some (r, st') \<Longrightarrow> method_section c now st st'"

section \<open>The server\<close>

record ('tcp, 'id) RPCServerHandle =
  rh_run :: "'tcp listener_event list \<Rightarrow> 'id listener_state"
  rh_events :: "'tcp listener_event list"

definition handle_start :: "('tcp listener_event list \<Rightarrow> 'id listener_state) \<Rightarrow> ('tcp, 'id) RPCServerHandle" where
  "handle_start run = \<lparr>rh_run = run, rh_events = []\<rparr>"

definition handle_event :: "'tcp listener_event \<Rightarrow> ('tcp, 'id) RPCServerHandle \<Rightarrow> ('tcp, 'id) RPCServerHandle" where
  "handle_event event h = h\<lparr>rh_events := rh_events h @ [event]\<rparr>"

definition handle_connections :: "('tcp, 'id) RPCServerHandle \<Rightarrow> (nat \<times> 'id) list" where
  "handle_connections h = ln_connections (rh_run h (rh_events h))"

text \<open>Both \<open>shutdown\<close> and dropping the handle send the signal and leave no connection behind.\<close>

definition handle_shutdown :: "('tcp, 'id) RPCServerHandle \<Rightarrow> ('tcp, 'id) RPCServerHandle" where
  "handle_shutdown h = handle_event ShutdownReceived h"

record 'tcp OffChainCoordinatorServer =
  os_addr :: string
  os_shared :: CoordinatorRPCServerSharedBase
  os_server_handle :: "('tcp, bytes) RPCServerHandle"
  os_browser_handle :: "(('tcp, unit) RPCServerHandle \<times> CoordinatorBrowserState) option"

record ('dss, 'tcp, 'vk, 'sig, 'p) platform =
  pf_tls :: "'dss tls"
  pf_bind :: "string \<Rightarrow> u16 \<Rightarrow> string option"
  pf_accept :: "ServerConfig \<Rightarrow> 'tcp \<Rightarrow> bytes list option option"
  pf_crypto :: "('vk, 'sig) crypto"
  pf_files :: "'p file_system"
  pf_path :: "string \<Rightarrow> 'p"

definition native_listener ::
  "('dss, 'tcp, 'vk, 'sig, 'p) platform \<Rightarrow> string \<Rightarrow> u16 \<Rightarrow> bytes \<Rightarrow> bytes
    \<Rightarrow> (CoordinatorError, ('tcp, bytes) RPCServerHandle) result" where
  "native_listener pf addr port cert_der key_der =
     and_then (start_coord (pf_tls pf) (pf_bind pf addr port) (pf_accept pf) cert_der key_der) (\<lambda>run. Ok (handle_start run))"

definition offchain_start_coord ::
  "('dss, 'tcp, 'vk, 'sig, 'p) platform \<Rightarrow> CoordinatorRPCServerSharedBase \<Rightarrow> string \<Rightarrow> u16 \<Rightarrow> bytes \<Rightarrow> bytes
    \<Rightarrow> (CoordinatorError, 'tcp OffChainCoordinatorServer) result" where
  "offchain_start_coord pf shared addr port cert_der key_der =
     and_then (native_listener pf addr port cert_der key_der) (\<lambda>server_handle.
       Ok \<lparr>os_addr = addr, os_shared = shared, os_server_handle = server_handle, os_browser_handle = None\<rparr>)"

definition start_coord_with_browser_tls ::
  "('dss, 'tcp, 'vk, 'sig, 'p) platform \<Rightarrow> CoordinatorRPCServerSharedBase \<Rightarrow> string \<Rightarrow> u16 \<Rightarrow> bytes \<Rightarrow> bytes
    \<Rightarrow> string \<Rightarrow> u16 \<Rightarrow> bytes \<Rightarrow> bytes \<Rightarrow> string \<Rightarrow> ('p \<times> 'p) option
    \<Rightarrow> (CoordinatorError, 'tcp OffChainCoordinatorServer) result" where
  "start_coord_with_browser_tls pf shared addr port cert_der key_der browser_addr browser_port browser_cert_chain_pem
       browser_key_pem webauthn_rp_id client_credential_id_dirs =
     and_then (native_listener pf addr port cert_der key_der) (\<lambda>server_handle.
     and_then (start_coord_browser_tls (pf_tls pf) (pf_bind pf browser_addr browser_port) (pf_accept pf)
         browser_cert_chain_pem browser_key_pem) (\<lambda>run.
       Ok \<lparr>os_addr = addr, os_shared = shared, os_server_handle = server_handle,
           os_browser_handle = Some (handle_start run,
             coordinator_browser_methods (pf_crypto pf) (pf_files pf) shared webauthn_rp_id client_credential_id_dirs)\<rparr>))"

definition server_shutdown :: "'tcp OffChainCoordinatorServer \<Rightarrow> 'tcp OffChainCoordinatorServer" where
  "server_shutdown sv =
     (let sv1 = sv\<lparr>os_browser_handle := map_option (\<lambda>(h, st). (handle_shutdown h, st)) (os_browser_handle sv)\<rparr>
      in sv1\<lparr>os_server_handle := handle_shutdown (os_server_handle sv1)\<rparr>)"

section \<open>The program\<close>

definition run_coord ::
  "('dss, 'tcp, 'vk, 'sig, 'p) platform \<Rightarrow> CoordinatorRPCServerSharedBase \<Rightarrow> listener \<Rightarrow> BrowserTls option
    \<Rightarrow> ('e, 'tcp OffChainCoordinatorServer) result" where
  "run_coord pf server_state at tls =
     expect (case tls of
       Some b \<Rightarrow>
         start_coord_with_browser_tls pf server_state (ls_addr at) (ls_port at) (ls_server_cert_der at)
           (ls_server_key_der at) (bt_addr b) (bt_port b) (bt_cert_chain_pem b) (bt_key_pem b) (bt_webauthn_rp_id b)
           (map_option (\<lambda>(cert_dir, credential_id_dir). (pf_path pf cert_dir, pf_path pf credential_id_dir))
             (bt_client_credential_id_dirs b))
     | None \<Rightarrow>
         offchain_start_coord pf server_state (ls_addr at) (ls_port at) (ls_server_cert_der at) (ls_server_key_der at))"

text \<open>
  The one-off coordinator up to the point where it waits for the shutdown request. What it does
  then is \<open>one_off_finish\<close>, on the states of the server at the moment the request came, at the polls
  and at the end.
\<close>

definition run_coord_one_off ::
  "('dss, 'tcp, 'vk, 'sig, 'p) platform \<Rightarrow> CoordinatorRPCServerSharedBase \<Rightarrow> listener \<Rightarrow> ExecutionId
    \<Rightarrow> ('e, 'tcp OffChainCoordinatorServer) result" where
  "run_coord_one_off pf server_state at execution_id =
     expect (offchain_start_coord pf (watch_for_shutdown_request execution_id server_state) (ls_addr at) (ls_port at)
       (ls_server_cert_der at) (ls_server_key_der at))"

definition one_off_finish ::
  "ExecutionId \<Rightarrow> 'tcp OffChainCoordinatorServer list \<Rightarrow> 'tcp OffChainCoordinatorServer
    \<Rightarrow> (nat \<times> nat) option \<times> 'tcp OffChainCoordinatorServer" where
  "one_off_finish execution_id polls sv =
     (one_off_shutdown execution_id (map os_shared polls) (os_shared sv), server_shutdown sv)"

definition coordinator_program ::
  "('dss, 'tcp, 'vk, 'sig, 'p) platform \<Rightarrow> ('i, 'o) host \<Rightarrow> Args \<Rightarrow> ('e, 'tcp OffChainCoordinatorServer) result" where
  "coordinator_program pf host args =
     and_then (run_coord_main host args) (\<lambda>(server_state, at, mode).
       case mode of
         RunStanding tls \<Rightarrow> run_coord pf server_state at tls
       | RunOneOff execution_id grace_secs \<Rightarrow> run_coord_one_off pf server_state at execution_id)"

section \<open>Runs of the server\<close>

text \<open>
  An action of the server is an event of a listener, a section of a call on an open connection of
  the native listener, a section of a method on an open connection of the browser listener, the
  unspecified order of the hash map, or the shutdown. The two listeners work on one shared state.
\<close>

datatype 'tcp action =
    NativeEvent "'tcp listener_event"
  | NativeCall nat "coordinator_call + stoffel_call"
  | BrowserEvent "'tcp listener_event"
  | BrowserMethod nat
  | HashOrder
  | ServerShutdown

inductive server_step ::
  "('vk, 'sig) crypto \<Rightarrow> 'tcp OffChainCoordinatorServer \<Rightarrow> 'tcp action \<Rightarrow> 'tcp OffChainCoordinatorServer \<Rightarrow> bool"
  for c :: "('vk, 'sig) crypto" where
  sv_native_event: "server_step c sv (NativeEvent event) (sv\<lparr>os_server_handle := handle_event event (os_server_handle sv)\<rparr>)"
| sv_native_call: "(k, caller) \<in> set (handle_connections (os_server_handle sv)) \<Longrightarrow>
    call_section caller call (os_shared sv) s \<Longrightarrow>
    server_step c sv (NativeCall k call) (sv\<lparr>os_shared := s\<rparr>)"
| sv_browser_event: "os_browser_handle sv = Some (h, st) \<Longrightarrow>
    server_step c sv (BrowserEvent event) (sv\<lparr>os_browser_handle := Some (handle_event event h, st)\<rparr>)"
| sv_browser_method: "os_browser_handle sv = Some (h, st) \<Longrightarrow> (k, ()) \<in> set (handle_connections h) \<Longrightarrow>
    method_section c now (st\<lparr>cb_coordinator := os_shared sv\<rparr>) st' \<Longrightarrow>
    server_step c sv (BrowserMethod k)
      (sv\<lparr>os_shared := cb_coordinator st', os_browser_handle := Some (h, st')\<rparr>)"
| sv_hash_order: "mset xs = mset (srv_executions (os_shared sv)) \<Longrightarrow>
    server_step c sv HashOrder (sv\<lparr>os_shared := (os_shared sv)\<lparr>srv_executions := xs\<rparr>\<rparr>)"
| sv_shutdown: "server_step c sv ServerShutdown (server_shutdown sv)"

inductive server_run ::
  "('vk, 'sig) crypto \<Rightarrow> 'tcp OffChainCoordinatorServer \<Rightarrow> 'tcp action list \<Rightarrow> 'tcp OffChainCoordinatorServer \<Rightarrow> bool"
  for c :: "('vk, 'sig) crypto" and sv0 :: "'tcp OffChainCoordinatorServer" where
  run_start: "server_run c sv0 [] sv0"
| run_action: "server_run c sv0 trace sv \<Longrightarrow> server_step c sv a sv' \<Longrightarrow> server_run c sv0 (trace @ [a]) sv'"

end
