(* ===== verification/Onchain_Node.thy ===== *)
theory Onchain_Node
  imports Coord_Shared
begin

text \<open>
  The node side of the on-chain coordinator, module \<open>node_rpc\<close> of \<^verbatim>\<open>crates/on-chain/src/lib.rs\<close>: a node
  hands a client the share of the mask whose index the client's Ethereum address has reserved, once
  the client has signed the index with the key of that address. The reservation, the share and the
  client's request arrive in any order.

  The record \<open>eth\<close> is the code of the crates \<open>alloy\<close> and \<open>alloy-primitives\<close> that is used; \<open>wire\<close> holds
  the serialisation of a share and its conversion to JSON. A panicking \<open>assert\<close> leaves the changes
  made before it: the mutex is not poisoned.
\<close>

section \<open>Third-party code\<close>

type_synonym Address = bytes

type_synonym sink_id = nat

record ('sk, 'sig) eth =
  signature_from_raw :: "bytes \<Rightarrow> 'sig option"
  recover_address_from_msg :: "'sig \<Rightarrow> bytes \<Rightarrow> Address option"
  keccak256 :: "bytes \<Rightarrow> bytes"
  abi_encode_u64 :: "u64 \<Rightarrow> bytes"
  sign_message :: "'sk \<Rightarrow> bytes \<Rightarrow> 'sig option"
  signer_address :: "'sk \<Rightarrow> Address"
  signature_as_bytes :: "'sig \<Rightarrow> bytes"

record ('s, 'j) wire =
  serialize_share :: "'s \<Rightarrow> bytes option"
  to_json_raw_value :: "bytes \<Rightarrow> 'j option"

section \<open>Signatures\<close>

text \<open>The digest that is signed; the sum of the two \<open>u64\<close> wraps around.\<close>

definition index_digest :: "('sk, 'sig) eth \<Rightarrow> u64 \<Rightarrow> u64 \<Rightarrow> bytes" where
  "index_digest c base_nonce i = keccak256 c (abi_encode_u64 c (base_nonce + i))"

definition verify_client_sig :: "('sk, 'sig) eth \<Rightarrow> u64 \<Rightarrow> u64 \<Rightarrow> Address \<Rightarrow> bytes \<Rightarrow> bool option" where
  "verify_client_sig c base_nonce i addr sig_bytes =
     (case signature_from_raw c sig_bytes of
        None \<Rightarrow> None
      | Some sig \<Rightarrow>
          (case recover_address_from_msg c sig (index_digest c base_nonce i) of
             None \<Rightarrow> None
           | Some sig_addr \<Rightarrow> Some (sig_addr = addr)))"

definition generate_client_sig :: "('sk, 'sig) eth \<Rightarrow> u64 \<Rightarrow> u64 \<Rightarrow> 'sk \<Rightarrow> 'sig option" where
  "generate_client_sig c base_nonce i signer = sign_message c signer (index_digest c base_nonce i)"

text \<open>\<open>unwrap_or(false)\<close>.\<close>

definition signature_ok :: "('sk, 'sig) eth \<Rightarrow> u64 \<Rightarrow> u64 \<Rightarrow> Address \<Rightarrow> bytes \<Rightarrow> bool" where
  "signature_ok c base_nonce i addr sig_bytes = (verify_client_sig c base_nonce i addr sig_bytes = Some True)"

section \<open>The state of a node\<close>

type_synonym client_entry = "bytes \<times> Address \<times> bytes option"

record 's NodeRPCServerShared =
  oc_index_to_client :: "u64 \<rightharpoonup> Address"
  oc_client_to_index :: "Address \<rightharpoonup> u64"
  oc_authenticated :: "Address set"
  oc_sinks :: "Address \<rightharpoonup> sink_id"
  oc_mask_shares :: "u64 \<rightharpoonup> 's"
  oc_ids_and_addrs :: "client_entry list"
  oc_base_nonce :: u64

definition onchain_node_new :: "u64 \<Rightarrow> 's NodeRPCServerShared" where
  "onchain_node_new base_nonce =
     \<lparr>oc_index_to_client = Map.empty, oc_client_to_index = Map.empty, oc_authenticated = {}, oc_sinks = Map.empty,
      oc_mask_shares = Map.empty, oc_ids_and_addrs = [], oc_base_nonce = base_nonce\<rparr>"

definition ids_and_addrs :: "'s NodeRPCServerShared \<Rightarrow> (bytes \<times> Address) list" where
  "ids_and_addrs d =
     map (\<lambda>(id, addr, _). (id, addr)) (filter (\<lambda>(_, _, sig). sig = None) (oc_ids_and_addrs d))"

section \<open>Operations\<close>

text \<open>Serialise a share and send it to a sink; \<open>ok\<close> says whether the send succeeds.\<close>

definition send_share ::
  "('s, 'j) wire \<Rightarrow> (sink_id \<Rightarrow> 'j \<Rightarrow> bool) \<Rightarrow> sink_id \<Rightarrow> 's
    \<Rightarrow> (NodeRPCError, unit) result \<times> (sink_id \<times> 'j) list" where
  "send_share w ok k share =
     (case serialize_share w share of
        None \<Rightarrow> (Err NodeSerializationError, [])
      | Some share_bytes \<Rightarrow>
          (case to_json_raw_value w share_bytes of
             None \<Rightarrow> (Err NodeSerializationError, [])
           | Some json \<Rightarrow> (if ok k json then Ok () else Err NodeJSONError, [(k, json)])))"

type_synonym ('s, 'j) node_outcome =
  "(NodeRPCError, unit) result \<times> 's NodeRPCServerShared \<times> (sink_id \<times> 'j) list"

text \<open>The first entry of an address, and \<open>entry.2.take()\<close> on it.\<close>

definition find_entry :: "Address \<Rightarrow> client_entry list \<Rightarrow> client_entry option" where
  "find_entry addr entries = find (\<lambda>(_, a, _). a = addr) entries"

fun take_sig :: "Address \<Rightarrow> client_entry list \<Rightarrow> client_entry list" where
  "take_sig addr [] = []"
| "take_sig addr ((tls_id, a, sig) # entries) =
     (if a = addr then (tls_id, a, None) # entries else (tls_id, a, sig) # take_sig addr entries)"

definition add_reserved_index ::
  "('sk, 'sig) eth \<Rightarrow> ('s, 'j) wire \<Rightarrow> (sink_id \<Rightarrow> 'j \<Rightarrow> bool) \<Rightarrow> Address \<Rightarrow> u64 \<Rightarrow> 's NodeRPCServerShared
    \<Rightarrow> ('s, 'j) node_outcome" where
  "add_reserved_index c w ok addr i d =
     (if oc_index_to_client d i \<noteq> None then (Panic, d, [])
      else
        let d1 = d\<lparr>oc_index_to_client := (oc_index_to_client d)(i \<mapsto> addr),
                   oc_client_to_index := (oc_client_to_index d)(addr \<mapsto> i)\<rparr>
        in case find_entry addr (oc_ids_and_addrs d1) of
             None \<Rightarrow> (Ok (), d1, [])
           | Some (tls_id, _, None) \<Rightarrow> (Panic, d1, [])
           | Some (tls_id, _, Some sig_bytes) \<Rightarrow>
               let d2 = d1\<lparr>oc_ids_and_addrs := take_sig addr (oc_ids_and_addrs d1)\<rparr> in
               if \<not> signature_ok c (oc_base_nonce d2) i addr sig_bytes
               then (Err (AuthenticationFailed tls_id), d2, [])
               else
                 let d3 = d2\<lparr>oc_authenticated := insert addr (oc_authenticated d2)\<rparr> in
                 case (oc_mask_shares d3 i, oc_sinks d3 addr) of
                   (Some share, Some k) \<Rightarrow>
                     (let sent = send_share w ok k share in (fst sent, d3, snd sent))
                 | _ \<Rightarrow> (Ok (), d3, []))"

definition add_mask_share ::
  "('s, 'j) wire \<Rightarrow> (sink_id \<Rightarrow> 'j \<Rightarrow> bool) \<Rightarrow> u64 \<Rightarrow> 's \<Rightarrow> 's NodeRPCServerShared \<Rightarrow> ('s, 'j) node_outcome" where
  "add_mask_share w ok i share d =
     (if oc_mask_shares d i \<noteq> None then (Panic, d, [])
      else
        let d1 = d\<lparr>oc_mask_shares := (oc_mask_shares d)(i \<mapsto> share)\<rparr> in
        case oc_index_to_client d1 i of
          None \<Rightarrow> (Ok (), d1, [])
        | Some addr \<Rightarrow>
            if addr \<notin> oc_authenticated d1 then (Ok (), d1, [])
            else case oc_sinks d1 addr of
              None \<Rightarrow> (Ok (), d1, [])
            | Some k \<Rightarrow> (let sent = send_share w ok k share in (fst sent, d1, snd sent)))"

datatype OnChainNodeRPCServerError = OcSerializationError | OcEthereumError

text \<open>
  How a subscription call ends: rejected with an error object, dropped because the connection is
  gone, or served.
\<close>

datatype subscription_end =
    AlreadyRequested Address
  | AuthenticationRejected Address
  | RejectedServerError OnChainNodeRPCServerError
  | ConnectionGone
  | Served

definition receive_mask_share ::
  "('sk, 'sig) eth \<Rightarrow> ('s, 'j) wire \<Rightarrow> (sink_id \<Rightarrow> 'j \<Rightarrow> bool) \<Rightarrow> sink_id option \<Rightarrow> bytes \<Rightarrow> bytes \<Rightarrow> Address
    \<Rightarrow> 's NodeRPCServerShared \<Rightarrow> subscription_end \<times> 's NodeRPCServerShared \<times> (sink_id \<times> 'j) list" where
  "receive_mask_share c w ok accepted self_id sig_bytes addr d =
     (if \<exists>(id, prev_addr, _) \<in> set (oc_ids_and_addrs d). self_id = id \<or> addr = prev_addr
      then (AlreadyRequested addr, d, [])
      else
        let wait = (\<lambda>d pending_sig.
              case accepted of
                None \<Rightarrow> (ConnectionGone, d, [])
              | Some k \<Rightarrow>
                  (Served, d\<lparr>oc_sinks := (oc_sinks d)(addr \<mapsto> k),
                             oc_ids_and_addrs := oc_ids_and_addrs d @ [(self_id, addr, pending_sig)]\<rparr>, []))
        in case oc_client_to_index d addr of
             None \<Rightarrow> wait d (Some sig_bytes)
           | Some i \<Rightarrow>
               if \<not> signature_ok c (oc_base_nonce d) i addr sig_bytes then (AuthenticationRejected addr, d, [])
               else
                 let d1 = d\<lparr>oc_authenticated := insert addr (oc_authenticated d)\<rparr> in
                 case oc_mask_shares d1 i of
                   None \<Rightarrow> wait d1 None
                 | Some share \<Rightarrow>
                     (case Option.bind (serialize_share w share) (to_json_raw_value w) of
                        None \<Rightarrow> (RejectedServerError OcSerializationError, d1, [])
                      | Some json \<Rightarrow>
                          (case accepted of
                             None \<Rightarrow> (ConnectionGone, d1, [])
                           | Some k \<Rightarrow>
                               if ok k json
                               then (Served, d1\<lparr>oc_ids_and_addrs := oc_ids_and_addrs d1 @ [(self_id, addr, None)]\<rparr>, [(k, json)])
                               else (ConnectionGone, d1, [(k, json)]))))"

section \<open>Runs\<close>

text \<open>The calls that reach a node, in the order in which they take its lock.\<close>

datatype 's node_call =
    ReceiveMaskShare (call_sink: "sink_id option") (call_id: bytes) (call_sig: bytes) (call_addr: Address)
  | AddReservedIndex Address u64
  | AddMaskShare u64 's

fun node_handle ::
  "('sk, 'sig) eth \<Rightarrow> ('s, 'j) wire \<Rightarrow> (sink_id \<Rightarrow> 'j \<Rightarrow> bool) \<Rightarrow> 's node_call \<Rightarrow> 's NodeRPCServerShared
    \<Rightarrow> 's NodeRPCServerShared \<times> (sink_id \<times> 'j) list" where
  "node_handle c w ok (ReceiveMaskShare accepted self_id sig addr) d = snd (receive_mask_share c w ok accepted self_id sig addr d)"
| "node_handle c w ok (AddReservedIndex addr i) d = snd (add_reserved_index c w ok addr i d)"
| "node_handle c w ok (AddMaskShare i share) d = snd (add_mask_share w ok i share d)"

fun node_run ::
  "('sk, 'sig) eth \<Rightarrow> ('s, 'j) wire \<Rightarrow> (sink_id \<Rightarrow> 'j \<Rightarrow> bool) \<Rightarrow> 's node_call list \<Rightarrow> 's NodeRPCServerShared
    \<Rightarrow> 's NodeRPCServerShared \<times> (sink_id \<times> 'j) list" where
  "node_run c w ok [] d = (d, [])"
| "node_run c w ok (x # xs) d =
     (let (d1, ds1) = node_handle c w ok x d; (d2, ds2) = node_run c w ok xs d1 in (d2, ds1 @ ds2))"

section \<open>Receiving a mask\<close>

text \<open>
  \<open>NodeRPCClient::receive_mask\<close>: one subscription per node, \<open>None\<close> when it could not be opened, and
  the first item of each in the order in which they arrive, \<open>None\<close> when a subscription ended, broke
  or delivered something that is not a share. Every \<open>unwrap\<close> panics.
\<close>

fun receive_mask_loop ::
  "nat \<Rightarrow> ('s list \<Rightarrow> 'v option) \<Rightarrow> 's option list \<Rightarrow> 's list \<Rightarrow> (CoordinatorError, 'v) result" where
  "receive_mask_loop min_shares recover [] mask_shares = Err (MaskReconstructionFailed (length mask_shares))"
| "receive_mask_loop min_shares recover (None # replies) mask_shares = Panic"
| "receive_mask_loop min_shares recover (Some share # replies) mask_shares =
     (let mask_shares = mask_shares @ [share] in
      if min_shares \<le> length mask_shares
      then (case recover mask_shares of
              Some secret \<Rightarrow> Ok secret
            | None \<Rightarrow> Err (MaskReconstructionFailed (length mask_shares)))
      else receive_mask_loop min_shares recover replies mask_shares)"

definition receive_mask ::
  "nat \<Rightarrow> ('s list \<Rightarrow> 'v option) \<Rightarrow> bool list \<Rightarrow> 's option list \<Rightarrow> (CoordinatorError, 'v) result" where
  "receive_mask min_shares recover opened replies =
     (if False \<in> set opened then Panic else receive_mask_loop min_shares recover replies [])"

end
