(* ===== verification/Onchain_Client.thy ===== *)
theory Onchain_Client
  imports Onchain_Node Coord_Client
begin

text \<open>
  The client of the on-chain coordinator, \<open>OnChainCoordinator\<close> of \<^verbatim>\<open>crates/on-chain/src/lib.rs\<close>, which
  implements the trait \<open>Coordinator\<close> by calls to an Ethereum contract.

  The contract is not part of the repository. A method that calls it takes \<open>send\<close>, which says what
  becomes of a transaction: it cannot be sent, waiting for it fails, or it is included in a block,
  successfully or reverted. A method that watches events takes the list of events of one kind, \<open>None\<close>
  when the listener could not be set up; the list ends where the stream ends.
\<close>

section \<open>The contract\<close>

type_synonym u256 = "256 word"

datatype contract_call =
    StartPreprocessing | ReserveInputMasks | CollectInputs | StartMpc | SendOutputs | Finalize
  | ReserveMaskIndex u256
  | SubmitMaskedInput bytes u256
  | SendOutputShares Address bytes

datatype contract_error =
    IndexNotReserved Address u256
  | ZeroMaskedInput Address
  | AlreadySubmittedInputs Address
  | OtherContractError
  | NotDecodable

datatype tx_outcome = SendError contract_error | WatchError | Included bool

record OnChainCoordinator =
  on_contract_block :: u64
  on_n :: u64
  on_t :: u64
  on_n_outputs :: u64
  on_key_der :: "bytes option"

definition u256_to_u64 :: "u256 \<Rightarrow> u64 option" where
  "u256_to_u64 x = (if uint x < 2 ^ 64 then Some (ucast x) else None)"

definition on_chain_new :: "u256 option \<Rightarrow> u64 \<Rightarrow> u64 \<Rightarrow> u64 \<Rightarrow> bytes option \<Rightarrow> ('e, OnChainCoordinator) result" where
  "on_chain_new creation_block n t n_outputs key_der =
     (case Option.bind creation_block u256_to_u64 of
        None \<Rightarrow> Panic
      | Some contract_block \<Rightarrow>
          Ok \<lparr>on_contract_block = contract_block, on_n = n, on_t = t, on_n_outputs = n_outputs, on_key_der = key_der\<rparr>)"

definition base_nonce :: "u256 option \<Rightarrow> ('e, u64) result" where
  "base_nonce answer = (case Option.bind answer u256_to_u64 of None \<Rightarrow> Panic | Some x \<Rightarrow> Ok x)"

section \<open>Rounds\<close>

text \<open>\<open>send().await\<close> and \<open>watch().await\<close>; \<open>what\<close> is the text between the fixed parts of the two messages.\<close>

definition send_and_watch :: "string \<Rightarrow> tx_outcome \<Rightarrow> (CoordinatorError, unit) result" where
  "send_and_watch what outcome =
     (case outcome of
        Included _ \<Rightarrow> Ok ()
      | WatchError \<Rightarrow> Err (EthereumError (''error waiting for transaction to '' @ what @ '' to be mined''))
      | SendError _ \<Rightarrow> Err (EthereumError (''error sending transaction to '' @ what)))"

fun trigger_call :: "Round \<Rightarrow> contract_call option" where
  "trigger_call Idle = None"
| "trigger_call Preprocessing = Some StartPreprocessing"
| "trigger_call InputMaskReservation = Some ReserveInputMasks"
| "trigger_call InputCollection = Some CollectInputs"
| "trigger_call MPCExecution = Some StartMpc"
| "trigger_call OutputDistribution = Some SendOutputs"
| "trigger_call ProgramFinished = Some Finalize"

definition onchain_trigger_round :: "(contract_call \<Rightarrow> tx_outcome) \<Rightarrow> Round \<Rightarrow> (CoordinatorError, unit) result" where
  "onchain_trigger_round send round =
     (case trigger_call round of
        None \<Rightarrow> Panic
      | Some call \<Rightarrow> send_and_watch ''trigger input phase'' (send call))"

definition onchain_start_preprocessing :: "(contract_call \<Rightarrow> tx_outcome) \<Rightarrow> (CoordinatorError, unit) result" where
  "onchain_start_preprocessing send = send_and_watch ''start preprocessing'' (send StartPreprocessing)"

definition onchain_reserve_input_masks :: "(contract_call \<Rightarrow> tx_outcome) \<Rightarrow> (CoordinatorError, unit) result" where
  "onchain_reserve_input_masks send = send_and_watch ''reserve input masks'' (send ReserveInputMasks)"

definition onchain_collect_inputs :: "(contract_call \<Rightarrow> tx_outcome) \<Rightarrow> (CoordinatorError, unit) result" where
  "onchain_collect_inputs send = send_and_watch ''collect inputs'' (send CollectInputs)"

definition onchain_start_mpc :: "(contract_call \<Rightarrow> tx_outcome) \<Rightarrow> (CoordinatorError, unit) result" where
  "onchain_start_mpc send = send_and_watch ''start MPC'' (send StartMpc)"

definition onchain_send_output :: "(contract_call \<Rightarrow> tx_outcome) \<Rightarrow> (CoordinatorError, unit) result" where
  "onchain_send_output send = send_and_watch ''send outputs'' (send SendOutputs)"

definition onchain_finalize :: "(contract_call \<Rightarrow> tx_outcome) \<Rightarrow> (CoordinatorError, unit) result" where
  "onchain_finalize send = send_and_watch ''finalize'' (send Finalize)"

fun round_event_name :: "Round \<Rightarrow> string option" where
  "round_event_name Idle = None"
| "round_event_name Preprocessing = Some ''PreprocessingStarted''"
| "round_event_name InputCollection = Some ''InputCollectionStarted''"
| "round_event_name InputMaskReservation = Some ''InputMaskReservationStarted''"
| "round_event_name MPCExecution = Some ''MPCStarted''"
| "round_event_name OutputDistribution = Some ''OutputSendingStarted''"
| "round_event_name ProgramFinished = Some ''ExecutionDone''"

definition onchain_wait_for_round :: "Round \<Rightarrow> 'a item list option \<Rightarrow> (CoordinatorError, unit) result" where
  "onchain_wait_for_round round sub =
     (case round_event_name round of
        None \<Rightarrow> Panic
      | Some event \<Rightarrow>
          (case sub of
             None \<Rightarrow> Err (EthereumError (''error setting up event listener for '' @ event @ '' events''))
           | Some (Received _ # _) \<Rightarrow> Ok ()
           | Some _ \<Rightarrow> Err (EthereumError (''event stream ended unexpectedly while waiting for '' @ event @ '' events''))))"

section \<open>Inputs\<close>

definition onchain_reserve_mask_index :: "(contract_call \<Rightarrow> tx_outcome) \<Rightarrow> u64 \<Rightarrow> (CoordinatorError, unit) result" where
  "onchain_reserve_mask_index send i =
     (case send (ReserveMaskIndex (ucast i)) of
        Included True \<Rightarrow> Ok ()
      | Included False \<Rightarrow> Err (EthereumError ''invalid receipt sending transaction to obtain input mask indices'')
      | _ \<Rightarrow> Panic)"

text \<open>Which of the decoded contract errors the message names.\<close>

definition submit_error_text :: "contract_error \<Rightarrow> string" where
  "submit_error_text e =
     (case e of
        IndexNotReserved client index \<Rightarrow> ''Index not reserved by address''
      | ZeroMaskedInput client \<Rightarrow> ''Masked input cannot be zero''
      | AlreadySubmittedInputs client \<Rightarrow> ''Client already submitted masked inputs''
      | OtherContractError \<Rightarrow> ''Unexpected error''
      | NotDecodable \<Rightarrow> ''Unknown error'')"

definition onchain_send_masked_input ::
  "('s, 'v) share_scheme \<Rightarrow> (contract_call \<Rightarrow> tx_outcome) \<Rightarrow> 'v \<Rightarrow> u64 \<Rightarrow> (CoordinatorError, unit) result" where
  "onchain_send_masked_input sch send masked_input i =
     (case serialize_value sch masked_input of
        None \<Rightarrow> Err SerializationError
      | Some masked_input_bytes \<Rightarrow>
          (case send (SubmitMaskedInput masked_input_bytes (ucast i)) of
             Included _ \<Rightarrow> Ok ()
           | WatchError \<Rightarrow> Err (EthereumError ''error waiting for transaction to submit masked inputs be mined'')
           | SendError e \<Rightarrow>
               Err (EthereumError (''error sending transaction to submit masked inputs: '' @ submit_error_text e))))"

definition push_entry :: "'k \<Rightarrow> 'a \<Rightarrow> ('k, 'a list) hashmap \<Rightarrow> ('k, 'a list) hashmap" where
  "push_entry k x m = AList.update k ((case map_of m k of None \<Rightarrow> [] | Some xs \<Rightarrow> xs) @ [x]) m"

fun onchain_indices_loop ::
  "u64 \<Rightarrow> (Address \<times> u256) item list \<Rightarrow> (Address, u64 list) hashmap
    \<Rightarrow> (CoordinatorError, (Address, u64 list) hashmap) result" where
  "onchain_indices_loop n_inputs (Received (client, reserved_index) # items) addr_to_i =
     (case u256_to_u64 reserved_index of
        None \<Rightarrow> Panic
      | Some i \<Rightarrow>
          let addr_to_i = push_entry client i addr_to_i in
          if (of_nat (sum_list (map (length \<circ> snd) addr_to_i)) :: u64) = n_inputs then Ok addr_to_i
          else onchain_indices_loop n_inputs items addr_to_i)"
| "onchain_indices_loop n_inputs _ addr_to_i = Ok addr_to_i"

definition onchain_wait_for_indices ::
  "u64 \<Rightarrow> (Address \<times> u256) item list option \<Rightarrow> (CoordinatorError, (Address, u64 list) hashmap) result" where
  "onchain_wait_for_indices n_inputs sub =
     (case sub of None \<Rightarrow> Panic | Some items \<Rightarrow> onchain_indices_loop n_inputs items [])"

fun onchain_inputs_loop ::
  "('s, 'v) share_scheme \<Rightarrow> 's list \<Rightarrow> nat \<Rightarrow> (Address \<times> bytes \<times> u256) item list \<Rightarrow> (Address \<rightharpoonup> (u64 \<times> 's) list)
    \<Rightarrow> (CoordinatorError, Address \<rightharpoonup> (u64 \<times> 's) list) result" where
  "onchain_inputs_loop sch mask_shares 0 items inputs = Ok inputs"
| "onchain_inputs_loop sch mask_shares (Suc n) (Received (client, masked_input, reserved_index) # items) inputs =
     (case u256_to_u64 reserved_index of
        None \<Rightarrow> Err U256ToU64Error
      | Some i \<Rightarrow>
          if length mask_shares \<le> unat i then Panic
          else case deserialize_value sch masked_input of
            None \<Rightarrow> Err DeserializationError
          | Some masked_input_value \<Rightarrow>
              (case compute_masked_input sch masked_input_value (mask_shares ! unat i) of
                 None \<Rightarrow> Err ShareError
               | Some input \<Rightarrow> onchain_inputs_loop sch mask_shares n items (extend_entry inputs client [(i, input)])))"
| "onchain_inputs_loop sch mask_shares (Suc n) _ inputs =
     Err (EthereumError ''event stream ended unexpectedly while waiting for MaskedInputEvent events'')"

definition onchain_wait_for_inputs ::
  "('s, 'v) share_scheme \<Rightarrow> u64 \<Rightarrow> 's list \<Rightarrow> (Address \<times> bytes \<times> u256) item list option
    \<Rightarrow> (CoordinatorError, Address \<rightharpoonup> 's list) result" where
  "onchain_wait_for_inputs sch n_inputs mask_shares sub =
     (case sub of
        None \<Rightarrow> Err (EthereumError ''error setting up event listener for MaskedInputEvent events'')
      | Some items \<Rightarrow>
          and_then (onchain_inputs_loop sch mask_shares (unat n_inputs) items Map.empty) (\<lambda>inputs.
            Ok (\<lambda>client. map_option (\<lambda>indexed_inputs.
              map snd (sort_key (\<lambda>(reserved_index, _). unat reserved_index) indexed_inputs)) (inputs client))))"

section \<open>Outputs\<close>

text \<open>The context of the encryption; it names no execution.\<close>

definition ONCHAIN_ENC_INFO :: bytes where
  "ONCHAIN_ENC_INFO = map of_char ''StoffelOutputShareEncryption''"

text \<open>\<open>pair_of\<close> and \<open>pair_to\<close> are \<open>ark-serialize\<close> on the pair of encapsulated key and ciphertext.\<close>

fun onchain_open_shares ::
  "('sk, 'pk, 'ek) hpke \<Rightarrow> ('s, 'v) share_scheme \<Rightarrow> (bytes \<Rightarrow> enc_share option) \<Rightarrow> 'sk \<Rightarrow> u64 \<Rightarrow> bytes list
    \<Rightarrow> (CoordinatorError, 's list list) result" where
  "onchain_open_shares h sch pair_of client_sk n_outputs [] = Ok []"
| "onchain_open_shares h sch pair_of client_sk n_outputs (bs # rest) =
     (case pair_of bs of
        None \<Rightarrow> Err DeserializationError
      | Some (encapped_key_bytes, c) \<Rightarrow>
          (case ek_from_bytes h encapped_key_bytes of
             None \<Rightarrow> Err ParsingEncapsulatedKeyFailed
           | Some encapped_key \<Rightarrow>
               (case single_shot_open h client_sk encapped_key ONCHAIN_ENC_INFO c of
                  None \<Rightarrow> Err DecryptionError
                | Some output_shares_bytes \<Rightarrow>
                    (case deserialize_shares sch output_shares_bytes of
                       None \<Rightarrow> Err DeserializationError
                     | Some shares \<Rightarrow>
                         and_then (onchain_open_shares h sch pair_of client_sk n_outputs rest) (\<lambda>output_shares.
                           Ok (if of_nat (length shares) \<noteq> n_outputs then output_shares
                               else shares # output_shares))))))"

fun onchain_outputs_loop ::
  "('sk, 'pk, 'ek) hpke \<Rightarrow> ('s, 'v) share_scheme \<Rightarrow> (bytes \<Rightarrow> enc_share option) \<Rightarrow> OnChainCoordinator \<Rightarrow> 'sk
    \<Rightarrow> bytes list item list \<Rightarrow> (CoordinatorError, 'v list) result" where
  "onchain_outputs_loop h sch pair_of co client_sk (Received shares # items) =
     (if length shares < unat (min_shares sch (on_t co)) then Panic
      else
        and_then (onchain_open_shares h sch pair_of client_sk (on_n_outputs co) shares) (\<lambda>output_shares.
          let outputs = List.map_filter (\<lambda>i. recover_secret sch (map (\<lambda>shares. shares ! i) output_shares) (on_n co) (on_t co))
                [0..<unat (on_n_outputs co)]
          in if length outputs = unat (on_n_outputs co) then Ok outputs
             else onchain_outputs_loop h sch pair_of co client_sk items))"
| "onchain_outputs_loop h sch pair_of co client_sk _ =
     Err (EthereumError ''event stream ended unexpectedly while waiting for EnoughOutputShares events'')"

definition onchain_obtain_outputs ::
  "('sk, 'pk, 'ek) hpke \<Rightarrow> ('s, 'v) share_scheme \<Rightarrow> (bytes \<Rightarrow> enc_share option) \<Rightarrow> OnChainCoordinator
    \<Rightarrow> bytes list item list option \<Rightarrow> (CoordinatorError, 'v list) result" where
  "onchain_obtain_outputs h sch pair_of co sub =
     (case on_key_der co of
        None \<Rightarrow> Panic
      | Some der_bytes \<Rightarrow>
          (case from_pkcs8_der h der_bytes of
             None \<Rightarrow> Err ParsingDERAsPKCS8Failed
           | Some raw_sk \<Rightarrow>
               (case sk_from_bytes h raw_sk of
                  None \<Rightarrow> Err ParsingPrivateKeyFailed
                | Some client_sk \<Rightarrow>
                    (case sub of
                       None \<Rightarrow> Err (EthereumError ''error setting up event listener for MPCStarted events'')
                     | Some items \<Rightarrow> onchain_outputs_loop h sch pair_of co client_sk items))))"

definition onchain_seal_shares ::
  "('sk, 'pk, 'ek) hpke \<Rightarrow> ('s, 'v) share_scheme \<Rightarrow> (enc_share \<Rightarrow> bytes option) \<Rightarrow> nat \<Rightarrow> bytes \<Rightarrow> 's list
    \<Rightarrow> (CoordinatorError, bytes) result" where
  "onchain_seal_shares h sch pair_to seed key output_shares =
     (case pk_from_bytes h key of
        None \<Rightarrow> Err ParsingPublicKeyFailed
      | Some client_pk \<Rightarrow>
          (case serialize_shares sch output_shares of
             None \<Rightarrow> Err SerializationError
           | Some output_shares_bytes \<Rightarrow>
               (case single_shot_seal h seed client_pk ONCHAIN_ENC_INFO output_shares_bytes of
                  None \<Rightarrow> Err EncryptionError
                | Some c \<Rightarrow> (case pair_to c of None \<Rightarrow> Err SerializationError | Some bs \<Rightarrow> Ok bs))))"

definition onchain_send_output_shares ::
  "('sk, 'pk, 'ek) hpke \<Rightarrow> ('s, 'v) share_scheme \<Rightarrow> (enc_share \<Rightarrow> bytes option) \<Rightarrow> nat \<Rightarrow> (contract_call \<Rightarrow> tx_outcome)
    \<Rightarrow> Address \<Rightarrow> bytes \<Rightarrow> 's list \<Rightarrow> (CoordinatorError, unit) result" where
  "onchain_send_output_shares h sch pair_to seed send client_id key output_shares =
     and_then (onchain_seal_shares h sch pair_to seed key output_shares) (\<lambda>bs.
       send_and_watch ''send output shares'' (send (SendOutputShares client_id bs)))"

end
