(* ===== verification/Node_Service.thy ===== *)
theory Node_Service
  imports Coord_Service Onchain_Client
begin

text \<open>
  The nodes as running services and the clients that connect to them: \<open>NodeRPCServer\<close> and
  \<open>NodeRPCClient\<close> of \<^verbatim>\<open>crates/off-chain/src/lib.rs\<close> and of \<^verbatim>\<open>crates/on-chain/src/lib.rs\<close>, and the
  connection of \<open>OffChainCoordinatorClient\<close>. Listeners and \<open>platform\<close> are those of the coordinator.
\<close>

section \<open>The off-chain node\<close>

record 'tcp NodeRPCServer =
  ns_addr :: string
  ns_node :: NodeRPCServerInternal
  ns_server_handle :: "('tcp, bytes) RPCServerHandle"
  ns_browser_handle :: "(('tcp, unit) RPCServerHandle \<times> NodeBrowserState) option"

definition node_start ::
  "('dss, 'tcp, 'vk, 'sig, 'p) platform \<Rightarrow> string \<Rightarrow> u16 \<Rightarrow> bytes \<Rightarrow> bytes
    \<Rightarrow> (CoordinatorError, 'tcp NodeRPCServer) result" where
  "node_start pf addr port cert_der key_der =
     and_then (native_listener pf addr port cert_der key_der) (\<lambda>server_handle.
       Ok \<lparr>ns_addr = addr, ns_node = [], ns_server_handle = server_handle, ns_browser_handle = None\<rparr>)"

definition node_start_with_browser_tls ::
  "('dss, 'tcp, 'vk, 'sig, 'p) platform \<Rightarrow> string \<Rightarrow> u16 \<Rightarrow> bytes \<Rightarrow> bytes \<Rightarrow> string \<Rightarrow> u16 \<Rightarrow> bytes \<Rightarrow> bytes \<Rightarrow> string
    \<Rightarrow> (CoordinatorError, 'tcp NodeRPCServer) result" where
  "node_start_with_browser_tls pf addr port cert_der key_der browser_addr browser_port browser_cert_chain_pem
       browser_key_pem webauthn_rp_id =
     and_then (native_listener pf addr port cert_der key_der) (\<lambda>server_handle.
     and_then (start_coord_browser_tls (pf_tls pf) (pf_bind pf browser_addr browser_port) (pf_accept pf)
         browser_cert_chain_pem browser_key_pem) (\<lambda>run.
       Ok \<lparr>ns_addr = addr, ns_node = [], ns_server_handle = server_handle,
           ns_browser_handle = Some (handle_start run, node_browser_methods (pf_crypto pf) [] webauthn_rp_id)\<rparr>))"

definition node_start_for_execution ::
  "('dss, 'tcp, 'vk, 'sig, 'p) platform \<Rightarrow> string \<Rightarrow> u16 \<Rightarrow> ExecutionId \<Rightarrow> bytes \<Rightarrow> bytes
    \<Rightarrow> (CoordinatorError, 'tcp NodeRPCServer) result" where
  "node_start_for_execution pf addr port execution_id cert_der key_der =
     and_then (node_start pf addr port cert_der key_der) (\<lambda>server.
       let (r, node) = node_register_execution execution_id (ns_node server)
       in and_then r (\<lambda>_. Ok (server\<lparr>ns_node := node\<rparr>)))"

definition node_shutdown :: "'tcp NodeRPCServer \<Rightarrow> 'tcp NodeRPCServer" where
  "node_shutdown sv =
     (let sv1 = sv\<lparr>ns_browser_handle := map_option (\<lambda>(h, st). (handle_shutdown h, st)) (ns_browser_handle sv)\<rparr>
      in sv1\<lparr>ns_server_handle := handle_shutdown (ns_server_handle sv1)\<rparr>)"

text \<open>
  An action of the node: an event of a listener, the subscription \<open>receive_assigned_mask_shares\<close> on
  an open native connection, a browser method on an open browser connection, a call the party makes
  on its own node, or the shutdown. A step comes with what it sends to subscribers; the browser
  methods reply but send nothing.
\<close>

datatype 'tcp node_action =
    NodeNativeEvent "'tcp listener_event"
  | NodeSubscribe nat "sink option" ExecutionId u64 u64
  | NodeBrowserEvent "'tcp listener_event"
  | NodeBrowserMethod nat
  | NodeOwnCall
  | NodeShutdown

inductive node_server_step ::
  "('vk, 'sig) crypto \<Rightarrow> 'tcp NodeRPCServer \<Rightarrow> 'tcp node_action \<Rightarrow> delivery list \<Rightarrow> 'tcp NodeRPCServer \<Rightarrow> bool"
  for c :: "('vk, 'sig) crypto" where
  nv_native_event: "node_server_step c sv (NodeNativeEvent event) []
    (sv\<lparr>ns_server_handle := handle_event event (ns_server_handle sv)\<rparr>)"
| nv_subscribe: "(k, caller) \<in> set (handle_connections (ns_server_handle sv)) \<Longrightarrow>
    receive_assigned_mask_shares ok accepted caller e start cnt (ns_node sv) = (r, node, ds) \<Longrightarrow>
    node_server_step c sv (NodeSubscribe k accepted e start cnt) ds (sv\<lparr>ns_node := node\<rparr>)"
| nv_reserve: "add_assigned_reserved_indices_for_execution e rs (ns_node sv) = (r, node, ds) \<Longrightarrow>
    node_server_step c sv NodeOwnCall ds (sv\<lparr>ns_node := node\<rparr>)"
| nv_share: "add_mask_shares_for_execution (\<lambda>outcome. outcome) e shares (ns_node sv) = (r, node, ds) \<Longrightarrow>
    node_server_step c sv NodeOwnCall ds (sv\<lparr>ns_node := node\<rparr>)"
| nv_register: "node_server_step c sv NodeOwnCall [] (sv\<lparr>ns_node := snd (node_register_execution e (ns_node sv))\<rparr>)"
| nv_retire: "node_server_step c sv NodeOwnCall [] (sv\<lparr>ns_node := snd (node_retire_execution e (ns_node sv))\<rparr>)"
| nv_browser_event: "ns_browser_handle sv = Some (h, st) \<Longrightarrow>
    node_server_step c sv (NodeBrowserEvent event) [] (sv\<lparr>ns_browser_handle := Some (handle_event event h, st)\<rparr>)"
| nv_browser_shares: "ns_browser_handle sv = Some (h, st) \<Longrightarrow> (k, ()) \<in> set (handle_connections h) \<Longrightarrow>
    st' = snd (assigned_mask_shares_method c sj now params (st\<lparr>nb_node := ns_node sv\<rparr>)) \<Longrightarrow>
    node_server_step c sv (NodeBrowserMethod k) []
      (sv\<lparr>ns_node := nb_node st', ns_browser_handle := Some (h, st')\<rparr>)"
| nv_browser_bind: "ns_browser_handle sv = Some (h, st) \<Longrightarrow> (k, ()) \<in> set (handle_connections h) \<Longrightarrow>
    node_bind_method c draws params (st\<lparr>nb_node := ns_node sv\<rparr>) = Some (b, st') \<Longrightarrow>
    node_server_step c sv (NodeBrowserMethod k) []
      (sv\<lparr>ns_node := nb_node st', ns_browser_handle := Some (h, st')\<rparr>)"
| nv_shutdown: "node_server_step c sv NodeShutdown [] (node_shutdown sv)"

inductive node_server_run ::
  "('vk, 'sig) crypto \<Rightarrow> 'tcp NodeRPCServer \<Rightarrow> 'tcp node_action list \<Rightarrow> 'tcp NodeRPCServer \<Rightarrow> bool"
  for c :: "('vk, 'sig) crypto" and sv0 :: "'tcp NodeRPCServer" where
  node_run_start: "node_server_run c sv0 [] sv0"
| node_run_action: "node_server_run c sv0 trace sv \<Longrightarrow> node_server_step c sv a ds sv' \<Longrightarrow> node_server_run c sv0 (trace @ [a]) sv'"

section \<open>The on-chain node\<close>

record ('s, 'tcp) OnChainNodeRPCServer =
  cs_rpc_server :: "'s NodeRPCServerShared"
  cs_addr :: string
  cs_port :: u16
  cs_server_handle :: "('tcp, bytes) RPCServerHandle"

text \<open>\<open>nonce\<close> is the answer of the contract to \<open>baseNonce\<close>. Every failure panics.\<close>

definition onchain_node_start ::
  "('dss, 'tcp, 'vk, 'sig, 'p) platform \<Rightarrow> u256 option \<Rightarrow> string \<Rightarrow> u16 \<Rightarrow> bytes \<Rightarrow> bytes
    \<Rightarrow> ('e, ('s, 'tcp) OnChainNodeRPCServer) result" where
  "onchain_node_start pf nonce addr port cert_der key_der =
     and_then (unwrap (Option.bind nonce u256_to_u64)) (\<lambda>base_nonce.
     and_then (expect (native_listener pf addr port cert_der key_der)) (\<lambda>server_handle.
       Ok \<lparr>cs_rpc_server = onchain_node_new base_nonce, cs_addr = addr, cs_port = port, cs_server_handle = server_handle\<rparr>))"

definition onchain_node_shutdown :: "('s, 'tcp) OnChainNodeRPCServer \<Rightarrow> ('s, 'tcp) OnChainNodeRPCServer" where
  "onchain_node_shutdown server = server\<lparr>cs_server_handle := handle_shutdown (cs_server_handle server)\<rparr>"

section \<open>Connecting\<close>

text \<open>
  \<open>connect addr port\<close> is where the set-up of a connection fails, if it does. All connections are
  attempted; the first failure in the order of the addresses is the result.
\<close>

definition connect_all ::
  "'dss tls \<Rightarrow> (string \<Rightarrow> u16 \<Rightarrow> client_steps) \<Rightarrow> (string \<times> u16) list \<Rightarrow> bytes \<Rightarrow> bytes
    \<Rightarrow> (CoordinatorError, ClientConfig list) result" where
  "connect_all t connect addrs cert_der key_der =
     traverse (\<lambda>(addr, port). setup_client t (connect addr port) cert_der key_der) addrs"

record NodeRPCClient =
  nc_node_rpcs :: "ClientConfig list"
  nc_n :: nat
  nc_t :: nat
  nc_execution_id :: "ExecutionId option"

definition node_client_start ::
  "'dss tls \<Rightarrow> (string \<Rightarrow> u16 \<Rightarrow> client_steps) \<Rightarrow> nat \<Rightarrow> nat \<Rightarrow> (string \<times> u16) list \<Rightarrow> ExecutionId \<Rightarrow> bytes \<Rightarrow> bytes
    \<Rightarrow> (CoordinatorError, NodeRPCClient) result" where
  "node_client_start t connect n threshold addrs execution_id cert_der key_der =
     and_then (connect_all t connect addrs cert_der key_der) (\<lambda>node_rpcs.
       Ok \<lparr>nc_node_rpcs = node_rpcs, nc_n = n, nc_t = threshold, nc_execution_id = Some execution_id\<rparr>)"

definition onchain_node_client_start ::
  "'dss tls \<Rightarrow> (string \<Rightarrow> u16 \<Rightarrow> client_steps) \<Rightarrow> nat \<Rightarrow> nat \<Rightarrow> (string \<times> u16) list \<Rightarrow> bytes \<Rightarrow> bytes
    \<Rightarrow> ('e, NodeRPCClient) result" where
  "onchain_node_client_start t connect n threshold addrs cert_der key_der =
     and_then (expect (connect_all t connect addrs cert_der key_der)) (\<lambda>node_rpcs.
       Ok \<lparr>nc_node_rpcs = node_rpcs, nc_n = n, nc_t = threshold, nc_execution_id = None\<rparr>)"

text \<open>\<open>identity\<close> is the public key of the certificate, under which the coordinator serves the client.\<close>

definition coordinator_client_start ::
  "'dss tls \<Rightarrow> (string \<Rightarrow> u16 \<Rightarrow> client_steps) \<Rightarrow> ClientIdentity \<Rightarrow> string \<Rightarrow> u16 \<Rightarrow> u64 \<Rightarrow> u64 \<Rightarrow> u64 \<Rightarrow> ExecutionId
    \<Rightarrow> bytes \<Rightarrow> bytes \<Rightarrow> (CoordinatorError, ClientConfig \<times> OffChainCoordinatorClient) result" where
  "coordinator_client_start tls connect identity addr port t n_parties n_outputs execution_id cert_der key_der =
     and_then (setup_client tls (connect addr port) cert_der key_der) (\<lambda>rpc_coord.
       Ok (rpc_coord, \<lparr>cl_identity = identity, cl_execution_id = execution_id, cl_t = t, cl_n_parties = n_parties,
         cl_n_outputs = n_outputs, cl_key_der = key_der\<rparr>))"

end
