(* ===== verification/Node_Properties.thy ===== *)
theory Node_Properties
  imports Node_Rpc
begin

text \<open>
  The properties of a node's RPC server: mask shares go to the client that reserved the slot and
  to nobody else, a request is answered as soon as its last reservation or share arrives, whatever
  the order; and of the client that recovers masks from the nodes' replies.
\<close>

section \<open>The invariant\<close>

definition node_exec_inv :: "NodeRPCExecutionState \<Rightarrow> bool" where
  "node_exec_inv d \<longleftrightarrow>
     (\<forall>i. nd_assigned_reservations d i = None \<longrightarrow> nd_index_to_client d i = None) \<and>
     (\<forall>i r. nd_assigned_reservations d i = Some r \<longrightarrow>
        amr_reserved_index r = i \<and> nd_index_to_client d i = Some (amr_client r))"

definition node_inv :: "NodeRPCServerInternal \<Rightarrow> bool" where
  "node_inv s \<longleftrightarrow> hm_wf s \<and> length s \<le> DEFAULT_MAX_CONCURRENT_EXECUTIONS \<and>
     (\<forall>e d. map_of s e = Some d \<longrightarrow> node_exec_inv d \<and> \<not> is_zero e)"

text \<open>Two states that differ in pending requests at most.\<close>

definition same_slots :: "NodeRPCExecutionState \<Rightarrow> NodeRPCExecutionState \<Rightarrow> bool" where
  "same_slots d d' \<longleftrightarrow> nd_index_to_client d' = nd_index_to_client d \<and>
     nd_assigned_reservations d' = nd_assigned_reservations d \<and> nd_mask_shares d' = nd_mask_shares d"

lemma same_slots_simps [simp]:
  "same_slots d d" "same_slots d (d\<lparr>nd_assigned_sinks := m\<rparr>)"
  by (simp_all add: same_slots_def)

lemma same_slots_trans: "same_slots d d' \<Longrightarrow> same_slots d' d'' \<Longrightarrow> same_slots d d''"
  by (simp add: same_slots_def)

lemma same_slots_inv: "same_slots d d' \<Longrightarrow> node_exec_inv d' = node_exec_inv d"
  by (simp add: same_slots_def node_exec_inv_def)

lemma same_slots_collect:
  assumes "same_slots d d'"
  shows "assigned_mask_shares_for_client d' = assigned_mask_shares_for_client d"
proof -
  have "collect_shares d' client is = collect_shares d client is" for client "is"
    using assms by (induction "is") (simp_all add: same_slots_def assigned_mask_share_def split: option.split)
  then show ?thesis by (simp add: fun_eq_iff assigned_mask_shares_for_client_def split: option.split)
qed

lemma complete_requests_same_slots: "same_slots d (snd (complete_requests clients d acc))"
proof (induction clients arbitrary: d acc)
  case (Cons client clients)
  have "same_slots d (snd (complete_requests clients (d\<lparr>nd_assigned_sinks := m\<rparr>) acc))" for m acc
    by (rule same_slots_trans [OF _ Cons]) simp
  then show ?case using Cons by (simp add: Let_def split: option.split result.split)
qed simp

lemma register_reservations_inv:
  "node_exec_inv d \<Longrightarrow> node_exec_inv (fst (register_reservations rs d touched))"
proof (induction rs d touched rule: register_reservations.induct)
  case (2 r rs d touched)
  have "node_exec_inv (d\<lparr>nd_index_to_client := (nd_index_to_client d)(amr_reserved_index r \<mapsto> amr_client r),
      nd_assigned_reservations := (nd_assigned_reservations d)(amr_reserved_index r \<mapsto> r)\<rparr>)"
    using 2(2) by (simp add: node_exec_inv_def)
  from 2(1) [OF this] show ?case by simp
qed simp

lemma record_shares_inv:
  "node_exec_inv d \<Longrightarrow> node_exec_inv (snd (record_shares serialize shares d touched))"
proof (induction serialize shares d touched rule: record_shares.induct)
  case (2 serialize i share rest d touched)
  have "node_exec_inv (d\<lparr>nd_mask_shares := m\<rparr>)" for m
    using 2(2) by (simp add: node_exec_inv_def)
  with 2 show ?case by (simp add: Let_def split: option.split)
qed simp

lemma node_add_reservations_inv:
  assumes "node_exec_inv d"
  shows "node_exec_inv (snd (node_add_reservations rs d))"
  using assms same_slots_inv [OF complete_requests_same_slots] register_reservations_inv
  by (auto simp: node_add_reservations_def split_beta)

lemma node_add_shares_inv:
  assumes "node_exec_inv d"
  shows "node_exec_inv (snd (node_add_shares serialize shares d))"
proof -
  obtain r d1 where r: "record_shares serialize shares d [] = (r, d1)"
    by (cases "record_shares serialize shares d []")
  have "node_exec_inv d1" using record_shares_inv [OF assms, of serialize shares "[]"] r by simp
  then show ?thesis
    using assms same_slots_inv [OF complete_requests_same_slots]
    by (auto simp: node_add_shares_def r split: result.split)
qed

lemma node_inv_update:
  assumes "node_inv s" and "map_of s e = Some d" and "node_exec_inv d'"
  shows "node_inv (AList.update e d' s)"
  using assms by (auto simp: node_inv_def hm_simps)

lemma node_with_execution_inv:
  assumes "node_inv s" and "\<And>d. node_exec_inv d \<Longrightarrow> node_exec_inv (snd (f d))"
  shows "node_inv (fst (snd (node_with_execution e s f)))"
proof (cases "map_of s e")
  case (Some d)
  then have "node_exec_inv (snd (f d))" using assms by (auto simp: node_inv_def)
  then have "node_inv (AList.update e (snd (f d)) s)" using node_inv_update assms(1) Some by blast
  then show ?thesis
    by (auto simp: node_with_execution_def Some split: prod.split result.split)
qed (simp add: node_with_execution_def assms)

lemma receive_inv:
  assumes "node_inv s"
  shows "node_inv (fst (snd (receive_assigned_mask_shares ok accepted caller e start cnt s)))"
proof (cases "map_of s e")
  case (Some d)
  then have d: "node_exec_inv d" using assms by (simp add: node_inv_def)
  have "node_inv (AList.update e (d\<lparr>nd_assigned_sinks := m\<rparr>) s)" for m
    by (rule node_inv_update [OF assms Some]) (use d in \<open>simp add: node_exec_inv_def\<close>)
  then show ?thesis
    by (auto simp: receive_assigned_mask_shares_def Some Let_def split: result.split option.split)
qed (simp add: receive_assigned_mask_shares_def assms)

interpretation node: invariant_system node_init node_step node_inv
proof
  fix s
  show "node_init s \<Longrightarrow> node_inv s" by (simp add: node_init_def node_inv_def)
next
  fix s s'
  assume inv: "node_inv s" and "node_step s s'"
  from this(2) show "node_inv s'"
  proof cases
    case (node_step_register e)
    then show ?thesis
      using inv by (auto simp: node_register_execution_def node_inv_def hm_simps node_exec_inv_def
          node_execution_new_def)
  next
    case (node_step_retire e)
    then show ?thesis
      using inv order_trans [OF hm_len_delete_le [of e s]]
      by (auto simp: node_retire_execution_def node_inv_def hm_get_delete split: if_splits)
  next
    case node_step_reserve
    then show ?thesis
      by (simp add: add_assigned_reserved_indices_for_execution_def node_with_execution_inv inv
          node_add_reservations_inv)
  next
    case node_step_share
    then show ?thesis
      by (simp add: add_mask_shares_for_execution_def node_with_execution_inv inv node_add_shares_inv)
  next
    case node_step_receive
    then show ?thesis by (simp add: receive_inv inv)
  qed
qed

section \<open>Complete ranges\<close>

lemma collect_shares_Ok:
  assumes "node_exec_inv d"
  shows "collect_shares d client is = Ok (Some xs) \<longleftrightarrow>
    (\<forall>i \<in> set is. nd_index_to_client d i = Some client \<and> nd_mask_shares d i \<noteq> None) \<and>
    xs = map (\<lambda>i. \<lparr>ams_reserved_index = i, ams_share_bytes = the (nd_mask_shares d i)\<rparr>) is"
proof (induction "is" arbitrary: xs)
  case (Cons i "is")
  show ?case
  proof (cases "nd_index_to_client d i = Some client \<and> nd_mask_shares d i \<noteq> None")
    case True
    then obtain share where s: "nd_mask_shares d i = Some share" by blast
    have "nd_assigned_reservations d i \<noteq> None"
      using True assms by (auto simp: node_exec_inv_def)
    then have "assigned_mask_share d i share = Ok \<lparr>ams_reserved_index = i, ams_share_bytes = share\<rparr>"
      by (auto simp: assigned_mask_share_def)
    then have "collect_shares d client (i # is) = Ok (Some xs) \<longleftrightarrow>
        (\<exists>ys. collect_shares d client is = Ok (Some ys) \<and>
          xs = \<lparr>ams_reserved_index = i, ams_share_bytes = share\<rparr> # ys)"
      using True s by (auto simp: and_then_Ok_iff)
    also have "\<dots> \<longleftrightarrow> (\<forall>i \<in> set is. nd_index_to_client d i = Some client \<and> nd_mask_shares d i \<noteq> None) \<and>
        xs = \<lparr>ams_reserved_index = i, ams_share_bytes = share\<rparr> #
          map (\<lambda>i. \<lparr>ams_reserved_index = i, ams_share_bytes = the (nd_mask_shares d i)\<rparr>) is"
      unfolding Cons.IH by blast
    finally show ?thesis using True s by simp
  next
    case False
    then have "collect_shares d client (i # is) \<noteq> Ok (Some xs)"
      by (cases "nd_index_to_client d i"; cases "nd_mask_shares d i") simp_all
    with False show ?thesis by simp
  qed
qed auto

definition range_of :: "AssignedMaskRequest \<Rightarrow> u64 list" where
  "range_of req = u64_range (req_start req) (req_start req + req_count req)"

definition in_range :: "AssignedMaskRequest \<Rightarrow> bool" where
  "in_range req \<longleftrightarrow> unat (req_start req) + unat (req_count req) < 2 ^ 64"

definition owned_shares :: "NodeRPCExecutionState \<Rightarrow> ClientIdentity \<Rightarrow> AssignedMaskRequest \<Rightarrow> bool" where
  "owned_shares d client req \<longleftrightarrow> in_range req \<and>
     (\<forall>i \<in> set (range_of req). nd_index_to_client d i = Some client \<and> nd_mask_shares d i \<noteq> None)"

definition shares_message :: "NodeRPCExecutionState \<Rightarrow> AssignedMaskRequest \<Rightarrow> message" where
  "shares_message d req = MaskSharesMsg
     (map (\<lambda>i. \<lparr>ams_reserved_index = i, ams_share_bytes = the (nd_mask_shares d i)\<rparr>) (range_of req))"

lemma request_ready:
  assumes "node_exec_inv d"
  shows "assigned_mask_shares_for_client d client (req_start req) (req_count req) = Ok (Some xs) \<longleftrightarrow>
    owned_shares d client req \<and> MaskSharesMsg xs = shares_message d req"
  using collect_shares_Ok [OF assms]
  by (auto simp: assigned_mask_shares_for_client_def checked_add_def owned_shares_def in_range_def
      range_of_def shares_message_def split: option.splits)

lemma same_slots_owned:
  "same_slots d d' \<Longrightarrow> owned_shares d' = owned_shares d \<and> shares_message d' = shares_message d"
  by (simp add: same_slots_def owned_shares_def shares_message_def fun_eq_iff)

lemma complete_requests_step:
  assumes inv: "node_exec_inv d" and req: "nd_assigned_sinks d client = Some req"
  shows "complete_requests (client # clients) d acc =
    (let d1 = d\<lparr>nd_assigned_sinks := (nd_assigned_sinks d)(client := None)\<rparr> in
     if owned_shares d client req
     then complete_requests clients d1 (acc @ [(req_sink req, shares_message d req)])
     else case assigned_mask_shares_for_client d client (req_start req) (req_count req) of
       Ok _ \<Rightarrow> complete_requests clients d acc | Err e \<Rightarrow> (Err e, d1) | Panic \<Rightarrow> (Panic, d1))"
proof -
  let ?d = "d\<lparr>nd_assigned_sinks := (nd_assigned_sinks d)(client := None)\<rparr>"
  let ?a = "assigned_mask_shares_for_client d client (req_start req) (req_count req)"
  have a: "assigned_mask_shares_for_client ?d client (req_start req) (req_count req) = ?a"
    by (simp add: same_slots_collect [of d ?d])
  have restored: "?d\<lparr>nd_assigned_sinks := (nd_assigned_sinks ?d)(client \<mapsto> req)\<rparr> = d"
    using req by (simp add: fun_upd_idem)
  show ?thesis
  proof (cases ?a)
    case (Ok x)
    show ?thesis
    proof (cases x)
      case None
      then have "\<not> owned_shares d client req"
        using request_ready [OF inv, of client req] Ok by (auto simp: shares_message_def)
      then show ?thesis using req a restored Ok None by (simp add: Let_def)
    next
      case (Some xs)
      then have "owned_shares d client req" "MaskSharesMsg xs = shares_message d req"
        using request_ready [OF inv, of client req xs] Ok by simp_all
      then show ?thesis using req a Ok Some by (simp add: Let_def)
    qed
  next
    case (Err e)
    then have "\<not> owned_shares d client req"
      using request_ready [OF inv, of client req] by (auto simp: shares_message_def)
    with Err show ?thesis using req a by (simp add: Let_def)
  next
    case Panic
    then have "\<not> owned_shares d client req"
      using request_ready [OF inv, of client req] by (auto simp: shares_message_def)
    with Panic show ?thesis using req a by (simp add: Let_def)
  qed
qed

text \<open>What the second phase sends, and which requests it leaves pending.\<close>

lemma complete_requests_sends:
  assumes "node_exec_inv d" and "complete_requests clients d acc = (Ok ds, d')" and "(k, m) \<in> set ds"
  shows "(k, m) \<in> set acc \<or> (\<exists>client \<in> set clients. \<exists>req. nd_assigned_sinks d client = Some req \<and>
    k = req_sink req \<and> owned_shares d client req \<and> m = shares_message d req)"
  using assms
proof (induction clients arbitrary: d acc)
  case (Cons client clients)
  show ?case
  proof (cases "nd_assigned_sinks d client")
    case None
    with Cons.prems(2) have "complete_requests clients d acc = (Ok ds, d')" by simp
    from Cons.IH [OF Cons.prems(1) this Cons.prems(3)] show ?thesis by auto
  next
    case (Some req)
    note step = complete_requests_step [OF Cons.prems(1) Some, of clients acc]
    let ?d = "d\<lparr>nd_assigned_sinks := (nd_assigned_sinks d)(client := None)\<rparr>"
    have inv: "node_exec_inv ?d" using Cons.prems(1) by (simp add: node_exec_inv_def)
    have own: "owned_shares ?d = owned_shares d" "shares_message ?d = shares_message d"
      using same_slots_owned [of d ?d] by simp_all
    show ?thesis
    proof (cases "owned_shares d client req")
      case True
      then have "complete_requests clients ?d (acc @ [(req_sink req, shares_message d req)]) = (Ok ds, d')"
        using Cons.prems(2) step by (simp add: Let_def)
      from Cons.IH [OF inv this Cons.prems(3)] show ?thesis
        using True Some unfolding own by (auto split: if_splits)
    next
      case False
      then have "complete_requests clients d acc = (Ok ds, d')"
        using Cons.prems(2) step by (auto simp: Let_def split: result.splits)
      from Cons.IH [OF Cons.prems(1) this Cons.prems(3)] show ?thesis by auto
    qed
  qed
qed simp

lemma complete_requests_acc:
  "complete_requests clients d acc = (Ok ds, d') \<Longrightarrow> set acc \<subseteq> set ds"
proof (induction clients arbitrary: d acc)
  case (Cons client clients)
  then show ?case by (fastforce simp: Let_def split: option.splits result.splits)
qed simp

lemma complete_requests_none:
  "complete_requests clients d acc = (r, d') \<Longrightarrow> nd_assigned_sinks d c = None \<Longrightarrow> nd_assigned_sinks d' c = None"
proof (induction clients arbitrary: d acc)
  case (Cons client clients)
  show ?case
  proof (cases "nd_assigned_sinks d client")
    case None
    with Cons show ?thesis by simp
  next
    case (Some req)
    then have "client \<noteq> c" using Cons.prems(2) by auto
    with Some Cons show ?thesis by (auto simp: Let_def split: result.splits option.splits)
  qed
qed simp

text \<open>A request that can be answered is, and is no longer pending; the others stay.\<close>

lemma complete_requests_answers:
  assumes "node_exec_inv d" and "complete_requests clients d acc = (Ok ds, d')" and "nd_assigned_sinks d client = Some req"
  shows "if client \<in> set clients \<and> owned_shares d client req
    then (req_sink req, shares_message d req) \<in> set ds \<and> nd_assigned_sinks d' client = None
    else nd_assigned_sinks d' client = Some req"
  using assms
proof (induction clients arbitrary: d acc)
  case (Cons c clients)
  let ?d = "d\<lparr>nd_assigned_sinks := (nd_assigned_sinks d)(c := None)\<rparr>"
  have inv: "node_exec_inv ?d" using Cons.prems(1) by (simp add: node_exec_inv_def)
  have own: "owned_shares ?d = owned_shares d" "shares_message ?d = shares_message d"
    using same_slots_owned [of d ?d] by simp_all
  show ?case
  proof (cases "nd_assigned_sinks d c")
    case None
    with Cons show ?thesis by (auto split: if_splits)
  next
    case (Some r)
    note step = complete_requests_step [OF Cons.prems(1) Some, of clients acc]
    show ?thesis
    proof (cases "owned_shares d c r")
      case True
      then have rest: "complete_requests clients ?d (acc @ [(req_sink r, shares_message d r)]) = (Ok ds, d')"
        using Cons.prems(2) step by (simp add: Let_def)
      show ?thesis
      proof (cases "client = c")
        case same: True
        have "nd_assigned_sinks d' c = None"
          using complete_requests_none [OF rest] by simp
        with complete_requests_acc [OF rest] same Some Cons.prems(3) True show ?thesis by auto
      next
        case False
        with Cons.IH [OF inv rest] Cons.prems(3) show ?thesis unfolding own by auto
      qed
    next
      case False
      then have "complete_requests clients d acc = (Ok ds, d')"
        using Cons.prems(2) step by (auto simp: Let_def split: result.splits)
      from Cons.IH [OF Cons.prems(1) this Cons.prems(3)] show ?thesis
        using False Some Cons.prems(3) by (auto split: if_splits)
    qed
  qed
qed simp

section \<open>Reservations and shares, in any order\<close>

definition no_ready :: "NodeRPCExecutionState \<Rightarrow> bool" where
  "no_ready d \<longleftrightarrow> (\<forall>client req. nd_assigned_sinks d client = Some req \<longrightarrow> \<not> owned_shares d client req)"

lemma register_reservations_frame:
  "nd_assigned_sinks (fst (register_reservations rs d touched)) = nd_assigned_sinks d"
  "nd_mask_shares (fst (register_reservations rs d touched)) = nd_mask_shares d"
  "set (snd (register_reservations rs d touched)) = set touched \<union> amr_client ` set rs"
  by (induction rs d touched rule: register_reservations.induct) auto

lemma register_reservations_owner:
  assumes "nd_index_to_client (fst (register_reservations rs d touched)) i = Some client"
    and "client \<notin> amr_client ` set rs"
  shows "nd_index_to_client d i = Some client"
  using assms
  by (induction rs d touched rule: register_reservations.induct) (auto split: if_splits)

lemma record_shares_frame:
  assumes "record_shares serialize shares d touched = (Ok ts, d')"
  shows "nd_assigned_sinks d' = nd_assigned_sinks d \<and> nd_index_to_client d' = nd_index_to_client d \<and>
    (\<forall>i. nd_mask_shares d' i \<noteq> None \<longrightarrow> nd_mask_shares d i \<noteq> None \<or> i \<in> fst ` set shares) \<and>
    set touched \<subseteq> set ts \<and>
    (\<forall>i \<in> fst ` set shares. \<forall>client. nd_index_to_client d i = Some client \<longrightarrow> client \<in> set ts)"
  using assms
proof (induction serialize shares d touched rule: record_shares.induct)
  case (2 serialize i share rest d touched)
  then obtain b where b: "serialize share = Some b" by (cases "serialize share") auto
  let ?d = "d\<lparr>nd_mask_shares := (nd_mask_shares d)(i \<mapsto> b)\<rparr>"
  let ?t = "case nd_index_to_client ?d i of None \<Rightarrow> touched | Some client \<Rightarrow> push_new touched client"
  have "record_shares serialize rest ?d ?t = (Ok ts, d')" using 2(2) b by simp
  note IH = 2(1) [OF b refl this]
  have "set touched \<subseteq> set ?t" "nd_index_to_client d i = Some client \<Longrightarrow> client \<in> set ?t" for client
    by (auto split: option.split)
  with IH show ?case by (auto split: if_splits)
qed simp

lemma complete_requests_no_ready:
  assumes "node_exec_inv d1" and "complete_requests touched d1 [] = (Ok ds, d')"
    and "\<And>client req. nd_assigned_sinks d1 client = Some req \<Longrightarrow> owned_shares d1 client req \<Longrightarrow> client \<in> set touched"
  shows "no_ready d' \<and> (\<forall>client req. nd_assigned_sinks d1 client = Some req \<longrightarrow> owned_shares d' client req \<longrightarrow>
    (req_sink req, shares_message d' req) \<in> set ds)"
proof -
  have same: "same_slots d1 d'" using complete_requests_same_slots [of d1 touched "[]"] assms(2) by simp
  note own = same_slots_owned [OF same]
  have "\<not> owned_shares d1 client req" if "nd_assigned_sinks d' client = Some req" for client req
  proof
    assume o: "owned_shares d1 client req"
    have "nd_assigned_sinks d1 client \<noteq> None" using complete_requests_none [OF assms(2)] that by (metis option.distinct(1))
    then obtain r where r: "nd_assigned_sinks d1 client = Some r" by blast
    from complete_requests_answers [OF assms(1,2) r] that o assms(3) [OF r] show False
      by (auto split: if_splits)
  qed
  moreover have "(req_sink req, shares_message d1 req) \<in> set ds"
    if "nd_assigned_sinks d1 client = Some req" "owned_shares d1 client req" for client req
    using complete_requests_answers [OF assms(1,2) that(1)] assms(3) [OF that] that by simp
  ultimately show ?thesis using own by (simp add: no_ready_def)
qed

lemma add_reservations_completes:
  assumes inv: "node_exec_inv d" and ready: "no_ready d" and op: "node_add_reservations rs d = (Ok ds, d')"
  shows "no_ready d' \<and> (\<forall>client req. nd_assigned_sinks d client = Some req \<longrightarrow> owned_shares d' client req \<longrightarrow>
    (req_sink req, shares_message d' req) \<in> set ds)"
proof -
  obtain d1 touched where r: "register_reservations rs d [] = (d1, touched)"
    by (cases "register_reservations rs d []")
  have c: "complete_requests touched d1 [] = (Ok ds, d')"
    using op r by (auto simp: node_add_reservations_def split: if_splits)
  have inv1: "node_exec_inv d1" using register_reservations_inv [OF inv, of rs "[]"] r by simp
  have f: "nd_assigned_sinks d1 = nd_assigned_sinks d" "nd_mask_shares d1 = nd_mask_shares d"
    "set touched = amr_client ` set rs" using register_reservations_frame [of rs d "[]"] r by simp_all
  have "client \<in> set touched" if "nd_assigned_sinks d1 client = Some req" "owned_shares d1 client req" for client req
  proof (rule ccontr)
    assume "client \<notin> set touched"
    then have "owned_shares d client req"
      using that(2) register_reservations_owner [of rs d "[]" _ client] r f by (auto simp: owned_shares_def)
    with ready that(1) f(1) show False by (simp add: no_ready_def)
  qed
  from complete_requests_no_ready [OF inv1 c this] f(1) show ?thesis by simp
qed

lemma add_shares_completes:
  assumes inv: "node_exec_inv d" and ready: "no_ready d" and op: "node_add_shares serialize shares d = (Ok ds, d')"
  shows "no_ready d' \<and> (\<forall>client req. nd_assigned_sinks d client = Some req \<longrightarrow> owned_shares d' client req \<longrightarrow>
    (req_sink req, shares_message d' req) \<in> set ds)"
proof -
  obtain touched d1 where r: "record_shares serialize shares d [] = (Ok touched, d1)"
    and c: "complete_requests touched d1 [] = (Ok ds, d')"
    using op by (auto simp: node_add_shares_def split: if_splits result.splits prod.splits)
  have inv1: "node_exec_inv d1" using record_shares_inv [OF inv, of serialize shares "[]"] r by simp
  note f = record_shares_frame [OF r]
  have "client \<in> set touched" if "nd_assigned_sinks d1 client = Some req" "owned_shares d1 client req" for client req
  proof (rule ccontr)
    assume "client \<notin> set touched"
    then have "owned_shares d client req"
      using that(2) f unfolding owned_shares_def by metis
    with ready that(1) f show False by (simp add: no_ready_def)
  qed
  from complete_requests_no_ready [OF inv1 c this] f show ?thesis by simp
qed

text \<open>
  C19. Reservations and mask shares may reach a node in any order and in any batches. If no
  request that could be answered was left pending, then after a batch that succeeds none is left
  either, and every request that the batch made answerable has been answered with the shares of
  its whole range.
\<close>

theorem requests_answered_when_complete:
  assumes "node_exec_inv d" and "no_ready d"
    and "batch = node_add_reservations rs \<or> batch = node_add_shares serialize shares"
    and "batch d = (Ok ds, d')"
  shows "no_ready d' \<and> (\<forall>client req. nd_assigned_sinks d client = Some req \<longrightarrow> owned_shares d' client req \<longrightarrow>
    (req_sink req, shares_message d' req) \<in> set ds)"
  using assms add_reservations_completes add_shares_completes by metis

definition demo_slot :: NodeRPCExecutionState where
  "demo_slot =
     \<lparr>nd_index_to_client = [0 \<mapsto> [21]],
      nd_assigned_reservations = [0 \<mapsto> \<lparr>amr_client = [21], amr_reserved_index = 0, amr_input_ordinal = 0\<rparr>],
      nd_assigned_sinks = [[21] \<mapsto> \<lparr>req_start = 0, req_count = 1, req_sink = 5\<rparr>],
      nd_mask_shares = Map.empty\<rparr>"

theorem requests_answered_when_complete_witness:
  "(5, MaskSharesMsg [\<lparr>ams_reserved_index = 0, ams_share_bytes = [77]\<rparr>]) \<in>
     set (case fst (node_add_shares Some [(0, [77])] demo_slot) of Ok ds \<Rightarrow> ds | _ \<Rightarrow> [])"
proof -
  let ?x = "node_add_shares Some [(0, [77])] demo_slot"
  let ?req = "\<lparr>req_start = 0, req_count = 1, req_sink = 5\<rparr>"
  have r: "u64_range 0 1 = [0]" by code_simp
  have inv: "node_exec_inv demo_slot" by (auto simp: node_exec_inv_def demo_slot_def split: if_splits)
  have ready: "no_ready demo_slot"
    by (auto simp: no_ready_def demo_slot_def owned_shares_def range_of_def r split: if_splits)
  have ok: "is_Ok (fst ?x)" by code_simp
  have "nd_index_to_client (snd ?x) 0 = Some [21]" "nd_mask_shares (snd ?x) 0 = Some [77]" by code_simp+
  with ok obtain ds d' where ds: "?x = (Ok ds, d')"
    and slots: "nd_index_to_client d' 0 = Some [21]" "nd_mask_shares d' 0 = Some [77]"
    by (cases ?x) (auto simp: is_Ok_iff)
  have "nd_assigned_sinks demo_slot [21] = Some ?req" by (simp add: demo_slot_def)
  moreover have "owned_shares d' [21] ?req"
    by (simp add: owned_shares_def in_range_def range_of_def r slots)
  ultimately have "(req_sink ?req, shares_message d' ?req) \<in> set ds"
    using requests_answered_when_complete [OF inv ready disjI2 [OF refl] ds] by blast
  moreover have "shares_message d' ?req = MaskSharesMsg [\<lparr>ams_reserved_index = 0, ams_share_bytes = [77]\<rparr>]"
    by (simp add: shares_message_def range_of_def r slots)
  ultimately show ?thesis by (simp add: ds)
qed

section \<open>Who receives mask shares\<close>

lemma batch_sends_to_owner:
  assumes inv: "node_exec_inv d"
    and "batch = node_add_reservations rs \<or> batch = node_add_shares serialize shares"
    and "batch d = (Ok ds, d')" and "(k, m) \<in> set ds"
  shows "\<exists>client req. nd_assigned_sinks d client = Some req \<and> k = req_sink req \<and>
    owned_shares d' client req \<and> m = shares_message d' req"
proof -
  obtain d1 touched where d1: "node_exec_inv d1" "nd_assigned_sinks d1 = nd_assigned_sinks d"
    and c: "complete_requests touched d1 [] = (Ok ds, d')"
    using assms(2)
  proof
    assume b: "batch = node_add_reservations rs"
    show thesis
      using that [of "fst (register_reservations rs d [])" "snd (register_reservations rs d [])"]
        register_reservations_inv [OF inv] register_reservations_frame(1) assms(3)
      by (auto simp: b node_add_reservations_def split_beta split: if_splits)
  next
    assume b: "batch = node_add_shares serialize shares"
    obtain r d1 where r: "record_shares serialize shares d [] = (r, d1)"
      by (cases "record_shares serialize shares d []")
    with assms(3) b obtain touched where t: "r = Ok touched" "complete_requests touched d1 [] = (Ok ds, d')"
      by (auto simp: node_add_shares_def split: if_splits result.splits)
    with that [of d1 touched] r record_shares_inv [OF inv, of serialize shares "[]"] record_shares_frame
    show thesis by fastforce
  qed
  have same: "same_slots d1 d'" using complete_requests_same_slots [of d1 touched "[]"] c by simp
  from complete_requests_sends [OF d1(1) c assms(4)] same_slots_owned [OF same] d1(2) show ?thesis by auto
qed

lemma receive_sends_to_caller:
  assumes "node_exec_inv d" and "map_of s e = Some d"
    and "receive_assigned_mask_shares ok accepted caller e start cnt s = (r, s', ds)" and "(k, m) \<in> set ds"
  shows "accepted = Some k \<and> owned_shares d caller \<lparr>req_start = start, req_count = cnt, req_sink = k\<rparr> \<and>
    m = shares_message d \<lparr>req_start = start, req_count = cnt, req_sink = k\<rparr>"
proof -
  let ?d = "d\<lparr>nd_assigned_sinks := (nd_assigned_sinks d)(caller := None)\<rparr>"
  have a: "assigned_mask_shares_for_client ?d = assigned_mask_shares_for_client d"
    by (rule same_slots_collect) simp
  obtain xs where xs: "assigned_mask_shares_for_client d caller start cnt = Ok (Some xs)"
    "accepted = Some k" "m = MaskSharesMsg xs"
    using assms(2-4) a
    by (auto simp: receive_assigned_mask_shares_def Let_def split: result.splits option.splits)
  then show ?thesis
    using request_ready [OF assms(1), of caller "\<lparr>req_start = start, req_count = cnt, req_sink = k\<rparr>" xs] by simp
qed

text \<open>
  A node hands a mask share to the client that reserved the slot and to nobody else. Whatever
  a batch of reservations or shares sends goes to the sink of a pending request and holds the
  shares of exactly the requested range, every slot of which is reserved by the client that made
  the request; and a subscription that is answered at once is answered with slots of its caller.
\<close>

theorem mask_shares_only_to_owner:
  assumes "node_reachable s" and "map_of s e = Some d"
    and "add_assigned_reserved_indices_for_execution e rs s = (r1, s1, ds1)"
    and "add_mask_shares_for_execution serialize e shares s = (r2, s2, ds2)"
    and "receive_assigned_mask_shares ok accepted caller e start cnt s = (r3, s3, ds3)"
  shows "(\<forall>(k, m) \<in> set ds1. \<exists>d' client req. map_of s1 e = Some d' \<and> nd_assigned_sinks d client = Some req \<and>
       k = req_sink req \<and> owned_shares d' client req \<and> m = shares_message d' req) \<and>
    (\<forall>(k, m) \<in> set ds2. \<exists>d' client req. map_of s2 e = Some d' \<and> nd_assigned_sinks d client = Some req \<and>
       k = req_sink req \<and> owned_shares d' client req \<and> m = shares_message d' req) \<and>
    (\<forall>(k, m) \<in> set ds3. accepted = Some k \<and>
       owned_shares d caller \<lparr>req_start = start, req_count = cnt, req_sink = k\<rparr> \<and>
       m = shares_message d \<lparr>req_start = start, req_count = cnt, req_sink = k\<rparr>)"
proof -
  have inv: "node_exec_inv d" using node.reachable_inv [OF assms(1)] assms(2) by (simp add: node_inv_def)
  have batch: "\<forall>(k, m) \<in> set ds. \<exists>d' client req. map_of s' e = Some d' \<and> nd_assigned_sinks d client = Some req \<and>
      k = req_sink req \<and> owned_shares d' client req \<and> m = shares_message d' req"
    if "node_with_execution e s b = (r, s', ds)" and "b = node_add_reservations rs \<or> b = node_add_shares serialize shares"
    for b r s' ds
  proof (cases "b d")
    case (Pair x d')
    then show ?thesis
      using that(1) assms(2) batch_sends_to_owner [OF inv that(2), of _ d']
      by (cases x) (auto simp: node_with_execution_def hm_simps)
  qed
  show ?thesis
  proof (intro conjI)
    show "\<forall>(k, m) \<in> set ds1. \<exists>d' client req. map_of s1 e = Some d' \<and> nd_assigned_sinks d client = Some req \<and>
       k = req_sink req \<and> owned_shares d' client req \<and> m = shares_message d' req"
      by (rule batch [OF assms(3) [unfolded add_assigned_reserved_indices_for_execution_def]]) simp
    show "\<forall>(k, m) \<in> set ds2. \<exists>d' client req. map_of s2 e = Some d' \<and> nd_assigned_sinks d client = Some req \<and>
       k = req_sink req \<and> owned_shares d' client req \<and> m = shares_message d' req"
      by (rule batch [OF assms(4) [unfolded add_mask_shares_for_execution_def]]) simp
    show "\<forall>(k, m) \<in> set ds3. accepted = Some k \<and>
       owned_shares d caller \<lparr>req_start = start, req_count = cnt, req_sink = k\<rparr> \<and>
       m = shares_message d \<lparr>req_start = start, req_count = cnt, req_sink = k\<rparr>"
      using receive_sends_to_caller [OF inv assms(2,5)] by blast
  qed
qed

text \<open>Three clients with one slot each; two of them wait, the second for a slot that is not its own.\<close>

definition demo_node :: NodeRPCServerInternal where
  "demo_node =
     fst (snd (receive_assigned_mask_shares (\<lambda>_ _. True) (Some 2) [20] (ExecutionId [7]) 1 2
       (fst (snd (receive_assigned_mask_shares (\<lambda>_ _. True) (Some 1) [21] (ExecutionId [7]) 0 1
         (fst (snd (add_assigned_reserved_indices_for_execution (ExecutionId [7])
           [\<lparr>amr_client = [21], amr_reserved_index = 0, amr_input_ordinal = 0\<rparr>,
            \<lparr>amr_client = [20], amr_reserved_index = 1, amr_input_ordinal = 0\<rparr>,
            \<lparr>amr_client = [22], amr_reserved_index = 2, amr_input_ordinal = 0\<rparr>]
           (snd (node_register_execution (ExecutionId [7]) []))))))))))"

theorem mask_shares_only_to_owner_witness:
  "\<exists>d' client req. map_of (fst (snd (add_mask_shares_for_execution Some (ExecutionId [7]) [(0, [100])] demo_node)))
       (ExecutionId [7]) = Some d' \<and> nd_index_to_client d' 0 = Some client \<and> 1 = req_sink req \<and>
     owned_shares d' client req"
proof -
  let ?e = "ExecutionId [7]"
  let ?x = "add_assigned_reserved_indices_for_execution ?e [] demo_node"
  let ?y = "add_mask_shares_for_execution Some ?e [(0, [100])] demo_node"
  let ?z = "receive_assigned_mask_shares (\<lambda>_ _. True) None [20] ?e 0 0 demo_node"
  have base: "node_reachable []" by (rule reachable_init) (simp add: node_init_def)
  have reach: "node_reachable demo_node"
    unfolding demo_node_def
    by (rule reachable_step [OF reachable_step [OF reachable_step [OF reachable_step
            [OF base node_step_register] node_step_reserve] node_step_receive] node_step_receive])
  have "\<not> Option.is_none (map_of demo_node ?e)" by code_simp
  then obtain d where d: "map_of demo_node ?e = Some d" by (auto simp: Option.is_none_def)
  have eq: "?x = (fst ?x, fst (snd ?x), snd (snd ?x))" "?y = (fst ?y, fst (snd ?y), snd (snd ?y))"
    "?z = (fst ?z, fst (snd ?z), snd (snd ?z))" by simp_all
  have "snd (snd ?y) = [(1, MaskSharesMsg [\<lparr>ams_reserved_index = 0, ams_share_bytes = [100]\<rparr>])]" by code_simp
  then obtain d' client req where r: "map_of (fst (snd ?y)) ?e = Some d'" "1 = req_sink req"
    "owned_shares d' client req" "MaskSharesMsg [\<lparr>ams_reserved_index = 0, ams_share_bytes = [100]\<rparr>] = shares_message d' req"
    using mask_shares_only_to_owner [OF reach d eq] by auto
  then have "0 \<in> set (range_of req)" by (auto simp: shares_message_def)
  with r show ?thesis by (auto simp: owned_shares_def)
qed

text \<open>
  A pending request for somebody else's slot makes the node lose the answers to others: when
  the shares of all three slots arrive in one batch, the first client's answer is already taken
  out of the pending requests when the second client's request fails, and the failure discards it.
  The first client is sent nothing, its request is gone, and the shares cannot be added again.
\<close>

theorem failed_range_drops_other_answers:
  "fst (add_mask_shares_for_execution Some (ExecutionId [7]) [(0, [100]), (1, [101]), (2, [102])] demo_node) =
     Err (AuthenticationFailed [20]) \<and>
   snd (snd (add_mask_shares_for_execution Some (ExecutionId [7]) [(0, [100]), (1, [101]), (2, [102])] demo_node)) = [] \<and>
   Option.is_none (nd_assigned_sinks (the (map_of (fst (snd (add_mask_shares_for_execution Some (ExecutionId [7])
     [(0, [100]), (1, [101]), (2, [102])] demo_node))) (ExecutionId [7]))) [21]) \<and>
   fst (add_mask_shares_for_execution Some (ExecutionId [7]) [(0, [100])]
     (fst (snd (add_mask_shares_for_execution Some (ExecutionId [7]) [(0, [100]), (1, [101]), (2, [102])] demo_node)))) =
     Err IndexAlreadyAdded"
  by code_simp

section \<open>Recovering masks\<close>

lemma length_u64_range: "length (u64_range a b) = unat b - unat a"
  by (simp add: u64_range_def)

lemma nth_u64_range: "j < unat b - unat a \<Longrightarrow> u64_range a b ! j = a + of_nat j"
  by (simp add: u64_range_def)

lemma distinct_u64_range: "distinct (u64_range a b)"
proof -
  have "inj_on (of_nat :: nat \<Rightarrow> u64) {unat a..<unat b}"
  proof (rule inj_onI)
    fix x y
    assume x: "x \<in> {unat a..<unat b}" and y: "y \<in> {unat a..<unat b}" and eq: "(of_nat x :: u64) = of_nat y"
    have "unat b < 2 ^ LENGTH(64)" by (rule unsigned_less)
    with x y have "unat (of_nat x :: u64) = x" "unat (of_nat y :: u64) = y"
      by (simp_all add: unsigned_of_nat take_bit_nat_eq_self)
    with eq show "x = y" by metis
  qed
  then show ?thesis by (simp add: u64_range_def distinct_map)
qed

text \<open>A share that some reply carries for slot \<open>i\<close>.\<close>

definition replied :: "(bytes \<Rightarrow> 's option) \<Rightarrow> node_reply list \<Rightarrow> u64 \<Rightarrow> 's \<Rightarrow> bool" where
  "replied deserialize replies i share \<longleftrightarrow>
     (\<exists>as a. ReplyShares as \<in> set replies \<and> a \<in> set as \<and> ams_reserved_index a = i \<and>
        deserialize (ams_share_bytes a) = Some share)"

lemma push_shares_from:
  assumes "push_shares deserialize as sets = Ok sets'" and "sets' i = Some xs" and "x \<in> set xs"
  shows "(\<exists>ys. sets i = Some ys \<and> x \<in> set ys) \<or>
    (\<exists>a \<in> set as. ams_reserved_index a = i \<and> deserialize (ams_share_bytes a) = Some x)"
  using assms
proof (induction deserialize as sets rule: push_shares.induct)
  case (2 deserialize a as sets)
  then show ?case by (fastforce split: option.splits if_splits)
qed auto

lemma gather_shares_from:
  assumes "gather_shares deserialize min_shares expected replies sets = Ok sets'"
    and "sets' i = Some xs" and "x \<in> set xs"
  shows "(\<exists>ys. sets i = Some ys \<and> x \<in> set ys) \<or> replied deserialize replies i x"
  using assms
proof (induction deserialize min_shares expected replies sets rule: gather_shares.induct)
  case (3 deserialize min_shares expected replies sets)
  then show ?case by (auto simp: replied_def)
next
  case (4 deserialize min_shares expected as replies sets)
  then obtain s1 where s1: "push_shares deserialize as sets = Ok s1"
    and rest: "sets' = s1 \<or> gather_shares deserialize min_shares expected replies s1 = Ok sets'"
    by (auto simp: and_then_Ok_iff split: if_splits)
  have from_s1: "(\<exists>ys. sets i = Some ys \<and> x \<in> set ys) \<or> replied deserialize (ReplyShares as # replies) i x"
    if "s1 i = Some ys" "x \<in> set ys" for ys
    using push_shares_from [OF s1 that] by (auto simp: replied_def)
  show ?case
  proof (cases "sets' = s1")
    case True
    with from_s1 4(3,4) show ?thesis by blast
  next
    case False
    with 4(2) rest s1 have "gather_shares deserialize min_shares expected replies s1 = Ok sets'"
      "expected = sort_key unat (map ams_reserved_index as)"
      "\<not> (\<forall>i \<in> set expected. case s1 i of None \<Rightarrow> False | Some xs \<Rightarrow> min_shares \<le> length xs)"
      by (auto simp: and_then_Ok_iff split: if_splits)
    from 4(1) [OF _ this(3) this(1) 4(3,4)] this(2) from_s1 show ?thesis
      by (auto simp: replied_def)
  qed
qed auto

lemma recover_masks_spec:
  assumes "recover_masks recover min_shares sets is = Ok masks" and "distinct is"
  shows "length masks = length is \<and> (\<forall>j < length is. \<exists>xs. sets (is ! j) = Some xs \<and>
    min_shares \<le> length xs \<and> recover xs = Some (masks ! j))"
  using assms
proof (induction recover min_shares sets "is" arbitrary: masks rule: recover_masks.induct)
  case (2 recover min_shares sets i "is")
  then obtain xs v rest where a: "sets i = Some xs" "\<not> length xs < min_shares" "recover xs = Some v"
    "recover_masks recover min_shares (sets(i := None)) is = Ok rest" "masks = v # rest"
    by (auto simp: and_then_Ok_iff split: option.splits if_splits)
  note IH = 2(1) [OF a(1) a(2) a(3) a(4)]
  have "i \<notin> set is" "distinct is" using 2(3) by auto
  moreover from this have "is ! j \<noteq> i" if "j < length is" for j using that nth_mem by metis
  ultimately show ?case using IH a by (auto simp: nth_Cons less_Suc_eq_0_disj split: nat.split)
qed simp

text \<open>
  C20. When the client obtains its masks, it obtains one per requested slot, in order, each
  recovered from at least \<open>min_shares\<close> shares that nodes sent for that very slot.
\<close>

theorem receive_assigned_masks_sound:
  assumes "receive_assigned_masks deserialize min_shares recover opened replies start cnt = Ok masks"
  shows "length masks = unat cnt \<and> (\<forall>j < unat cnt. \<exists>xs. min_shares \<le> length xs \<and>
    recover xs = Some (masks ! j) \<and> (\<forall>x \<in> set xs. replied deserialize replies (start + of_nat j) x))"
proof (cases "cnt = 0")
  case True
  then show ?thesis using assms by (auto simp: receive_assigned_masks_def split: option.splits)
next
  case False
  then obtain sets stop where e: "checked_add start cnt = Some stop"
    and g: "gather_shares deserialize min_shares (u64_range start stop) replies Map.empty = Ok sets"
    and r: "recover_masks recover min_shares sets (u64_range start stop) = Ok masks"
    using assms by (auto simp: receive_assigned_masks_def and_then_Ok_iff Let_def split: option.splits if_splits)
  have len: "unat stop - unat start = unat cnt" using unat_checked_add [OF e] by simp
  have "distinct (u64_range start stop)"
    by (rule distinct_u64_range)
  from recover_masks_spec [OF r this] gather_shares_from [OF g]
  show ?thesis by (fastforce simp: length_u64_range len nth_u64_range)
qed

theorem receive_assigned_masks_sound_witness:
  "\<exists>masks. receive_assigned_masks Some 2 (\<lambda>xs. Some (concat xs)) [True, True]
     [ReplyShares [\<lparr>ams_reserved_index = 3, ams_share_bytes = [1]\<rparr>, \<lparr>ams_reserved_index = 4, ams_share_bytes = [2]\<rparr>],
      ReplyEnded,
      ReplyShares [\<lparr>ams_reserved_index = 4, ams_share_bytes = [5]\<rparr>, \<lparr>ams_reserved_index = 3, ams_share_bytes = [4]\<rparr>]]
     3 2 = Ok masks \<and> length masks = 2"
proof -
  let ?x = "receive_assigned_masks Some 2 (\<lambda>xs. Some (concat xs)) [True, True]
     [ReplyShares [\<lparr>ams_reserved_index = 3, ams_share_bytes = [1]\<rparr>, \<lparr>ams_reserved_index = 4, ams_share_bytes = [2]\<rparr>],
      ReplyEnded,
      ReplyShares [\<lparr>ams_reserved_index = 4, ams_share_bytes = [5]\<rparr>, \<lparr>ams_reserved_index = 3, ams_share_bytes = [4]\<rparr>]]
     3 2"
  have ok: "?x = Ok [[1, 4], [2, 5]]" by code_simp
  from receive_assigned_masks_sound [OF ok] ok show ?thesis by simp
qed

end
