(* ===== verification/Execution_Invariant.thy ===== *)
theory Execution_Invariant
  imports Coord_Execution "HOL-Library.Sublist"
begin

text \<open>
  What holds of one execution at any time, and what an operation may do to it.

  \<^item> \<open>slots_inv\<close>: the reservation and input tables are exactly what the recorded event histories
    say, slot by slot; an input is only present where its slot is reserved; an assigned slot
    belongs to the client it was assigned to.
  \<^item> \<open>rounds_inv\<close>: the applied rounds form a legal path, each was voted for by a quorum of
    parties, and the program only starts with every input present unless the input rounds were
    skipped.
  \<^item> \<open>outputs_inv\<close>: output shares come from parties and are addressed to output clients.
  \<^item> \<open>evolves\<close>: a later state of the same execution. Ownership, inputs, applied rounds, shares,
    votes and histories are only ever extended.

  The locale \<open>execution_op\<close> is the contract between the operations of \<open>Coord_Execution\<close> and the
  server that stores their results; every operation is an interpretation of it.
\<close>

section \<open>Histories\<close>

fun apply_reservation_event :: "ClientIdentity option list \<Rightarrow> Event \<Rightarrow> ClientIdentity option list" where
  "apply_reservation_event owners (ReservedInputEvent client is) =
     foldl (\<lambda>os i. os[unat i := Some client]) owners is"
| "apply_reservation_event owners _ = owners"

definition replay_reservations :: "nat \<Rightarrow> Event list \<Rightarrow> ClientIdentity option list" where
  "replay_reservations n events = foldl apply_reservation_event (replicate n None) events"

fun apply_input_event :: "bytes option list \<Rightarrow> Event \<Rightarrow> bytes option list" where
  "apply_input_event inputs (MaskedInputEvent client pairs) =
     foldl (\<lambda>xs (i, b). xs[unat i := Some b]) inputs pairs"
| "apply_input_event inputs _ = inputs"

definition replay_inputs :: "nat \<Rightarrow> Event list \<Rightarrow> bytes option list" where
  "replay_inputs n events = foldl apply_input_event (replicate n None) events"

fun event_size :: "Event \<Rightarrow> nat" where
  "event_size (ReservedInputEvent client is) = length is"
| "event_size (MaskedInputEvent client pairs) = length pairs"
| "event_size _ = 0"

definition assigned_reservations ::
  "InputSlotAssignment list \<Rightarrow> ClientIdentity \<Rightarrow> u64 list \<Rightarrow> AssignedMaskReservation list" where
  "assigned_reservations slots client is =
     concat (map (\<lambda>i. case vec_get slots (unat i) of
       Some slot \<Rightarrow> [\<lparr>amr_client = client, amr_reserved_index = i, amr_input_ordinal = slot_label slot\<rparr>]
     | None \<Rightarrow> []) is)"

definition assigned_inputs ::
  "InputSlotAssignment list \<Rightarrow> ClientIdentity \<Rightarrow> (u64 \<times> bytes) list \<Rightarrow> AssignedMaskedInputEvent list" where
  "assigned_inputs slots client pairs =
     concat (map (\<lambda>(i, b). case vec_get slots (unat i) of
       Some slot \<Rightarrow> [\<lparr>ami_client = client, ami_reserved_index = i, ami_input_ordinal = slot_label slot,
         ami_masked_input = b\<rparr>]
     | None \<Rightarrow> []) pairs)"

fun event_reservations :: "InputSlotAssignment list \<Rightarrow> Event \<Rightarrow> AssignedMaskReservation list" where
  "event_reservations slots (ReservedInputEvent client is) = assigned_reservations slots client is"
| "event_reservations slots _ = []"

fun event_inputs :: "InputSlotAssignment list \<Rightarrow> Event \<Rightarrow> AssignedMaskedInputEvent list" where
  "event_inputs slots (MaskedInputEvent client pairs) = assigned_inputs slots client pairs"
| "event_inputs slots _ = []"

lemma apply_reservations_eq:
  "apply_reservations client is d =
     (assigned_reservations (ex_input_assignments d) client is,
      d\<lparr>ex_reserved_indices := foldl (\<lambda>os i. os[unat i := Some client]) (ex_reserved_indices d) is,
        ex_n_reserved := ex_n_reserved d + of_nat (length is)\<rparr>)"
  by (induction "is" arbitrary: d) (simp_all add: assigned_reservations_def ac_simps)

lemma apply_submissions_eq:
  "apply_submissions client pairs d =
     (assigned_inputs (ex_input_assignments d) client pairs,
      d\<lparr>ex_masked_inputs := foldl (\<lambda>xs (i, b). xs[unat i := Some b]) (ex_masked_inputs d) pairs\<rparr>)"
  by (induction pairs arbitrary: d) (auto simp: assigned_inputs_def)

lemma length_foldl_owner [simp]:
  "length (foldl (\<lambda>os i. os[unat i := Some c]) os is) = length os" for "is" :: "u64 list"
  by (induction "is" arbitrary: os) simp_all

lemma nth_foldl_owner:
  "k < length os \<Longrightarrow> foldl (\<lambda>os i. os[unat i := Some c]) os is ! k =
     (if k \<in> unat ` set is then Some c else os ! k)" for "is" :: "u64 list"
  by (induction "is" arbitrary: os) (auto simp: nth_list_update)

lemma length_foldl_input [simp]:
  "length (foldl (\<lambda>xs (i, b). xs[unat i := Some b]) xs pairs) = length xs"
  for pairs :: "(u64 \<times> bytes) list"
  by (induction pairs arbitrary: xs) auto

lemma nth_foldl_input:
  "k < length xs \<Longrightarrow> foldl (\<lambda>xs (i, b). xs[unat i := Some b]) xs pairs ! k =
     (case map_of (rev (map (\<lambda>(i, b). (unat i, b)) pairs)) k of Some b \<Rightarrow> Some b | None \<Rightarrow> xs ! k)"
  for pairs :: "(u64 \<times> bytes) list"
  by (induction pairs arbitrary: xs) (auto simp: nth_list_update map_add_def split: option.splits)

lemma input_written_iff:
  "map_of (rev (map (\<lambda>(i, b). (unat i, b)) pairs)) k = None \<longleftrightarrow> k \<notin> (unat \<circ> fst) ` set pairs"
  for pairs :: "(u64 \<times> bytes) list"
  by (auto simp: map_of_eq_None_iff image_iff split_beta)

lemma foldl_input_None_iff:
  fixes pairs :: "(u64 \<times> bytes) list"
  assumes "k < length xs"
  shows "foldl (\<lambda>xs (i, b). xs[unat i := Some b]) xs pairs ! k = None \<longleftrightarrow>
     k \<notin> (unat \<circ> fst) ` set pairs \<and> xs ! k = None"
proof (cases "map_of (rev (map (\<lambda>(i, b). (unat i, b)) pairs)) k")
  case None
  then show ?thesis
    unfolding nth_foldl_input [OF assms] input_written_iff [symmetric] by simp
next
  case (Some b)
  then show ?thesis
    unfolding nth_foldl_input [OF assms] input_written_iff [symmetric] by simp
qed

lemma length_apply_reservation_event [simp]:
  "length (apply_reservation_event os e) = length os"
  by (cases e) simp_all

lemma length_apply_input_event [simp]: "length (apply_input_event xs e) = length xs"
  by (cases e) simp_all

lemma length_replay_reservations [simp]: "length (replay_reservations n events) = n"
proof -
  have "length (foldl apply_reservation_event os events) = length os" for os
    by (induction events arbitrary: os) simp_all
  then show ?thesis by (simp add: replay_reservations_def)
qed

lemma length_replay_inputs [simp]: "length (replay_inputs n events) = n"
proof -
  have "length (foldl apply_input_event xs events) = length xs" for xs
    by (induction events arbitrary: xs) simp_all
  then show ?thesis by (simp add: replay_inputs_def)
qed

section \<open>Validation\<close>

lemma validate_reservations_Ok:
  "validate_reservations d client is = Ok u \<longleftrightarrow>
     (\<forall>i \<in> set is. unat i < length (ex_reserved_indices d) \<and> ex_reserved_indices d ! unat i = None \<and>
        (\<forall>slot. vec_get (ex_input_assignments d) (unat i) = Some slot \<longrightarrow>
           input_slot_client d slot = Some client))"
  by (induction "is") (auto simp: vec_get_Some split: option.splits)

lemma validate_reservations_not_Panic [simp]: "validate_reservations d client is \<noteq> Panic"
  by (induction "is") (auto split: option.splits)

lemma validate_submissions_Ok:
  assumes "length (ex_masked_inputs d) = length (ex_reserved_indices d)"
  shows "validate_submissions d client is = Ok u \<longleftrightarrow>
     (\<forall>i \<in> set is. unat i < length (ex_reserved_indices d) \<and>
        ex_reserved_indices d ! unat i = Some client \<and> ex_masked_inputs d ! unat i = None)"
  using assms by (induction "is") (auto split: option.splits)

lemma validate_submissions_not_Panic:
  "length (ex_masked_inputs d) = length (ex_reserved_indices d) \<Longrightarrow>
     validate_submissions d client is \<noteq> Panic"
  by (induction "is") (auto split: option.splits)

section \<open>The invariant\<close>

fun event_client :: "Event \<Rightarrow> ClientIdentity option" where
  "event_client (ReservedInputEvent client is) = Some client"
| "event_client (MaskedInputEvent client pairs) = Some client"
| "event_client _ = None"

definition n_slots :: "CoordinatorExecutionState \<Rightarrow> nat" where
  "n_slots d = unat (reg_n_inputs (ex_registration d))"

definition slot_of :: "CoordinatorExecutionState \<Rightarrow> nat \<Rightarrow> ClientIdentity option" where
  "slot_of d i = (case vec_get (ex_input_assignments d) i of
     Some slot \<Rightarrow> input_slot_client d slot | None \<Rightarrow> None)"

lemma slot_of_cong:
  "ex_registration d' = ex_registration d \<Longrightarrow> ex_input_assignments d' = ex_input_assignments d \<Longrightarrow>
     slot_of d' = slot_of d"
  unfolding slot_of_def input_slot_client_def by presburger

text \<open>Events name slots of the execution, with the client that owns them.\<close>

fun reservation_owned :: "nat \<Rightarrow> ClientIdentity option list \<Rightarrow> Event \<Rightarrow> bool" where
  "reservation_owned n owners (ReservedInputEvent client indices) \<longleftrightarrow>
     (\<forall>i \<in> set indices. unat i < n \<and> owners ! unat i = Some client)"
| "reservation_owned n owners _ \<longleftrightarrow> False"

fun input_owned :: "nat \<Rightarrow> ClientIdentity option list \<Rightarrow> Event \<Rightarrow> bool" where
  "input_owned n owners (MaskedInputEvent client pairs) \<longleftrightarrow>
     (\<forall>p \<in> set pairs. unat (fst p) < n \<and> owners ! unat (fst p) = Some client)"
| "input_owned n owners _ \<longleftrightarrow> False"

lemma owned_mono:
  assumes "\<And>i client. i < n \<Longrightarrow> owners ! i = Some client \<Longrightarrow> owners' ! i = Some client"
  shows "reservation_owned n owners ev \<Longrightarrow> reservation_owned n owners' ev"
    and "input_owned n owners ev \<Longrightarrow> input_owned n owners' ev"
  using assms by (cases ev; simp)+

definition histories_inv :: "CoordinatorExecutionState \<Rightarrow> bool" where
  "histories_inv d \<longleftrightarrow>
     ex_reserved_indices d = replay_reservations (n_slots d) (ex_reserved_index_events d) \<and>
     ex_masked_inputs d = replay_inputs (n_slots d) (ex_masked_input_events d) \<and>
     ex_n_reserved d = of_nat (sum_list (map event_size (ex_reserved_index_events d))) \<and>
     ex_assigned_reserved_index_events d =
       concat (map (event_reservations (ex_input_assignments d)) (ex_reserved_index_events d)) \<and>
     ex_assigned_masked_input_events d =
       concat (map (event_inputs (ex_input_assignments d)) (ex_masked_input_events d))"

definition slots_inv :: "CoordinatorExecutionState \<Rightarrow> bool" where
  "slots_inv d \<longleftrightarrow>
     length (ex_reserved_indices d) = n_slots d \<and> length (ex_masked_inputs d) = n_slots d \<and>
     ex_output_clients d = reg_output_clients (ex_registration d) \<and>
     ex_input_assignments d = expand_input_ranges (ia_ranges (reg_input_assignment (ex_registration d))) \<and>
     (ia_ranges (reg_input_assignment (ex_registration d)) \<noteq> [] \<longrightarrow>
        reg_n_inputs (ex_registration d) = ranges_total (ia_ranges (reg_input_assignment (ex_registration d)))) \<and>
     (\<forall>i < n_slots d. ex_masked_inputs d ! i \<noteq> None \<longrightarrow> ex_reserved_indices d ! i \<noteq> None) \<and>
     (\<forall>i < n_slots d. \<forall>client. ex_reserved_indices d ! i = Some client \<longrightarrow>
        i < length (ex_input_assignments d) \<longrightarrow> slot_of d i = Some client)"

definition quorum_at :: "nat \<Rightarrow> CoordinatorExecutionState \<Rightarrow> Round \<Rightarrow> bool" where
  "quorum_at q d r \<longleftrightarrow> (\<exists>voters. ex_transition_votes d r = Some voters \<and> q \<le> card voters)"

definition applied :: "CoordinatorExecutionState \<Rightarrow> Round \<Rightarrow> bool" where
  "applied d r \<longleftrightarrow> r = Idle \<or> ex_trans_events d r \<noteq> None"

text \<open>The rounds from which \<open>r\<close> may be entered.\<close>

fun predecessors :: "Round \<Rightarrow> Round set" where
  "predecessors MPCExecution = {InputCollection, Preprocessing}"
| "predecessors ProgramFinished = {OutputDistribution, MPCExecution}"
| "predecessors r = set_option (round_before r)"

definition rounds_inv :: "ClientIdentity set \<Rightarrow> nat \<Rightarrow> CoordinatorExecutionState \<Rightarrow> bool" where
  "rounds_inv P q d \<longleftrightarrow>
     (\<forall>r voters. ex_transition_votes d r = Some voters \<longrightarrow> voters \<subseteq> P) \<and>
     ex_trans_events d Idle = None \<and>
     (\<forall>r. ex_trans_events d r \<noteq> None \<longrightarrow> r \<le> ex_round d \<and> quorum_at q d r \<and>
        (\<exists>p \<in> predecessors r. applied d p)) \<and>
     applied d (ex_round d) \<and>
     (\<forall>r. ex_sinks d r \<noteq> None \<longrightarrow> ex_trans_events d r = None)"

definition inputs_inv :: "CoordinatorExecutionState \<Rightarrow> bool" where
  "inputs_inv d \<longleftrightarrow>
     list_all (reservation_owned (unat (reg_n_inputs (ex_registration d))) (ex_reserved_indices d))
       (ex_reserved_index_events d) \<and>
     list_all (input_owned (unat (reg_n_inputs (ex_registration d))) (ex_reserved_indices d))
       (ex_masked_input_events d) \<and>
     (applied d InputCollection \<and> applied d MPCExecution \<longrightarrow> None \<notin> set (ex_masked_inputs d)) \<and>
     (ex_masked_input_events d \<noteq> [] \<longrightarrow> applied d InputCollection) \<and>
     (ex_reserved_index_events d \<noteq> [] \<longrightarrow> applied d InputMaskReservation)"

definition outputs_inv :: "ClientIdentity set \<Rightarrow> CoordinatorExecutionState \<Rightarrow> bool" where
  "outputs_inv P d \<longleftrightarrow>
     hm_wf (ex_output_shares d) \<and>
     (\<forall>client party. map_of (ex_output_shares d) (client, party) \<noteq> None \<longrightarrow>
        client \<in> set (ex_output_clients d) \<and> party \<in> P) \<and>
     dom (ex_output_sinks d) \<subseteq> set (ex_output_clients d) \<and>
     ex_retirement_acks d \<subseteq> P"

definition exec_inv :: "ClientIdentity set \<Rightarrow> nat \<Rightarrow> CoordinatorExecutionState \<Rightarrow> bool" where
  "exec_inv P q d \<longleftrightarrow>
     histories_inv d \<and> slots_inv d \<and> rounds_inv P q d \<and> inputs_inv d \<and> outputs_inv P d"

lemmas inv_defs = histories_inv_def slots_inv_def rounds_inv_def inputs_inv_def outputs_inv_def

lemma exec_invI:
  "\<lbrakk>histories_inv d; slots_inv d; rounds_inv P q d; inputs_inv d; outputs_inv P d\<rbrakk> \<Longrightarrow> exec_inv P q d"
  by (simp add: exec_inv_def)

lemma exec_invD:
  assumes "exec_inv P q d"
  shows "histories_inv d" "slots_inv d" "rounds_inv P q d" "inputs_inv d" "outputs_inv P d"
  using assms by (simp_all add: exec_inv_def)

section \<open>Evolution\<close>

definition vec_extends :: "'a option list \<Rightarrow> 'a option list \<Rightarrow> bool" where
  "vec_extends xs ys \<longleftrightarrow> length ys = length xs \<and> (\<forall>i < length xs. xs ! i \<noteq> None \<longrightarrow> ys ! i = xs ! i)"

definition evolves :: "CoordinatorExecutionState \<Rightarrow> CoordinatorExecutionState \<Rightarrow> bool" where
  "evolves d d' \<longleftrightarrow>
     ex_registration d' = ex_registration d \<and>
     ex_round d \<le> ex_round d' \<and>
     ex_trans_events d \<subseteq>\<^sub>m ex_trans_events d' \<and>
     vec_extends (ex_reserved_indices d) (ex_reserved_indices d') \<and>
     vec_extends (ex_masked_inputs d) (ex_masked_inputs d') \<and>
     prefix (ex_reserved_index_events d) (ex_reserved_index_events d') \<and>
     prefix (ex_masked_input_events d) (ex_masked_input_events d') \<and>
     map_of (ex_output_shares d) \<subseteq>\<^sub>m map_of (ex_output_shares d') \<and>
     ex_retirement_acks d \<subseteq> ex_retirement_acks d' \<and>
     (\<forall>r voters. ex_transition_votes d r = Some voters \<longrightarrow>
        (\<exists>voters'. ex_transition_votes d' r = Some voters' \<and> voters \<subseteq> voters'))"

lemma vec_extends_refl [simp]: "vec_extends xs xs"
  by (simp add: vec_extends_def)

lemma vec_extends_trans: "vec_extends xs ys \<Longrightarrow> vec_extends ys zs \<Longrightarrow> vec_extends xs zs"
  by (simp add: vec_extends_def)

lemma evolves_refl [simp]: "evolves d d"
  by (simp add: evolves_def)

lemma evolves_trans:
  assumes "evolves d d'" and "evolves d' d''"
  shows "evolves d d''"
proof -
  note e = assms [unfolded evolves_def]
  have "\<forall>r voters. ex_transition_votes d r = Some voters \<longrightarrow>
      (\<exists>voters'. ex_transition_votes d'' r = Some voters' \<and> voters \<subseteq> voters')"
    using e by (meson subset_trans)
  moreover have "vec_extends (ex_reserved_indices d) (ex_reserved_indices d'')"
    and "vec_extends (ex_masked_inputs d) (ex_masked_inputs d'')"
    using e by (blast intro: vec_extends_trans)+
  moreover have "ex_trans_events d \<subseteq>\<^sub>m ex_trans_events d''"
    and "map_of (ex_output_shares d) \<subseteq>\<^sub>m map_of (ex_output_shares d'')"
    using e by (blast intro: map_le_trans)+
  moreover have "prefix (ex_reserved_index_events d) (ex_reserved_index_events d'')"
    and "prefix (ex_masked_input_events d) (ex_masked_input_events d'')"
    using e by (blast intro: prefix_order.trans)+
  moreover have "ex_round d \<le> ex_round d''" and "ex_retirement_acks d \<subseteq> ex_retirement_acks d''"
    using e by (meson order_trans, blast)
  ultimately show ?thesis
    unfolding evolves_def using e by simp
qed

locale execution_op =
  fixes P :: "ClientIdentity set" and q :: nat
    and pre :: "CoordinatorExecutionState \<Rightarrow> bool"
    and opr :: "CoordinatorExecutionState \<Rightarrow> CoordinatorExecutionState"
  assumes op_inv: "exec_inv P q d \<Longrightarrow> pre d \<Longrightarrow> exec_inv P q (opr d)"
    and op_evolves: "exec_inv P q d \<Longrightarrow> pre d \<Longrightarrow> evolves d (opr d)"

section \<open>Operations that only touch subscribers\<close>

text \<open>\<open>d'\<close> is \<open>d\<close> with other subscriber lists.\<close>

definition resubscribed :: "CoordinatorExecutionState \<Rightarrow> CoordinatorExecutionState \<Rightarrow> bool" where
  "resubscribed d d' \<longleftrightarrow>
     ex_registration d' = ex_registration d \<and>
     ex_retirement_acks d' = ex_retirement_acks d \<and>
     ex_transition_votes d' = ex_transition_votes d \<and>
     ex_trans_events d' = ex_trans_events d \<and>
     ex_reserved_index_events d' = ex_reserved_index_events d \<and>
     ex_assigned_reserved_index_events d' = ex_assigned_reserved_index_events d \<and>
     ex_masked_input_events d' = ex_masked_input_events d \<and>
     ex_assigned_masked_input_events d' = ex_assigned_masked_input_events d \<and>
     ex_n_reserved d' = ex_n_reserved d \<and>
     ex_reserved_indices d' = ex_reserved_indices d \<and>
     ex_masked_inputs d' = ex_masked_inputs d \<and>
     ex_round d' = ex_round d \<and>
     ex_output_shares d' = ex_output_shares d \<and>
     ex_output_clients d' = ex_output_clients d \<and>
     ex_input_assignments d' = ex_input_assignments d \<and>
     (\<forall>r. ex_sinks d' r \<noteq> None \<longrightarrow> ex_sinks d r \<noteq> None \<or> ex_trans_events d r = None) \<and>
     dom (ex_output_sinks d') \<subseteq> dom (ex_output_sinks d) \<union> set (ex_output_clients d)"

lemma resubscribed_inv:
  assumes "resubscribed d d'" and "exec_inv P q d"
  shows "exec_inv P q d'"
proof (rule exec_invI)
  note inv = exec_invD [OF assms(2)] and r = assms(1) [unfolded resubscribed_def]
  show "histories_inv d'" using inv(1) r by (simp add: histories_inv_def n_slots_def)
  show "slots_inv d'"
    using inv(2) r slot_of_cong [of d' d] by (simp add: slots_inv_def n_slots_def)
  show "rounds_inv P q d'"
    using inv(3) r unfolding rounds_inv_def by (simp add: applied_def quorum_at_def) blast
  show "inputs_inv d'" using inv(4) r by (simp add: inputs_inv_def applied_def)
  show "outputs_inv P d'" using inv(5) r unfolding outputs_inv_def by simp blast
qed

lemma resubscribed_evolves: "resubscribed d d' \<Longrightarrow> evolves d d'"
  by (simp add: resubscribed_def evolves_def)

lemma resubscribed_op: "(\<And>d. pre d \<Longrightarrow> resubscribed d (f d)) \<Longrightarrow> execution_op P q pre f"
  by unfold_locales (auto intro: resubscribed_inv resubscribed_evolves)

lemma resubscribed_ops:
  "resubscribed d (fst (subscribe_reserved_indices ok k d))"
  "resubscribed d (fst (subscribe_masked_inputs ok k d))"
  "resubscribed d (fst (subscribe_assigned_reserved_indices ok k d))"
  "resubscribed d (fst (subscribe_assigned_masked_inputs ok k d))"
  "resubscribed d (fst (subscribe_round round k d))"
  "resubscribed d (submit_restore ok p d)"
  "resubscribed d (snd (ready_output_snapshot closed client m d))"
  "resubscribed d (forget_output_waiter client k d)"
  "resubscribed d (snd (wait_for_output closed client k d))"
  by (auto simp: resubscribed_def subscribe_reserved_indices_def subscribe_masked_inputs_def
      subscribe_assigned_reserved_indices_def subscribe_assigned_masked_inputs_def
      subscribe_round_def submit_restore_def ready_output_snapshot_def forget_output_waiter_def
      wait_for_output_def output_rejection_def Let_def split_beta
      split: option.split if_splits)

interpretation sub_reserved_op: execution_op P q "\<lambda>_. True" "\<lambda>d. fst (subscribe_reserved_indices ok k d)"
  for P q ok k
  by (rule resubscribed_op) (rule resubscribed_ops)

interpretation sub_masked_op: execution_op P q "\<lambda>_. True" "\<lambda>d. fst (subscribe_masked_inputs ok k d)"
  for P q ok k
  by (rule resubscribed_op) (rule resubscribed_ops)

interpretation sub_assigned_reserved_op:
  execution_op P q "\<lambda>_. True" "\<lambda>d. fst (subscribe_assigned_reserved_indices ok k d)"
  for P q ok k
  by (rule resubscribed_op) (rule resubscribed_ops)

interpretation sub_assigned_masked_op:
  execution_op P q "\<lambda>_. True" "\<lambda>d. fst (subscribe_assigned_masked_inputs ok k d)"
  for P q ok k
  by (rule resubscribed_op) (rule resubscribed_ops)

interpretation sub_round_op: execution_op P q "\<lambda>_. True" "\<lambda>d. fst (subscribe_round round k d)"
  for P q round k
  by (rule resubscribed_op) (rule resubscribed_ops)

interpretation snapshot_op: execution_op P q "\<lambda>_. True" "\<lambda>d. snd (ready_output_snapshot closed client m d)"
  for P q closed client m
  by (rule resubscribed_op) (rule resubscribed_ops)

interpretation forget_op: execution_op P q "\<lambda>_. True" "\<lambda>d. forget_output_waiter client k d"
  for P q client k
  by (rule resubscribed_op) (rule resubscribed_ops)

interpretation wait_output_op: execution_op P q "\<lambda>_. True" "\<lambda>d. snd (wait_for_output closed client k d)"
  for P q closed client k
  by (rule resubscribed_op) (rule resubscribed_ops)

section \<open>Creation\<close>

lemma execution_new_Ok:
  assumes "execution_new registration n = Ok d"
  shows "ex_registration d = registration" and "exec_inv P q d" and "ex_round d = Idle"
    and "ex_transition_votes d = Map.empty" and "ex_retirement_acks d = {}"
  using assms
  by (auto simp: execution_new_def exec_inv_def inv_defs n_slots_def replay_reservations_def
      replay_inputs_def applied_def Let_def split: if_splits option.splits)

lemma execution_new_not_Panic [simp]: "execution_new registration n \<noteq> Panic"
  by (auto simp: execution_new_def Let_def split: option.split)

section \<open>Reservations\<close>

lemma execution_reserve_cases:
  obtains (refused) e where "execution_reserve ok client indices d = (Err e, d, [])"
  | (reserved) "ex_round d = InputMaskReservation" "indices \<noteq> []"
      "Some client \<notin> set (ex_reserved_indices d)"
      "validate_reservations d client indices = Ok ()"
      "fst (execution_reserve ok client indices d) = Ok ()"
proof (cases "ex_round d = InputMaskReservation \<and> indices \<noteq> [] \<and>
    Some client \<notin> set (ex_reserved_indices d) \<and> validate_reservations d client indices = Ok ()")
  case True
  then have "fst (execution_reserve ok client indices d) = Ok ()"
    by (simp add: execution_reserve_def Let_def split_beta)
  with True that(2) show ?thesis by blast
next
  case False
  then have "\<exists>e. execution_reserve ok client indices d = (Err e, d, [])"
    by (cases "validate_reservations d client indices") (auto simp: execution_reserve_def)
  with that(1) show ?thesis by blast
qed

lemma execution_reserve_state:
  assumes "fst (execution_reserve ok client indices d) = Ok ()"
  defines "d' \<equiv> fst (snd (execution_reserve ok client indices d))"
  shows "resubscribed
    (d\<lparr>ex_reserved_indices := foldl (\<lambda>os i. os[unat i := Some client]) (ex_reserved_indices d) indices,
       ex_n_reserved := ex_n_reserved d + of_nat (length indices),
       ex_reserved_index_events := ex_reserved_index_events d @ [ReservedInputEvent client indices],
       ex_assigned_reserved_index_events := ex_assigned_reserved_index_events d @
         assigned_reservations (ex_input_assignments d) client indices\<rparr>) d'"
  using assms(1) unfolding d'_def
  by (auto simp: execution_reserve_def resubscribed_def Let_def apply_reservations_eq
      split: if_splits result.splits)

lemma reserve_inv:
  assumes inv: "exec_inv P q d" and round: "ex_round d = InputMaskReservation"
    and valid: "validate_reservations d client indices = Ok ()"
  shows "exec_inv P q
    (d\<lparr>ex_reserved_indices := foldl (\<lambda>os i. os[unat i := Some client]) (ex_reserved_indices d) indices,
       ex_n_reserved := ex_n_reserved d + of_nat (length indices),
       ex_reserved_index_events := ex_reserved_index_events d @ [ReservedInputEvent client indices],
       ex_assigned_reserved_index_events := ex_assigned_reserved_index_events d @
         assigned_reservations (ex_input_assignments d) client indices\<rparr>)" (is "exec_inv P q ?d")
proof (rule exec_invI)
  note i = exec_invD [OF inv]
  show "histories_inv ?d"
    using i(1) by (simp add: histories_inv_def n_slots_def replay_reservations_def)
  have slot: "slot_of ?d = slot_of d"
    by (rule slot_of_cong) simp_all
  have new: "slot_of d (unat j) = Some client"
    if "j \<in> set indices" "unat j < length (ex_input_assignments d)" for j
    using that valid by (auto simp: validate_reservations_Ok slot_of_def vec_get_def)
  show "slots_inv ?d"
    using i(2) new unfolding slots_inv_def slot
    by (auto simp: n_slots_def nth_foldl_owner split: if_splits)
  show "rounds_inv P q ?d" using i(3) by (simp add: rounds_inv_def applied_def quorum_at_def)
  let ?owners = "foldl (\<lambda>os i. os[unat i := Some client]) (ex_reserved_indices d) indices"
  have len: "length (ex_reserved_indices d) = n_slots d" using i(2) by (simp add: slots_inv_def)
  have keep: "?owners ! j = Some c" if "j < n_slots d" "ex_reserved_indices d ! j = Some c" for j c
    using that valid len by (auto simp: nth_foldl_owner validate_reservations_Ok)
  note mono = owned_mono [of "n_slots d" "ex_reserved_indices d" ?owners, OF keep]
  have "list_all (reservation_owned (n_slots d) ?owners) (ex_reserved_index_events d)"
    using i(4) mono(1) by (simp add: inputs_inv_def n_slots_def list_all_iff)
  moreover have "list_all (input_owned (n_slots d) ?owners) (ex_masked_input_events d)"
    using i(4) mono(2) by (simp add: inputs_inv_def n_slots_def list_all_iff)
  moreover have "reservation_owned (n_slots d) ?owners (ReservedInputEvent client indices)"
    using valid len by (auto simp: validate_reservations_Ok nth_foldl_owner)
  moreover have "applied d InputMaskReservation" using i(3) round by (simp add: rounds_inv_def)
  ultimately show "inputs_inv ?d" using i(4) by (simp add: inputs_inv_def applied_def n_slots_def)
  show "outputs_inv P ?d" using i(5) by (simp add: outputs_inv_def)
qed

lemma reserve_extends:
  assumes "validate_reservations d client indices = Ok ()"
  shows "vec_extends (ex_reserved_indices d)
    (foldl (\<lambda>os i. os[unat i := Some client]) (ex_reserved_indices d) indices)"
  using assms by (auto simp: validate_reservations_Ok vec_extends_def nth_foldl_owner)

interpretation reserve_op: execution_op P q "\<lambda>_. True" "\<lambda>d. fst (snd (execution_reserve ok client indices d))"
  for P q ok client indices
proof
  fix d
  assume inv: "exec_inv P q d"
  show "exec_inv P q (fst (snd (execution_reserve ok client indices d)))"
  proof (cases rule: execution_reserve_cases [of ok client indices d])
    case reserved
    from resubscribed_inv [OF execution_reserve_state [OF reserved(5)] reserve_inv]
    show ?thesis using inv reserved by blast
  qed (simp add: inv)
  show "evolves d (fst (snd (execution_reserve ok client indices d)))"
  proof (cases rule: execution_reserve_cases [of ok client indices d])
    case reserved
    note reserve_extends [OF reserved(4)]
    then show ?thesis
      by (intro evolves_trans [OF _ resubscribed_evolves [OF execution_reserve_state [OF reserved(5)]]])
        (simp add: evolves_def)
  qed simp
qed

section \<open>Submissions\<close>

lemma submit_record_cases [consumes 1, case_names refused recorded]:
  assumes "slots_inv d"
  obtains (refused) e where "submit_record client masked_inputs indices d = (Err e, d)"
  | (recorded) p where "ex_round d = InputCollection" "length masked_inputs = length indices"
      "indices \<noteq> []" "validate_submissions d client indices = Ok ()"
      "fst (submit_record client masked_inputs indices d) = Ok p"
proof (cases "ex_round d = InputCollection \<and> length masked_inputs = length indices \<and> indices \<noteq> [] \<and>
    validate_submissions d client indices = Ok ()")
  case True
  then have "\<exists>p. fst (submit_record client masked_inputs indices d) = Ok p"
    by (simp add: submit_record_def Let_def split_beta)
  with True that(2) show ?thesis by blast
next
  case False
  have "validate_submissions d client indices \<noteq> Panic"
    using assms by (simp add: slots_inv_def validate_submissions_not_Panic)
  with False have "\<exists>e. submit_record client masked_inputs indices d = (Err e, d)"
    by (cases "validate_submissions d client indices") (auto simp: submit_record_def)
  with that(1) show ?thesis by blast
qed

lemma submit_record_state:
  assumes "fst (submit_record client masked_inputs indices d) = Ok p"
  defines "d' \<equiv> snd (submit_record client masked_inputs indices d)"
    and "pairs \<equiv> zip indices masked_inputs"
  shows "resubscribed
    (d\<lparr>ex_masked_inputs := foldl (\<lambda>xs (i, b). xs[unat i := Some b]) (ex_masked_inputs d) pairs,
       ex_masked_input_events := ex_masked_input_events d @ [MaskedInputEvent client pairs],
       ex_assigned_masked_input_events := ex_assigned_masked_input_events d @
         assigned_inputs (ex_input_assignments d) client pairs\<rparr>) d'"
  using assms(1) unfolding d'_def pairs_def
  by (auto simp: submit_record_def resubscribed_def Let_def apply_submissions_eq
      split: if_splits result.splits)

lemma submit_inv:
  fixes pairs :: "(u64 \<times> bytes) list"
  assumes inv: "exec_inv P q d" and round: "ex_round d = InputCollection"
    and valid: "validate_submissions d client (map fst pairs) = Ok ()"
  shows "exec_inv P q
    (d\<lparr>ex_masked_inputs := foldl (\<lambda>xs (i, b). xs[unat i := Some b]) (ex_masked_inputs d) pairs,
       ex_masked_input_events := ex_masked_input_events d @ [MaskedInputEvent client pairs],
       ex_assigned_masked_input_events := ex_assigned_masked_input_events d @
         assigned_inputs (ex_input_assignments d) client pairs\<rparr>)" (is "exec_inv P q ?d")
proof (rule exec_invI)
  note i = exec_invD [OF inv]
  have slot: "slot_of ?d = slot_of d"
    by (rule slot_of_cong) simp_all
  have len: "length (ex_masked_inputs d) = length (ex_reserved_indices d)" "length (ex_reserved_indices d) = n_slots d"
    using i(2) by (simp_all add: slots_inv_def)
  from valid have all: "\<forall>x \<in> set pairs. ex_reserved_indices d ! unat (fst x) = Some client"
    by (simp add: validate_submissions_Ok len)
  show "histories_inv ?d" using i(1) by (simp add: histories_inv_def n_slots_def replay_inputs_def)
  have "ex_reserved_indices d ! k \<noteq> None"
    if "k < n_slots d" "foldl (\<lambda>xs (i, b). xs[unat i := Some b]) (ex_masked_inputs d) pairs ! k \<noteq> None" for k
  proof (cases "k \<in> (unat \<circ> fst) ` set pairs")
    case True
    then obtain x where "x \<in> set pairs" "k = unat (fst x)" by (rule imageE) simp
    with all show ?thesis by simp
  next
    case False
    have "k < length (ex_masked_inputs d)" using that(1) i(2) by (simp add: slots_inv_def)
    from foldl_input_None_iff [OF this, of pairs] False that(2) have "ex_masked_inputs d ! k \<noteq> None"
      by argo
    then show ?thesis using that(1) i(2) unfolding slots_inv_def by blast
  qed
  then show "slots_inv ?d"
    using i(2) unfolding slots_inv_def slot by (simp add: n_slots_def)
  show "rounds_inv P q ?d" using i(3) by (simp add: rounds_inv_def applied_def quorum_at_def)
  have "input_owned (n_slots d) (ex_reserved_indices d) (MaskedInputEvent client pairs)"
    using all valid len by (simp add: validate_submissions_Ok)
  moreover have "applied d InputCollection" and "\<not> applied d MPCExecution"
    using i(3) round by (auto simp: rounds_inv_def applied_def round_simps)
  ultimately show "inputs_inv ?d" using i(4) by (simp add: inputs_inv_def applied_def n_slots_def)
  show "outputs_inv P ?d" using i(5) by (simp add: outputs_inv_def)
qed

lemma submit_extends:
  assumes "slots_inv d" and "validate_submissions d client (map fst pairs) = Ok ()"
  shows "vec_extends (ex_masked_inputs d)
    (foldl (\<lambda>xs (i, b). xs[unat i := Some b]) (ex_masked_inputs d) pairs)"
proof -
  have len: "length (ex_masked_inputs d) = length (ex_reserved_indices d)"
    using assms(1) by (simp add: slots_inv_def)
  have "map_of (rev (map (\<lambda>(i, b). (unat i, b)) pairs)) k = None"
    if "ex_masked_inputs d ! k \<noteq> None" for k
    using that assms(2) by (auto simp: input_written_iff validate_submissions_Ok [OF len])
  then show ?thesis
    by (auto simp: vec_extends_def nth_foldl_input)
qed

interpretation submit_op: execution_op P q "\<lambda>_. True" "\<lambda>d. snd (submit_record client masked_inputs indices d)"
  for P q client masked_inputs indices
proof
  fix d
  assume inv: "exec_inv P q d"
  then have slots: "slots_inv d" by (rule exec_invD)
  show "exec_inv P q (snd (submit_record client masked_inputs indices d))"
    using slots
  proof (cases rule: submit_record_cases [of d client masked_inputs indices])
    case (recorded p)
    from resubscribed_inv [OF submit_record_state [OF recorded(5)] submit_inv]
    show ?thesis using inv recorded by simp
  qed (simp add: inv)
  show "evolves d (snd (submit_record client masked_inputs indices d))"
    using slots
  proof (cases rule: submit_record_cases [of d client masked_inputs indices])
    case (recorded p)
    then have "validate_submissions d client (map fst (zip indices masked_inputs)) = Ok ()"
      by simp
    note submit_extends [OF slots this]
    then show ?thesis
      by (intro evolves_trans [OF _ resubscribed_evolves [OF submit_record_state [OF recorded(5)]]])
        (simp add: evolves_def)
  qed simp
qed

section \<open>Outputs and acknowledgements\<close>

interpretation record_output_op:
  execution_op P q "\<lambda>_. is_party \<longrightarrow> party \<in> P"
    "\<lambda>d. snd (record_output_shares is_party party client enc_shares d)"
  for P q is_party party client enc_shares
proof
  fix d
  assume inv: "exec_inv P q d" and party: "is_party \<longrightarrow> party \<in> P"
  note i = exec_invD [OF inv]
  let ?d = "d\<lparr>ex_output_shares := AList.update (client, party) enc_shares (ex_output_shares d)\<rparr>"
  have slot: "slot_of ?d = slot_of d" by (rule slot_of_cong) simp_all
  have upd: "exec_inv P q ?d" if "is_party" "client \<in> set (ex_output_clients d)"
  proof (rule exec_invI)
    show "histories_inv ?d" using i(1) by (simp add: histories_inv_def n_slots_def)
    show "slots_inv ?d" using i(2) unfolding slots_inv_def slot by (simp add: n_slots_def)
    show "rounds_inv P q ?d" using i(3) by (simp add: rounds_inv_def applied_def quorum_at_def)
    show "inputs_inv ?d" using i(4) by (simp add: inputs_inv_def applied_def)
    show "outputs_inv P ?d" using i(5) that party by (simp add: outputs_inv_def hm_simps)
  qed
  show "exec_inv P q (snd (record_output_shares is_party party client enc_shares d))"
    using upd inv by (simp add: record_output_shares_def)
  show "evolves d (snd (record_output_shares is_party party client enc_shares d))"
    by (auto simp: record_output_shares_def evolves_def map_le_def hm_simps)
qed

interpretation acknowledge_op: execution_op P q "\<lambda>_. party \<in> P" "acknowledge_retirement party"
  for P q party
proof
  fix d
  assume inv: "exec_inv P q d" and party: "party \<in> P"
  note i = exec_invD [OF inv]
  let ?d = "acknowledge_retirement party d"
  have slot: "slot_of ?d = slot_of d" by (rule slot_of_cong) (simp_all add: acknowledge_retirement_def)
  show "exec_inv P q ?d"
  proof (rule exec_invI)
    show "histories_inv ?d"
      using i(1) by (simp add: acknowledge_retirement_def histories_inv_def n_slots_def)
    show "slots_inv ?d"
      using i(2) unfolding slots_inv_def slot by (simp add: acknowledge_retirement_def n_slots_def)
    show "rounds_inv P q ?d"
      using i(3) by (simp add: acknowledge_retirement_def rounds_inv_def applied_def quorum_at_def)
    show "inputs_inv ?d" using i(4) by (simp add: acknowledge_retirement_def inputs_inv_def applied_def)
    show "outputs_inv P ?d" using i(5) party by (simp add: acknowledge_retirement_def outputs_inv_def)
  qed
  show "evolves d ?d" by (auto simp: acknowledge_retirement_def evolves_def)
qed

end
