(* ===== verification/Execution_Rounds.thy ===== *)
theory Execution_Rounds
  imports Execution_Invariant
begin

text \<open>
  Round transitions of one execution: what \<open>try_advance\<close> does to the state, that it never panics,
  that it stops only when no further round is supported, whom it notifies, and that a vote keeps
  the invariant. The lemmas are stated over a single iteration (\<open>may_advance\<close>, \<open>advance\<close>) and lifted to
  the loop by \<open>try_advance_preserves\<close>.
\<close>

section \<open>One iteration\<close>

definition may_advance :: "nat \<Rightarrow> CoordinatorExecutionState \<Rightarrow> Round \<Rightarrow> bool" where
  "may_advance q d r \<longleftrightarrow> next_quorum_round d q = Some r \<and> blocking_precondition d r = None"

definition waiting :: "CoordinatorExecutionState \<Rightarrow> Round \<Rightarrow> sink list" where
  "waiting d r = (case ex_sinks d r of None \<Rightarrow> [] | Some ks \<Rightarrow> ks)"

definition advance :: "ClientIdentity \<Rightarrow> Round \<Rightarrow> CoordinatorExecutionState \<Rightarrow> CoordinatorExecutionState" where
  "advance h r d =
     d\<lparr>ex_sinks := (ex_sinks d)(r := None),
       ex_trans_events := (ex_trans_events d)(r := round_event h r),
       ex_round := r\<rparr>"

lemma round_event_None [simp]: "round_event h r = None \<longleftrightarrow> r = Idle"
  by (cases r) simp_all

lemma may_advanceD:
  assumes "may_advance q d r"
  shows "r \<noteq> Idle" "ex_round d < r" "ex_round d \<in> predecessors r" "quorum_at q d r"
  using next_quorum_round_Some [of d q r] assms
  by (cases r; auto simp: may_advance_def quorum_at_def skips_empty_input_rounds_def
      skips_empty_output_rounds_def)+

lemma try_advance_loop_step:
  assumes "may_advance q d r"
  shows "try_advance_loop q h d ds =
    try_advance_loop q h (advance h r d) (ds @ [(r, the (round_event h r), waiting d r)])"
proof -
  obtain e where e: "round_event h r = Some e"
    using may_advanceD(1) [OF assms] by (cases "round_event h r") auto
  have "execution_transition d e r = Ok (waiting d r, advance h r d)"
    using may_advanceD(1) [OF assms] e
    by (simp add: execution_transition_def waiting_def advance_def)
  with assms e show ?thesis
    by (subst try_advance_loop.simps) (simp add: may_advance_def)
qed

lemma try_advance_loop_stop:
  "\<forall>r. \<not> may_advance q d r \<Longrightarrow> try_advance_loop q h d ds = (Ok ds, d)"
  by (subst try_advance_loop.simps) (auto simp: may_advance_def split: option.split)

text \<open>An iteration moves the round forward, so iterations are well-founded.\<close>

lemma advance_induct [case_names stop step]:
  assumes "\<And>d ds. \<forall>r. \<not> may_advance q d r \<Longrightarrow> Q d ds"
    and "\<And>d ds r. may_advance q d r \<Longrightarrow>
      Q (advance h r d) (ds @ [(r, the (round_event h r), waiting d r)]) \<Longrightarrow> Q d ds"
  shows "Q d ds"
proof (induction "6 - unat (round_index (ex_round d))" arbitrary: d ds rule: less_induct)
  case less
  show ?case
  proof (cases "\<exists>r. may_advance q d r")
    case True
    then obtain r where r: "may_advance q d r" by blast
    have "unat (round_index r) \<le> 6" by (cases r) simp_all
    then have "6 - unat (round_index (ex_round (advance h r d))) < 6 - unat (round_index (ex_round d))"
      using may_advanceD(2) [OF r] by (simp add: advance_def round_less_iff)
    from assms(2) [OF r less [OF this]] show ?thesis .
  qed (simp add: assms(1))
qed

lemma try_advance_preserves:
  assumes "I d" and "\<And>d r. I d \<Longrightarrow> may_advance q d r \<Longrightarrow> I (advance h r d)"
  shows "I (snd (try_advance q h d))"
proof -
  have "I d \<Longrightarrow> I (snd (try_advance_loop q h d ds))" for ds
    by (induction d ds rule: advance_induct [where q = q and h = h])
      (simp_all add: try_advance_loop_stop try_advance_loop_step assms(2))
  with assms(1) show ?thesis by (simp add: try_advance_def)
qed

lemma try_advance_Ok: "\<exists>ts. fst (try_advance q h d) = Ok ts"
proof -
  have "\<exists>ts. fst (try_advance_loop q h d ds) = Ok ts" for ds
    by (induction d ds rule: advance_induct [where q = q and h = h])
      (simp_all add: try_advance_loop_stop try_advance_loop_step)
  then show ?thesis by (simp add: try_advance_def)
qed

lemma try_advance_settled: "\<not> may_advance q (snd (try_advance q h d)) r"
proof -
  have "\<not> may_advance q (snd (try_advance_loop q h d ds)) r" for ds
    by (induction d ds rule: advance_induct [where q = q and h = h])
      (simp_all add: try_advance_loop_stop try_advance_loop_step)
  then show ?thesis by (simp add: try_advance_def)
qed

text \<open>Everything but the round, its event and its waiters stays as it is.\<close>

lemma try_advance_frame:
  "ex_registration (snd (try_advance q h d)) = ex_registration d"
  "ex_transition_votes (snd (try_advance q h d)) = ex_transition_votes d"
  "ex_masked_inputs (snd (try_advance q h d)) = ex_masked_inputs d"
  "ex_reserved_indices (snd (try_advance q h d)) = ex_reserved_indices d"
  "ex_output_shares (snd (try_advance q h d)) = ex_output_shares d"
  "ex_retirement_acks (snd (try_advance q h d)) = ex_retirement_acks d"
  by (rule try_advance_preserves [of "\<lambda>d'. ex_registration d' = ex_registration d" d], simp,
      simp add: advance_def)
    (rule try_advance_preserves [of "\<lambda>d'. ex_transition_votes d' = ex_transition_votes d" d], simp,
      simp add: advance_def,
     rule try_advance_preserves [of "\<lambda>d'. ex_masked_inputs d' = ex_masked_inputs d" d], simp,
      simp add: advance_def,
     rule try_advance_preserves [of "\<lambda>d'. ex_reserved_indices d' = ex_reserved_indices d" d], simp,
      simp add: advance_def,
     rule try_advance_preserves [of "\<lambda>d'. ex_output_shares d' = ex_output_shares d" d], simp,
      simp add: advance_def,
     rule try_advance_preserves [of "\<lambda>d'. ex_retirement_acks d' = ex_retirement_acks d" d], simp,
      simp add: advance_def)

section \<open>The invariant\<close>

lemma blocking_precondition_None:
  "blocking_precondition d MPCExecution = None \<longleftrightarrow>
     ex_round d = Preprocessing \<or> None \<notin> set (ex_masked_inputs d)"
  by (auto simp: blocking_precondition_def skips_empty_input_rounds_def Let_def filter_empty_conv)

lemma advance_rounds_inv:
  assumes "rounds_inv P q d" and "may_advance q d r"
  shows "rounds_inv P q (advance h r d)"
proof -
  note r = may_advanceD [OF assms(2)]
  have old: "r' \<le> r" if "ex_trans_events d r' \<noteq> None" for r'
    using assms(1) r(2) that unfolding rounds_inv_def by (meson less_imp_le order_trans)
  have mono: "applied (advance h r d) p" if "applied d p" for p
    using that r(1) round_event_None [of h r]
    by (cases "round_event h r") (auto simp: applied_def advance_def)
  have quo: "quorum_at q (advance h r d) = quorum_at q d"
    by (auto simp: quorum_at_def advance_def)
  have "applied d (ex_round d)" using assms(1) by (simp add: rounds_inv_def)
  with mono r(3) have pred: "\<exists>p \<in> predecessors r. applied (advance h r d) p" by blast
  have "ex_trans_events (advance h r d) r' \<noteq> None \<longrightarrow> r' \<le> r \<and> quorum_at q d r' \<and>
      (\<exists>p \<in> predecessors r'. applied (advance h r d) p)" for r'
  proof (cases "r' = r")
    case False
    then show ?thesis
      using assms(1) mono old unfolding rounds_inv_def by (simp add: advance_def) blast
  qed (simp add: pred r)
  then show ?thesis
    using assms(1) r(1) unfolding rounds_inv_def quo
    by (auto simp: advance_def applied_def)
qed

lemma advance_inputs_inv:
  assumes "rounds_inv P q d" and "inputs_inv d" and "may_advance q d r"
  shows "inputs_inv (advance h r d)"
proof -
  note r = may_advanceD [OF assms(3)]
  have old: "r' < r" if "ex_trans_events d r' \<noteq> None" for r'
    using assms(1) r(2) that unfolding rounds_inv_def by (meson le_less_trans)
  have other: "applied (advance h r d) r' \<longleftrightarrow> applied d r'" if "r' \<noteq> r" for r'
    using that by (simp add: applied_def advance_def)
  have "None \<notin> set (ex_masked_inputs d)"
    if "r = MPCExecution" "applied d InputCollection"
  proof -
    have "InputCollection \<le> ex_round d"
      using that(2) assms(1) by (auto simp: applied_def rounds_inv_def)
    then have "ex_round d \<noteq> Preprocessing" by (auto simp: round_simps)
    then show ?thesis
      using assms(3) that(1) by (simp add: may_advance_def blocking_precondition_None)
  qed
  moreover have "\<not> applied d MPCExecution" if "r = InputCollection"
    using old [of MPCExecution] that by (cases "ex_trans_events d MPCExecution") (auto simp: applied_def round_simps)
  ultimately show ?thesis
    using assms(2) r(1) other [of InputCollection] other [of MPCExecution] other [of InputMaskReservation]
    by (cases r) (auto simp: inputs_inv_def advance_def applied_def)
qed

lemma advance_inv:
  assumes "exec_inv P q d" and "may_advance q d r"
  shows "exec_inv P q (advance h r d)"
proof (rule exec_invI)
  note i = exec_invD [OF assms(1)]
  have slot: "slot_of (advance h r d) = slot_of d" by (rule slot_of_cong) (simp_all add: advance_def)
  show "histories_inv (advance h r d)" using i(1) by (simp add: histories_inv_def n_slots_def advance_def)
  show "slots_inv (advance h r d)"
    using i(2) unfolding slots_inv_def slot by (simp add: n_slots_def advance_def)
  show "rounds_inv P q (advance h r d)" using i(3) assms(2) by (rule advance_rounds_inv)
  show "inputs_inv (advance h r d)" using i(3,4) assms(2) by (rule advance_inputs_inv)
  show "outputs_inv P (advance h r d)" using i(5) by (simp add: outputs_inv_def advance_def)
qed

lemma advance_evolves:
  assumes "exec_inv P q d" and "may_advance q d r"
  shows "evolves d (advance h r d)"
proof -
  note r = may_advanceD [OF assms(2)]
  have "ex_trans_events d r = None"
    using exec_invD(3) [OF assms(1)] r(2) unfolding rounds_inv_def by (meson leD)
  then have "ex_trans_events d \<subseteq>\<^sub>m (ex_trans_events d)(r := round_event h r)"
    by (auto simp: map_le_def)
  with r(2) show ?thesis by (simp add: evolves_def advance_def)
qed

interpretation try_advance_op: execution_op P q "\<lambda>_. True" "\<lambda>d. snd (try_advance q h d)"
  for P q h
proof
  fix d
  assume inv: "exec_inv P q d"
  have "exec_inv P q (snd (try_advance q h d)) \<and> evolves d (snd (try_advance q h d))"
    by (rule try_advance_preserves) (auto simp: inv advance_inv intro: evolves_trans advance_evolves)
  then show "exec_inv P q (snd (try_advance q h d))" "evolves d (snd (try_advance q h d))" by simp_all
qed

section \<open>Votes and submissions\<close>

definition add_vote :: "ClientIdentity \<Rightarrow> Round \<Rightarrow> CoordinatorExecutionState \<Rightarrow> CoordinatorExecutionState" where
  "add_vote party r d = d\<lparr>ex_transition_votes := (ex_transition_votes d)(r \<mapsto>
     insert party (case ex_transition_votes d r of None \<Rightarrow> {} | Some v \<Rightarrow> v))\<rparr>"

lemma execution_vote_late:
  "next_round \<le> ex_round d \<Longrightarrow> execution_vote q h party next_round d = (Ok (), d, [])"
  by (simp add: execution_vote_def less_eq_Round_def)

lemma execution_vote_early:
  assumes "ex_round d < next_round"
  shows "fst (execution_vote q h party next_round d) = Ok ()"
    and "fst (snd (execution_vote q h party next_round d)) =
      snd (try_advance q h (add_vote party next_round d))"
proof -
  obtain ts d' where t: "try_advance q h (add_vote party next_round d) = (Ok ts, d')"
    using try_advance_Ok by (metis prod.exhaust_sel)
  have "\<not> round_index next_round \<le> round_index (ex_round d)"
    using assms by (simp add: less_Round_def not_le)
  then have "execution_vote q h party next_round d = (Ok (), d', deliver_transitions ts)"
    using t by (simp add: execution_vote_def add_vote_def Let_def)
  then show "fst (execution_vote q h party next_round d) = Ok ()"
    and "fst (snd (execution_vote q h party next_round d)) =
      snd (try_advance q h (add_vote party next_round d))" by (simp_all add: t)
qed

interpretation add_vote_op: execution_op P q "\<lambda>_. party \<in> P" "add_vote party r"
  for P q party r
proof
  fix d
  assume inv: "exec_inv P q d" and party: "party \<in> P"
  note i = exec_invD [OF inv]
  have slot: "slot_of (add_vote party r d) = slot_of d"
    by (rule slot_of_cong) (simp_all add: add_vote_def)
  have quo: "quorum_at q (add_vote party r d) r'" if "quorum_at q d r'" for r'
    using that by (auto simp: quorum_at_def add_vote_def intro: order_trans [OF _ card_insert_le])
  have app: "applied (add_vote party r d) = applied d"
    by (auto simp: applied_def add_vote_def)
  show "exec_inv P q (add_vote party r d)"
  proof (rule exec_invI)
    show "histories_inv (add_vote party r d)"
      using i(1) by (simp add: histories_inv_def n_slots_def add_vote_def)
    show "slots_inv (add_vote party r d)"
      using i(2) unfolding slots_inv_def slot by (simp add: n_slots_def add_vote_def)
    have "\<forall>r' voters. ex_transition_votes (add_vote party r d) r' = Some voters \<longrightarrow> voters \<subseteq> P"
      using i(3) party by (auto simp: rounds_inv_def add_vote_def split: option.splits)
    moreover have "ex_trans_events (add_vote party r d) = ex_trans_events d"
      "ex_round (add_vote party r d) = ex_round d" "ex_sinks (add_vote party r d) = ex_sinks d"
      by (simp_all add: add_vote_def)
    ultimately show "rounds_inv P q (add_vote party r d)"
      using i(3) quo unfolding rounds_inv_def app by simp
    show "inputs_inv (add_vote party r d)"
      using i(4) unfolding inputs_inv_def app by (simp add: add_vote_def)
    show "outputs_inv P (add_vote party r d)" using i(5) by (simp add: outputs_inv_def add_vote_def)
  qed
  show "evolves d (add_vote party r d)" by (auto simp: evolves_def add_vote_def)
qed

interpretation vote_op:
  execution_op P q "\<lambda>_. party \<in> P" "\<lambda>d. fst (snd (execution_vote q h party next_round d))"
  for P q h party next_round
proof
  fix d
  assume a: "exec_inv P q d" "party \<in> P"
  note add = add_vote_op.op_inv [OF a] add_vote_op.op_evolves [OF a]
  show "exec_inv P q (fst (snd (execution_vote q h party next_round d)))"
    using a(1) try_advance_op.op_inv [OF add(1)]
    by (cases "next_round \<le> ex_round d") (simp_all add: execution_vote_late execution_vote_early not_le)
  show "evolves d (fst (snd (execution_vote q h party next_round d)))"
    using evolves_trans [OF add(2) try_advance_op.op_evolves [OF add(1)]]
    by (cases "next_round \<le> ex_round d") (simp_all add: execution_vote_late execution_vote_early not_le)
qed

lemma submit_finish_Ok:
  "fst (submit_finish ok q h p d) = Ok ()"
  "fst (snd (submit_finish ok q h p d)) = snd (try_advance q h (submit_restore ok p d))"
proof -
  obtain ts d' where "try_advance q h (submit_restore ok p d) = (Ok ts, d')"
    using try_advance_Ok by (metis prod.exhaust_sel)
  then show "fst (submit_finish ok q h p d) = Ok ()"
    and "fst (snd (submit_finish ok q h p d)) = snd (try_advance q h (submit_restore ok p d))"
    by (simp_all add: submit_finish_def)
qed

interpretation submit_finish_op:
  execution_op P q "\<lambda>_. True" "\<lambda>d. fst (snd (submit_finish ok q h p d))"
  for P q ok h p
proof
  fix d
  assume inv: "exec_inv P q d"
  note r = resubscribed_inv [OF resubscribed_ops(6) inv]
    resubscribed_evolves [OF resubscribed_ops(6)]
  show "exec_inv P q (fst (snd (submit_finish ok q h p d)))"
    by (simp add: submit_finish_Ok try_advance_op.op_inv r)
  show "evolves d (fst (snd (submit_finish ok q h p d)))"
    unfolding submit_finish_Ok
    by (rule evolves_trans [OF r(2) try_advance_op.op_evolves [OF r(1)]]) simp
qed

end
