(* ===== verification/Server_Invariant.thy ===== *)
theory Server_Invariant
  imports Coord_Server Execution_Rounds
begin

text \<open>
  What holds of the coordinator's shared state in every interleaving.

  The locale \<open>quorum_roster\<close> is what the protocol asks of a quorum: more members than may be faulty,
  and no more than the honest ones; it is interpreted on \<open>transition_quorum\<close> and
  \<open>retirement_quorum\<close>. The locale \<open>execution_op\<close> is extended with the server's side of its contract:
  storing the result of an operation keeps \<open>server_inv\<close> and lets the execution evolve. The locale
  \<open>invariant_system\<close> is interpreted on \<open>coord_step\<close>.
\<close>

section \<open>Quorums\<close>

locale quorum_roster =
  fixes wf :: "'s \<Rightarrow> bool"
    and members :: "'s \<Rightarrow> 'p set"
    and faults :: "'s \<Rightarrow> nat"
    and quorum :: "'s \<Rightarrow> nat"
  assumes finite_members: "wf s \<Longrightarrow> finite (members s)"
    and quorum_safe: "wf s \<Longrightarrow> faults s < quorum s"
    and quorum_live: "wf s \<Longrightarrow> quorum s + faults s \<le> card (members s)"
begin

lemma honest_member:
  assumes "wf s" and "voters \<subseteq> members s" and "quorum s \<le> card voters"
    and "card faulty \<le> faults s" and "finite faulty"
  obtains p where "p \<in> voters" and "p \<in> members s" and "p \<notin> faulty"
proof -
  have "card faulty < card voters" using assms quorum_safe [OF assms(1)] by linarith
  then have "\<not> voters \<subseteq> faulty" using assms(5) card_mono by (metis not_le)
  then obtain p where "p \<in> voters" "p \<notin> faulty" by blast
  with that assms(2) show thesis by blast
qed

lemma honest_members_suffice:
  assumes "wf s" and "faulty \<subseteq> members s" and "card faulty \<le> faults s"
  shows "quorum s \<le> card (members s - faulty)"
proof -
  have "finite faulty" using assms(2) finite_members [OF assms(1)] by (rule finite_subset)
  then have "card (members s - faulty) = card (members s) - card faulty"
    using assms(2) by (rule card_Diff_subset)
  with quorum_live [OF assms(1)] assms(3) show ?thesis by linarith
qed

lemma quorum_pos: "wf s \<Longrightarrow> 0 < quorum s"
  using quorum_safe by fastforce

end

definition topology_ok :: "CoordinatorRPCServerSharedBase \<Rightarrow> bool" where
  "topology_ok s \<longleftrightarrow>
     validate_topology (srv_n s) (srv_t s) (srv_mpc_nodes s) = Ok () \<and> vec_ok (srv_mpc_nodes s)"

definition parties :: "CoordinatorRPCServerSharedBase \<Rightarrow> ClientIdentity set" where
  "parties s = set (srv_mpc_nodes s)"

lemma topology_facts:
  assumes "validate_topology n t nodes = Ok ()" and "vec_ok nodes"
  shows "nodes \<noteq> []" "distinct nodes" "length nodes = unat n" "2 * unat t + 1 \<le> unat n"
    "unat (n - t) = unat n - unat t" "unat (2 * t + 1) = 2 * unat t + 1" "unat (t + 1) = unat t + 1"
proof -
  have v: "nodes \<noteq> []" "length nodes = unat n" "\<not> n \<le> t" "\<not> n < 2 * t + 1" "distinct nodes"
    using assms(1) by (auto simp: validate_topology_def split: if_splits)
  then show "nodes \<noteq> []" "distinct nodes" "length nodes = unat n" by simp_all
  have lt: "unat t < unat n" using v(3) by (simp add: word_le_nat_alt)
  have bound: "unat n < 2 ^ 63" using assms(2) v(2) by (simp add: vec_ok_def)
  with lt have small: "2 * unat t + 1 < 2 ^ 64" by simp
  show two: "unat (2 * t + 1) = 2 * unat t + 1"
    using small by (simp add: unat_word_ariths mod_less mult.commute)
  show "unat (t + 1) = unat t + 1"
    using lt bound by (simp add: unat_word_ariths)
  show "2 * unat t + 1 \<le> unat n" using v(4) two by (simp add: word_less_nat_alt)
  show "unat (n - t) = unat n - unat t" using v(3) by (simp add: unat_sub)
qed

lemma topology_okD:
  assumes "topology_ok s"
  shows "srv_mpc_nodes s \<noteq> []" "distinct (srv_mpc_nodes s)"
    "length (srv_mpc_nodes s) = unat (srv_n s)" "2 * unat (srv_t s) + 1 \<le> unat (srv_n s)"
    "unat (srv_n s - srv_t s) = unat (srv_n s) - unat (srv_t s)"
    "unat (2 * srv_t s + 1) = 2 * unat (srv_t s) + 1" "unat (srv_t s + 1) = unat (srv_t s) + 1"
  using topology_facts [of "srv_n s" "srv_t s" "srv_mpc_nodes s"] assms
  by (simp_all add: topology_ok_def)

lemma card_parties: "topology_ok s \<Longrightarrow> card (parties s) = unat (srv_n s)"
  by (simp add: parties_def distinct_card topology_okD)

lemma transition_quorum_eq:
  "topology_ok s \<Longrightarrow> transition_quorum s =
     min (2 * unat (srv_t s) + 1) (unat (srv_n s) - unat (srv_t s))"
  using topology_okD(4) [of s]
  by (simp add: transition_quorum_def Let_def topology_okD)

lemma retirement_quorum_eq:
  "topology_ok s \<Longrightarrow> retirement_quorum s = unat (srv_n s) - unat (srv_t s)"
  by (simp add: retirement_quorum_def topology_okD)

interpretation transition_roster:
  quorum_roster topology_ok parties "\<lambda>s. unat (srv_t s)" transition_quorum
proof
  fix s
  assume wf: "topology_ok s"
  show "finite (parties s)" by (simp add: parties_def)
  show "unat (srv_t s) < transition_quorum s"
    using topology_okD(4) [OF wf] by (simp add: transition_quorum_eq [OF wf])
  show "transition_quorum s + unat (srv_t s) \<le> card (parties s)"
    using topology_okD(4) [OF wf] by (simp add: transition_quorum_eq [OF wf] card_parties [OF wf])
qed

interpretation retirement_roster:
  quorum_roster topology_ok parties "\<lambda>s. unat (srv_t s)" retirement_quorum
proof
  fix s
  assume wf: "topology_ok s"
  show "finite (parties s)" by (simp add: parties_def)
  show "unat (srv_t s) < retirement_quorum s"
    using topology_okD(4) [OF wf] by (simp add: retirement_quorum_eq [OF wf])
  show "retirement_quorum s + unat (srv_t s) \<le> card (parties s)"
    using topology_okD(4) [OF wf] by (simp add: retirement_quorum_eq [OF wf] card_parties [OF wf])
qed

section \<open>The invariant\<close>

definition execution_ok :: "CoordinatorRPCServerSharedBase \<Rightarrow> ExecutionId \<Rightarrow> CoordinatorExecutionState \<Rightarrow> bool" where
  "execution_ok s e d \<longleftrightarrow>
     reg_execution_id (ex_registration d) = e \<and> exec_inv (parties s) (transition_quorum s) d"

definition server_inv :: "CoordinatorRPCServerSharedBase \<Rightarrow> bool" where
  "server_inv s \<longleftrightarrow>
     topology_ok s \<and> hm_wf (srv_executions s) \<and>
     length (srv_executions s) \<le> DEFAULT_MAX_CONCURRENT_EXECUTIONS \<and>
     (\<forall>e d. map_of (srv_executions s) e = Some d \<longrightarrow> execution_ok s e d) \<and>
     retired_wf (srv_retired s) \<and>
     (\<forall>e acks. ret_acks (srv_retired s) e = Some acks \<longrightarrow> acks \<subseteq> parties s)"

lemma server_invD:
  assumes "server_inv s"
  shows "topology_ok s" "hm_wf (srv_executions s)"
    "length (srv_executions s) \<le> DEFAULT_MAX_CONCURRENT_EXECUTIONS"
    "map_of (srv_executions s) e = Some d \<Longrightarrow> execution_ok s e d"
    "retired_wf (srv_retired s)" "ret_acks (srv_retired s) e = Some acks \<Longrightarrow> acks \<subseteq> parties s"
  using assms by (simp_all add: server_inv_def)

text \<open>The roster and everything derived from it stay fixed.\<close>

definition same_roster :: "CoordinatorRPCServerSharedBase \<Rightarrow> CoordinatorRPCServerSharedBase \<Rightarrow> bool" where
  "same_roster s s' \<longleftrightarrow> srv_mpc_nodes s' = srv_mpc_nodes s \<and> srv_n s' = srv_n s \<and> srv_t s' = srv_t s"

lemma same_roster_derived:
  assumes "same_roster s s'"
  shows "topology_ok s' = topology_ok s" "parties s' = parties s"
    "transition_quorum s' = transition_quorum s" "retirement_quorum s' = retirement_quorum s"
    "execution_ok s' = execution_ok s"
  using assms
  by (simp_all add: same_roster_def topology_ok_def parties_def transition_quorum_def
      retirement_quorum_def execution_ok_def fun_eq_iff)

lemma same_roster_refl [simp]: "same_roster s s"
  by (simp add: same_roster_def)

lemma same_roster_put [simp]: "same_roster s (put_execution e d s)"
  by (simp add: same_roster_def put_execution_def)

lemma put_execution_get [simp]:
  "map_of (srv_executions (put_execution e d s)) e' = (if e' = e then Some d else map_of (srv_executions s) e')"
  by (simp add: put_execution_def hm_simps)

lemma put_execution_frame [simp]:
  "srv_retired (put_execution e d s) = srv_retired s"
  "srv_mpc_nodes (put_execution e d s) = srv_mpc_nodes s"
  "srv_n (put_execution e d s) = srv_n s"
  "srv_t (put_execution e d s) = srv_t s"
  "srv_one_off_execution (put_execution e d s) = srv_one_off_execution s"
  "srv_shutdown_notify (put_execution e d s) = srv_shutdown_notify s"
  "srv_shutdown_fired (put_execution e d s) = srv_shutdown_fired s"
  "srv_webauthn_bindings (put_execution e d s) = srv_webauthn_bindings s"
  by (simp_all add: put_execution_def)

lemma server_inv_put:
  assumes "server_inv s" and "map_of (srv_executions s) e \<noteq> None" and "execution_ok s e d"
  shows "server_inv (put_execution e d s)"
  using assms unfolding server_inv_def same_roster_derived [OF same_roster_put]
  by (auto simp: hm_simps put_execution_def)

text \<open>How one execution fares in a step: it evolves, or it is evicted or replaced as a whole.\<close>

definition executions_evolve :: "CoordinatorRPCServerSharedBase \<Rightarrow> CoordinatorRPCServerSharedBase \<Rightarrow> bool" where
  "executions_evolve s s' \<longleftrightarrow>
     (\<forall>e d. map_of (srv_executions s) e = Some d \<longrightarrow>
        (case map_of (srv_executions s') e of
           Some d' \<Rightarrow> evolves d d'
         | None \<Rightarrow> retirement_quorum s \<le> card (ex_retirement_acks d) \<and> srv_one_off_execution s \<noteq> Some e))"

lemma executions_evolveD:
  assumes "executions_evolve s s'" and "map_of (srv_executions s) e = Some d"
  shows "map_of (srv_executions s') e = Some d' \<Longrightarrow> evolves d d'"
    and "map_of (srv_executions s') e = None \<Longrightarrow>
      retirement_quorum s \<le> card (ex_retirement_acks d) \<and> srv_one_off_execution s \<noteq> Some e"
proof -
  note a = assms(1) [unfolded executions_evolve_def, rule_format, OF assms(2)]
  show "map_of (srv_executions s') e = Some d' \<Longrightarrow> evolves d d'" using a by simp
  show "map_of (srv_executions s') e = None \<Longrightarrow>
      retirement_quorum s \<le> card (ex_retirement_acks d) \<and> srv_one_off_execution s \<noteq> Some e"
    using a by simp
qed

lemma executions_evolve_put:
  "map_of (srv_executions s) e = Some d \<Longrightarrow> evolves d d' \<Longrightarrow> executions_evolve s (put_execution e d' s)"
  by (auto simp: executions_evolve_def split: option.split)

lemma executions_evolve_same:
  "map_of (srv_executions s') = map_of (srv_executions s) \<Longrightarrow> executions_evolve s s'"
  by (auto simp: executions_evolve_def split: option.split)

text \<open>A good step keeps the invariant and the roster and lets the executions evolve.\<close>

definition good_step :: "CoordinatorRPCServerSharedBase \<Rightarrow> CoordinatorRPCServerSharedBase \<Rightarrow> bool" where
  "good_step s s' \<longleftrightarrow> server_inv s' \<and> same_roster s s' \<and> executions_evolve s s'"

context execution_op
begin

lemma stored_good:
  assumes "server_inv s" and "map_of (srv_executions s) e = Some d"
    and "P = parties s" and "q = transition_quorum s" and "pre d"
  shows "good_step s (put_execution e (opr d) s)"
proof -
  have d: "execution_ok s e d" using server_invD(4) assms(1,2) .
  then have inv: "exec_inv P q d" by (simp add: execution_ok_def assms(3,4))
  have ev: "evolves d (opr d)" using inv assms(5) by (rule op_evolves)
  have "execution_ok s e (opr d)"
    using d ev op_inv [OF inv assms(5)] by (simp add: execution_ok_def evolves_def assms(3,4))
  with assms(1,2) ev show ?thesis
    by (simp add: good_step_def server_inv_put executions_evolve_put)
qed

end

section \<open>Every step is good\<close>

lemma good_refl: "server_inv s \<Longrightarrow> good_step s s"
  by (simp add: good_step_def executions_evolve_same)

text \<open>Steps that leave executions, roster and tombstones alone.\<close>

lemma good_frame:
  assumes "server_inv s" and "srv_executions s' = srv_executions s" and "same_roster s s'"
    and "retired_wf (srv_retired s')"
    and "\<And>e acks. ret_acks (srv_retired s') e = Some acks \<Longrightarrow> acks \<subseteq> parties s"
  shows "good_step s s'"
  using assms
  by (simp add: good_step_def server_inv_def same_roster_derived executions_evolve_same)

lemma find_Some_set: "find Q xs = Some x \<Longrightarrow> x \<in> set xs \<and> Q x"
  by (auto simp: find_Some_iff)

lemma evictable_Some:
  assumes "hm_wf (srv_executions s)" and "evictable s = Some (e, d)"
  shows "map_of (srv_executions s) e = Some d" "srv_one_off_execution s \<noteq> Some e"
    "retirement_quorum s \<le> card (ex_retirement_acks d)"
  using assms find_Some_set [of _ "srv_executions s" "(e, d)"]
  by (auto simp: evictable_def hm_get_iff)

lemma insert_execution_good:
  assumes inv: "server_inv s" and room: "length (srv_executions s) < DEFAULT_MAX_CONCURRENT_EXECUTIONS"
    and fresh: "map_of (srv_executions s) (reg_execution_id registration) = None"
  shows "good_step s (snd (insert_execution registration s))"
proof (cases "execution_new registration (srv_n s)")
  case (Ok d)
  let ?e = "reg_execution_id registration"
  have "execution_ok s ?e d"
    using execution_new_Ok(1,2) [OF Ok] by (simp add: execution_ok_def)
  then have "server_inv (put_execution ?e d s)"
    using inv room fresh unfolding server_inv_def same_roster_derived [OF same_roster_put]
    by (auto simp: hm_simps put_execution_def)
  moreover have "executions_evolve s (put_execution ?e d s)"
    using fresh by (auto simp: executions_evolve_def split: option.split)
  ultimately show ?thesis by (simp add: insert_execution_def Ok good_step_def)
qed (simp_all add: insert_execution_def good_refl inv)

lemma evict_good:
  assumes inv: "server_inv s" and ev: "evictable s = Some (e, d)"
  shows "good_step s (s\<lparr>srv_executions := AList.delete e (srv_executions s),
      srv_retired := seal (srv_retired s) e (ex_retirement_acks d)\<rparr>)" (is "good_step s ?s")
proof -
  have r: "same_roster s ?s" by (simp add: same_roster_def)
  note e = evictable_Some [OF server_invD(2) [OF inv] ev]
  have "length (AList.delete e (srv_executions s)) \<le> DEFAULT_MAX_CONCURRENT_EXECUTIONS"
    using hm_len_delete_le server_invD(3) [OF inv] by (rule order_trans)
  moreover have "acks \<subseteq> parties s"
    if "ret_acks (seal (srv_retired s) e (ex_retirement_acks d)) e' = Some acks" for e' acks
  proof (rule tombstones.acks_subset_seal [OF server_invD(5) [OF inv] _ _ that])
    show "ex_retirement_acks d \<subseteq> parties s"
      using server_invD(4) [OF inv e(1)] by (simp add: execution_ok_def exec_inv_def outputs_inv_def)
  qed (rule server_invD(6) [OF inv])
  ultimately have "server_inv ?s"
    using inv unfolding server_inv_def same_roster_derived [OF r]
    by (auto simp: hm_simps retired_wf_seal)
  moreover have "executions_evolve s ?s"
    using e by (auto simp: executions_evolve_def hm_simps split: option.split)
  ultimately show ?thesis using r by (simp add: good_step_def)
qed

lemma good_trans_fresh:
  assumes "good_step s s1" and "good_step s1 s2"
    and "\<And>e. map_of (srv_executions s) e \<noteq> None \<Longrightarrow> map_of (srv_executions s1) e = None \<Longrightarrow>
      map_of (srv_executions s2) e = None"
    and "\<And>e. map_of (srv_executions s1) e \<noteq> None \<Longrightarrow> map_of (srv_executions s2) e \<noteq> None"
  shows "good_step s s2"
proof -
  have "executions_evolve s s2"
    unfolding executions_evolve_def
  proof (intro allI impI)
    fix e d
    assume d: "map_of (srv_executions s) e = Some d"
    have ev: "executions_evolve s s1" "executions_evolve s1 s2"
      using assms(1,2) by (simp_all add: good_step_def)
    show "case map_of (srv_executions s2) e of Some d' \<Rightarrow> evolves d d'
      | None \<Rightarrow> retirement_quorum s \<le> card (ex_retirement_acks d) \<and> srv_one_off_execution s \<noteq> Some e"
    proof (cases "map_of (srv_executions s1) e")
      case None
      with assms(3) [of e] d have "map_of (srv_executions s2) e = None" by simp
      with executions_evolveD(2) [OF ev(1) d None] show ?thesis by simp
    next
      case (Some d1)
      with assms(4) [of e] obtain d2 where d2: "map_of (srv_executions s2) e = Some d2" by auto
      have "evolves d d2"
        by (rule evolves_trans [OF executions_evolveD(1) [OF ev(1) d Some] executions_evolveD(1) [OF ev(2) Some d2]])
      with d2 show ?thesis by simp
    qed
  qed
  with assms(1,2) show ?thesis by (simp add: good_step_def same_roster_def)
qed

lemma insert_execution_get:
  "e \<noteq> reg_execution_id registration \<Longrightarrow>
     map_of (srv_executions (snd (insert_execution registration s))) e = map_of (srv_executions s) e"
  by (simp add: insert_execution_def split: result.split)

lemma register_execution_good:
  assumes inv: "server_inv s"
  shows "good_step s (snd (register_execution registration s))"
proof (cases "map_of (srv_executions s) (reg_execution_id registration)")
  case (Some existing)
  then show ?thesis by (simp add: register_execution_def good_refl inv)
next
  case fresh: None
  show ?thesis
  proof (cases "DEFAULT_MAX_CONCURRENT_EXECUTIONS \<le> length (srv_executions s)")
    case False
    with insert_execution_good [OF inv _ fresh] show ?thesis
      by (simp add: register_execution_def fresh)
  next
    case True
    show ?thesis
    proof (cases "evictable s")
      case (Some ed)
      obtain e d where ed: "ed = (e, d)" by (cases ed)
      let ?s = "s\<lparr>srv_executions := AList.delete e (srv_executions s),
          srv_retired := seal (srv_retired s) e (ex_retirement_acks d)\<rparr>"
      note ev = Some [unfolded ed]
      have e: "map_of (srv_executions s) e = Some d"
        by (rule evictable_Some(1) [OF server_invD(2) [OF inv] ev])
      have g: "good_step s ?s" using inv ev by (rule evict_good)
      have "good_step ?s (snd (insert_execution registration ?s))"
        using g fresh hm_len_delete_less [OF e] server_invD(3) [OF inv]
        by (intro insert_execution_good) (simp_all add: good_step_def hm_simps)
      then have "good_step s (snd (insert_execution registration ?s))"
      proof (rule good_trans_fresh [OF g])
        fix x
        assume a: "map_of (srv_executions s) x \<noteq> None" "map_of (srv_executions ?s) x = None"
        with fresh have "x \<noteq> reg_execution_id registration" by auto
        from insert_execution_get [OF this] a(2)
        show "map_of (srv_executions (snd (insert_execution registration ?s))) x = None" by simp
      next
        fix x
        assume a: "map_of (srv_executions ?s) x \<noteq> None"
        with fresh have "x \<noteq> reg_execution_id registration" by (auto simp: hm_simps split: if_splits)
        from insert_execution_get [OF this] a
        show "map_of (srv_executions (snd (insert_execution registration ?s))) x \<noteq> None" by simp
      qed
      then show ?thesis by (simp add: register_execution_def fresh True ev)
    next
      case None
      then show ?thesis by (simp add: register_execution_def fresh True good_refl inv)
    qed
  qed
qed

lemma retire_execution_good:
  assumes inv: "server_inv s"
  shows "good_step s (snd (retire_execution e party s))"
proof (cases "party \<in> set (srv_mpc_nodes s)")
  case True
  obtain known retired where a: "acknowledge (srv_retired s) e party (length (srv_mpc_nodes s)) = (known, retired)"
    by (cases "acknowledge (srv_retired s) e party (length (srv_mpc_nodes s))")
  have "retired_wf retired"
    using retired_wf_acknowledge [OF server_invD(5) [OF inv], of e party "length (srv_mpc_nodes s)"] a by simp
  moreover have "acks \<subseteq> parties s" if "ret_acks retired e' = Some acks" for e' acks
    using tombstones.acks_subset_ack [of "srv_retired s" "parties s" party e "length (srv_mpc_nodes s)"]
      server_invD(6) [OF inv] True that a by (simp add: parties_def)
  ultimately have g: "good_step s (s\<lparr>srv_retired := retired\<rparr>)"
    by (intro good_frame [OF inv]) (simp_all add: same_roster_def)
  show ?thesis
  proof (cases "known \<or> map_of (srv_executions s) e = None")
    case True
    with g a \<open>party \<in> _\<close> show ?thesis by (auto simp: retire_execution_def Let_def split: option.split)
  next
    case False
    then obtain d where d: "map_of (srv_executions s) e = Some d" by blast
    have "retired = srv_retired s"
      using a False by (auto simp: acknowledge_def Let_def split: option.splits if_splits)
    then have "snd (retire_execution e party s) = put_execution e (acknowledge_retirement party d) s"
      using False True a d by (simp add: retire_execution_def)
    then show ?thesis
      using acknowledge_op.stored_good [OF inv d refl refl] True by (simp add: parties_def)
  qed
qed (simp add: retire_execution_def good_refl inv)

lemma request_shutdown_frame:
  "srv_executions (fst (snd (request_shutdown caller s))) = srv_executions s"
  "srv_retired (fst (snd (request_shutdown caller s))) = srv_retired s"
  "same_roster s (fst (snd (request_shutdown caller s)))"
  by (auto simp: request_shutdown_def same_roster_def split: list.split option.split)

lemma request_shutdown_good:
  "server_inv s \<Longrightarrow> good_step s (fst (snd (request_shutdown caller s)))"
  by (rule good_frame) (simp_all add: request_shutdown_frame server_invD)

lemma rpc_transition_good:
  assumes inv: "server_inv s"
  shows "good_step s (fst (snd (rpc_transition caller e r s)))"
proof (cases "srv_mpc_nodes s")
  case (Cons h rest)
  show ?thesis
  proof (cases "caller \<in> set (srv_mpc_nodes s) \<and> round_before r \<noteq> None \<and> map_of (srv_executions s) e \<noteq> None")
    case True
    then obtain d where d: "map_of (srv_executions s) e = Some d" by blast
    have "fst (snd (rpc_transition caller e r s)) =
        put_execution e (fst (snd (execution_vote (transition_quorum s) h caller r d))) s"
      using True Cons d by (auto simp: rpc_transition_def with_execution_def split_beta)
    with vote_op.stored_good [OF inv d refl refl] True show ?thesis by (simp add: parties_def)
  next
    case False
    then have "fst (snd (rpc_transition caller e r s)) = s"
      using Cons by (auto simp: rpc_transition_def with_execution_def)
    then show ?thesis by (simp add: good_refl inv)
  qed
qed (simp add: rpc_transition_def good_refl inv)

lemma coord_step_good:
  assumes "coord_step s s'" and inv: "server_inv s"
  shows "good_step s s'"
  using assms(1)
proof cases
  case (step_register registration)
  then show ?thesis by (simp add: register_execution_good inv)
next
  case (step_retire e party)
  then show ?thesis by (simp add: retire_execution_good inv)
next
  case (step_watch e)
  then show ?thesis
    using inv by (intro good_frame)
      (simp_all add: watch_for_shutdown_request_def same_roster_def server_inv_def)
next
  case (step_shutdown caller)
  then show ?thesis by (simp add: request_shutdown_good inv)
next
  case step_sub_round
  then show ?thesis using sub_round_op.stored_good [OF inv step_sub_round(2) refl refl] by simp
next
  case step_sub_reserved
  then show ?thesis using sub_reserved_op.stored_good [OF inv step_sub_reserved(2) refl refl] by simp
next
  case step_sub_masked
  then show ?thesis using sub_masked_op.stored_good [OF inv step_sub_masked(2) refl refl] by simp
next
  case step_sub_assigned_reserved
  then show ?thesis using sub_assigned_reserved_op.stored_good [OF inv step_sub_assigned_reserved(2) refl refl] by simp
next
  case step_sub_assigned_masked
  then show ?thesis using sub_assigned_masked_op.stored_good [OF inv step_sub_assigned_masked(2) refl refl] by simp
next
  case step_reserve
  then show ?thesis using reserve_op.stored_good [OF inv step_reserve(2) refl refl] by simp
next
  case step_submit
  then show ?thesis using submit_op.stored_good [OF inv step_submit(2) refl refl] by simp
next
  case step_wait_output
  then show ?thesis using wait_output_op.stored_good [OF inv step_wait_output(2) refl refl] by simp
next
  case step_snapshot
  then show ?thesis using snapshot_op.stored_good [OF inv step_snapshot(2) refl refl] by simp
next
  case step_forget
  then show ?thesis using forget_op.stored_good [OF inv step_forget(2) refl refl] by simp
next
  case step_record_output
  then show ?thesis
    using record_output_op.stored_good [OF inv step_record_output(2) refl refl] by (simp add: parties_def)
next
  case (step_advance e d roster_head rest ok p)
  then show ?thesis
    using submit_finish_op.stored_good [OF inv step_advance(2) refl refl] by simp
next
  case (step_transition caller e round)
  then show ?thesis by (simp add: rpc_transition_good inv)
next
  case (step_bindings w)
  then show ?thesis using inv by (intro good_frame) (simp_all add: same_roster_def server_inv_def)
next
  case (step_reorder xs)
  note m = mset_map_of_eq [OF server_invD(2) [OF inv] step_reorder(2)]
  have r: "same_roster s s'" by (simp add: step_reorder(1) same_roster_def)
  have "server_inv s'"
    using inv m mset_length_eq [OF step_reorder(2)]
    unfolding server_inv_def same_roster_derived [OF r] by (simp add: step_reorder(1))
  with r m show ?thesis by (simp add: good_step_def executions_evolve_same step_reorder(1))
qed

lemma coord_init_inv: "coord_init s \<Longrightarrow> server_inv s"
  by (auto simp: coord_init_def coordinator_new_def and_then_Ok_iff server_inv_def topology_ok_def
      tombstones.lookup_empty)

interpretation coordinator: invariant_system coord_init coord_step server_inv
  by unfold_locales (simp_all add: coord_init_inv coord_step_good [unfolded good_step_def])

end
