(* ===== verification/Coord_Runs.thy ===== *)
theory Coord_Runs
  imports Server_Invariant
begin

text \<open>
  Runs of the coordinator. Every handler is a sequence of the locked sections of \<open>coord_step\<close>, so
  from wherever a run has started it leads from reachable states to reachable states; and an example run, with four parties of
  which one may be faulty and two input clients, gives concrete reachable states.
\<close>

section \<open>Handlers are sequences of locked sections\<close>

lemma with_execution_reachable:
  assumes "reachable init coord_step s"
    and "\<And>d. map_of (srv_executions s) e = Some d \<Longrightarrow> coord_step s (put_execution e (fst (snd (f d))) s)"
  shows "reachable init coord_step (fst (snd (with_execution e s f)))"
  using assms reachable_step [of init coord_step s]
  by (auto simp: with_execution_def split_beta split: option.split)

lemma subscription_reachable:
  assumes "reachable init coord_step s"
    and "\<And>k d. map_of (srv_executions s) e = Some d \<Longrightarrow> coord_step s (put_execution e (fst (f k d)) s)"
  shows "reachable init coord_step (fst (snd (subscription accepted e s f)))"
  using assms with_execution_reachable [where s = s and e = e and f = "\<lambda>d. let (d', ds) = f (the accepted) d in (Ok (), d', ds)"]
  by (auto simp: subscription_def split_beta Let_def split: option.split)

lemma deliver_outputs_reachable:
  assumes "reachable init coord_step s"
  shows "reachable init coord_step (fst (snd (deliver_ready_output_waiters ok closed e client m s)))"
proof (cases "map_of (srv_executions s) e")
  case (Some d)
  obtain snap d' where r: "ready_output_snapshot closed client m d = (snap, d')"
    by (cases "ready_output_snapshot closed client m d")
  have "coord_step s (put_execution e d' s)"
    using step_snapshot [OF Some, of closed client m] r by simp
  then have s': "reachable init coord_step (put_execution e d' s)"
    using assms by (rule reachable_step [rotated])
  have "coord_step (put_execution e d' s)
      (put_execution e (forget_output_waiter client k d') (put_execution e d' s))" for k
    by (rule step_forget) simp
  then have "reachable init coord_step (put_execution e (forget_output_waiter client k d') (put_execution e d' s))" for k
    using s' by (metis reachable_step)
  with s' show ?thesis
    by (auto simp: deliver_ready_output_waiters_def Some r Let_def split: option.split)
qed (simp add: deliver_ready_output_waiters_def assms)

lemma submit_reachable:
  assumes "reachable init coord_step s"
  shows "reachable init coord_step (fst (snd (submit_masked_inputs ok caller e masked_inputs indices s)))"
proof (cases "srv_mpc_nodes s")
  case (Cons h rest)
  let ?f = "\<lambda>d. let (r, d') = submit_record caller masked_inputs indices d in (r, d', [])"
  obtain r s1 ds where w: "with_execution e s ?f = (r, s1, ds)"
    by (cases "with_execution e s ?f") auto
  have "reachable init coord_step (fst (snd (with_execution e s ?f)))"
    by (rule with_execution_reachable [OF assms]) (simp add: split_beta step_submit)
  with w have s1: "reachable init coord_step s1" by simp
  have head: "srv_mpc_nodes s1 = h # rest" "transition_quorum s1 = transition_quorum s"
    using w Cons
    by (auto simp: with_execution_def split_beta transition_quorum_def split: option.splits)
  have "reachable init coord_step (fst (snd (with_execution e s1 (submit_finish ok (transition_quorum s) h p))))" for p
    by (rule with_execution_reachable [OF s1])
      (use step_advance [of s1 e _ h rest ok p] head in simp)
  with s1 w Cons show ?thesis
    by (auto simp: submit_masked_inputs_def split: result.splits prod.splits) (metis fst_conv snd_conv)+
qed (simp add: submit_masked_inputs_def assms)

lemma send_output_reachable:
  assumes "reachable init coord_step s"
  shows "reachable init coord_step (fst (snd (send_output_shares ok closed caller e client shares s)))"
proof (cases "map_of (srv_executions s) e")
  case (Some d)
  let ?r = "record_output_shares (caller \<in> set (srv_mpc_nodes s)) caller client shares d"
  have "coord_step s (put_execution e (snd ?r) s)"
    by (rule step_record_output [OF Some])
  with assms have "reachable init coord_step (put_execution e (snd ?r) s)" by (rule reachable_step)
  then show ?thesis
    using deliver_outputs_reachable assms
    by (auto simp: send_output_shares_def Some split: prod.split result.split)
qed (simp add: send_output_shares_def assms)

lemma obtain_output_reachable:
  assumes "reachable init coord_step s"
  shows "reachable init coord_step (fst (snd (obtain_output_shares ok closed accepted caller e s)))"
proof (cases "map_of (srv_executions s) e")
  case (Some d)
  have "reachable init coord_step (put_execution e (snd (wait_for_output closed caller k d)) s)" for k
    by (rule reachable_step [OF assms]) (rule step_wait_output [OF Some])
  then show ?thesis
    using deliver_outputs_reachable assms
    by (auto simp: obtain_output_shares_def Some split: prod.split option.split bool.split)
      (metis snd_conv)+
qed (simp add: obtain_output_shares_def assms)

lemma register_reachable:
  "reachable init coord_step s \<Longrightarrow> reachable init coord_step (fst (snd (rpc_register_execution caller registration s)))"
  using reachable_step [of init coord_step s, OF _ step_register [of s registration]]
  by (auto simp: rpc_register_execution_def split: prod.split result.split)

lemma retire_reachable:
  "reachable init coord_step s \<Longrightarrow> reachable init coord_step (fst (snd (rpc_retire_execution caller e s)))"
  using reachable_step [of init coord_step s, OF _ step_retire [of s e caller]]
  by (auto simp: rpc_retire_execution_def split: prod.split result.split)

lemma reserve_reachable:
  "reachable init coord_step s \<Longrightarrow> reachable init coord_step (fst (snd (reserve_mask_indices ok caller e indices s)))"
  unfolding reserve_mask_indices_def
  by (erule with_execution_reachable) (rule step_reserve)

lemma transition_reachable:
  "reachable init coord_step s \<Longrightarrow> reachable init coord_step (fst (snd (rpc_transition caller e r s)))"
  by (erule reachable_step) (rule step_transition)

lemma subscriptions_reachable:
  assumes "reachable init coord_step s"
  shows "reachable init coord_step (fst (snd (sub_round accepted e r s)))"
    "reachable init coord_step (fst (snd (sub_reserved_indices ok accepted e s)))"
    "reachable init coord_step (fst (snd (sub_masked_inputs ok accepted e s)))"
    "reachable init coord_step (fst (snd (sub_assigned_reserved_indices ok accepted e s)))"
    "reachable init coord_step (fst (snd (sub_assigned_masked_inputs ok accepted e s)))"
  unfolding sub_round_def sub_reserved_indices_def sub_masked_inputs_def
    sub_assigned_reserved_indices_def sub_assigned_masked_inputs_def
  using assms
  by (auto intro!: subscription_reachable step_sub_round step_sub_reserved step_sub_masked
      step_sub_assigned_reserved step_sub_assigned_masked)

lemma put_same: "hm_wf (srv_executions s) \<Longrightarrow> map_of (srv_executions s) e = Some d \<Longrightarrow> put_execution e d s = s"
proof -
  have "AList.update e d m = m" if "map_of m e = Some d" for m :: "(ExecutionId, CoordinatorExecutionState) hashmap"
    using that by (induction m) (auto split: if_splits)
  then show "hm_wf (srv_executions s) \<Longrightarrow> map_of (srv_executions s) e = Some d \<Longrightarrow> put_execution e d s = s"
    by (simp add: put_execution_def)
qed

section \<open>An example run\<close>

definition demo_empty :: CoordinatorRPCServerSharedBase where
  "demo_empty =
     \<lparr>srv_mpc_nodes = [[1], [2], [3], [4]], srv_n = 4, srv_t = 1, srv_executions = [],
      srv_shutdown_notify = False, srv_shutdown_fired = False, srv_one_off_execution = None,
      srv_retired = retired_default, srv_webauthn_bindings = webauthn_bindings_default\<rparr>"

definition demo_id :: ExecutionId where
  "demo_id = ExecutionId [7]"

definition demo_registration :: ExecutionRegistration where
  "demo_registration =
     \<lparr>reg_execution_id = demo_id, reg_program_hash = [9], reg_n_inputs = 2,
      reg_output_clients = [[20]],
      reg_input_assignment = \<lparr>ia_clients = [[20], [21]],
        ia_ranges = [\<lparr>range_client_index = 0, range_count = 1\<rparr>, \<lparr>range_client_index = 1, range_count = 1\<rparr>]\<rparr>,
      reg_min_output_shares = 3\<rparr>"

definition demo_start :: CoordinatorRPCServerSharedBase where
  "demo_start = snd (register_execution demo_registration demo_empty)"

fun cast_votes ::
  "ExecutionId \<Rightarrow> (ClientIdentity \<times> Round) list \<Rightarrow> CoordinatorRPCServerSharedBase
    \<Rightarrow> CoordinatorRPCServerSharedBase" where
  "cast_votes e [] s = s"
| "cast_votes e ((party, r) # votes) s = cast_votes e votes (fst (snd (rpc_transition party e r s)))"

definition demo_reserving :: CoordinatorRPCServerSharedBase where
  "demo_reserving =
     cast_votes demo_id (List.product [[1], [2], [3]] [Preprocessing, InputMaskReservation]) demo_start"

definition demo_reserved :: CoordinatorRPCServerSharedBase where
  "demo_reserved =
     fst (snd (reserve_mask_indices (\<lambda>_ _. True) [21] demo_id [1]
       (fst (snd (reserve_mask_indices (\<lambda>_ _. True) [20] demo_id [0] demo_reserving)))))"

text \<open>Three parties ask for the program to start; the coordinator holds it back for the inputs.\<close>

definition demo_held :: CoordinatorRPCServerSharedBase where
  "demo_held =
     cast_votes demo_id (List.product [[2], [3], [4]] [MPCExecution, InputCollection]) demo_reserved"

definition demo_one_input :: CoordinatorRPCServerSharedBase where
  "demo_one_input = fst (snd (submit_masked_inputs (\<lambda>_ _. True) [21] demo_id [[5]] [1] demo_held))"

definition demo_running :: CoordinatorRPCServerSharedBase where
  "demo_running = fst (snd (submit_masked_inputs (\<lambda>_ _. True) [20] demo_id [[6]] [0] demo_one_input))"

definition demo_execution :: "CoordinatorRPCServerSharedBase \<Rightarrow> CoordinatorExecutionState" where
  "demo_execution s = the (map_of (srv_executions s) demo_id)"

lemma cast_votes_reachable: "coord_reachable s \<Longrightarrow> coord_reachable (cast_votes e votes s)"
  by (induction e votes s rule: cast_votes.induct) (simp_all add: transition_reachable)

lemma demo_reachable:
  "coord_reachable demo_empty" "coord_reachable demo_start" "coord_reachable demo_reserving"
  "coord_reachable demo_reserved" "coord_reachable demo_held" "coord_reachable demo_one_input"
  "coord_reachable demo_running"
proof -
  have "validate_topology 4 1 [[1], [2], [3], [4]] = Ok ()" by code_simp
  then have "coordinator_new 4 1 [[1], [2], [3], [4]] = Ok demo_empty"
    by (simp add: coordinator_new_def demo_empty_def)
  then have "coord_init demo_empty"
    unfolding coord_init_def by (intro exI conjI, assumption) (simp add: vec_ok_def)
  then show a: "coord_reachable demo_empty" by (rule reachable_init)
  show b: "coord_reachable demo_start"
    unfolding demo_start_def by (rule reachable_step [OF a step_register])
  show c: "coord_reachable demo_reserving"
    unfolding demo_reserving_def by (rule cast_votes_reachable [OF b])
  show d: "coord_reachable demo_reserved"
    unfolding demo_reserved_def by (intro reserve_reachable c)
  show e: "coord_reachable demo_held"
    unfolding demo_held_def by (rule cast_votes_reachable [OF d])
  show f: "coord_reachable demo_one_input"
    unfolding demo_one_input_def by (rule submit_reachable [OF e])
  show "coord_reachable demo_running"
    unfolding demo_running_def by (rule submit_reachable [OF f])
qed

lemma demo_rounds:
  "ex_round (demo_execution demo_start) = Idle"
  "ex_round (demo_execution demo_reserving) = InputMaskReservation"
  "ex_round (demo_execution demo_held) = InputCollection"
  "ex_round (demo_execution demo_one_input) = InputCollection"
  "ex_round (demo_execution demo_running) = MPCExecution"
  by code_simp+

lemma demo_present:
  "map_of (srv_executions demo_start) demo_id = Some (demo_execution demo_start)"
  "map_of (srv_executions demo_reserving) demo_id = Some (demo_execution demo_reserving)"
  "map_of (srv_executions demo_reserved) demo_id = Some (demo_execution demo_reserved)"
  "map_of (srv_executions demo_held) demo_id = Some (demo_execution demo_held)"
  "map_of (srv_executions demo_one_input) demo_id = Some (demo_execution demo_one_input)"
  "map_of (srv_executions demo_running) demo_id = Some (demo_execution demo_running)"
proof -
  have "\<not> Option.is_none (map_of (srv_executions demo_start) demo_id)"
    "\<not> Option.is_none (map_of (srv_executions demo_reserving) demo_id)"
    "\<not> Option.is_none (map_of (srv_executions demo_reserved) demo_id)"
    "\<not> Option.is_none (map_of (srv_executions demo_held) demo_id)"
    "\<not> Option.is_none (map_of (srv_executions demo_one_input) demo_id)"
    "\<not> Option.is_none (map_of (srv_executions demo_running) demo_id)"
    by code_simp+
  then show "map_of (srv_executions demo_start) demo_id = Some (demo_execution demo_start)"
    "map_of (srv_executions demo_reserving) demo_id = Some (demo_execution demo_reserving)"
    "map_of (srv_executions demo_reserved) demo_id = Some (demo_execution demo_reserved)"
    "map_of (srv_executions demo_held) demo_id = Some (demo_execution demo_held)"
    "map_of (srv_executions demo_one_input) demo_id = Some (demo_execution demo_one_input)"
    "map_of (srv_executions demo_running) demo_id = Some (demo_execution demo_running)"
    by (auto simp: demo_execution_def Option.is_none_def)
qed

end
