(* ===== verification/Coord_Properties.thy ===== *)
theory Coord_Properties
  imports Coord_Runs
begin

text \<open>
  The properties of the coordinator, for every state the interleaved handlers can reach
  (\<open>coord_reachable\<close>) or for one call of a handler in such a state. Each property with hypotheses is
  followed by its application to a state of the example run.
\<close>

section \<open>Rounds\<close>

lemma reachable_execution:
  assumes "coord_reachable s" and "map_of (srv_executions s) e = Some d"
  shows "exec_inv (parties s) (transition_quorum s) d"
  using server_invD(4) [OF coordinator.reachable_inv [OF assms(1)] assms(2)]
  by (simp add: execution_ok_def)

lemmas reachable_invs = exec_invD [OF reachable_execution]

text \<open>
  C4. Whatever rounds an execution has entered, each was proposed by a quorum of distinct
  configured parties; since a quorum is larger than the number \<open>t\<close> of parties that may be faulty, at
  least one party outside any given set of \<open>t\<close> identities proposed it.
\<close>

theorem applied_round_has_honest_vote:
  assumes "coord_reachable s" and "map_of (srv_executions s) e = Some d"
    and "ex_trans_events d r \<noteq> None"
    and "finite faulty" and "card faulty \<le> unat (srv_t s)"
  shows "\<exists>voters p. ex_transition_votes d r = Some voters \<and> voters \<subseteq> parties s \<and>
    transition_quorum s \<le> card voters \<and> p \<in> voters \<and> p \<notin> faulty"
proof -
  have top: "topology_ok s" by (rule server_invD(1) [OF coordinator.reachable_inv [OF assms(1)]])
  have inv: "rounds_inv (parties s) (transition_quorum s) d" by (rule reachable_invs(3) [OF assms(1,2)])
  then have "quorum_at (transition_quorum s) d r" using assms(3) unfolding rounds_inv_def by blast
  then obtain voters where v: "ex_transition_votes d r = Some voters" "transition_quorum s \<le> card voters"
    by (auto simp: quorum_at_def)
  moreover from inv v(1) have sub: "voters \<subseteq> parties s" unfolding rounds_inv_def by blast
  moreover obtain p where "p \<in> voters" "p \<notin> faulty"
    by (rule transition_roster.honest_member [OF top sub v(2) assms(5,4)])
  ultimately show ?thesis by blast
qed

theorem applied_round_has_honest_vote_witness:
  "\<exists>voters p. ex_transition_votes (demo_execution demo_running) MPCExecution = Some voters \<and>
     voters \<subseteq> parties demo_running \<and> transition_quorum demo_running \<le> card voters \<and>
     p \<in> voters \<and> p \<notin> {[2]}"
proof (rule applied_round_has_honest_vote [OF demo_reachable(7) demo_present(6)])
  have "ex_trans_events (demo_execution demo_running) MPCExecution = Some MPCStarted" by code_simp
  then show "ex_trans_events (demo_execution demo_running) MPCExecution \<noteq> None" by simp
  have "srv_t demo_running = 1" by code_simp
  then show "card {[2 :: u8]} \<le> unat (srv_t demo_running)" by simp
qed simp



text \<open>
  C6. Nothing an execution has recorded is ever taken back or changed by any section of any
  handler: as long as it stays registered, its round does not go back, applied rounds keep their
  events, reserved slots their owner, submitted inputs their value, output shares their content,
  and votes, acknowledgements and histories only grow.
\<close>

theorem executions_only_evolve:
  assumes "coord_reachable s" and "coord_step s s'"
    and "map_of (srv_executions s) e = Some d" and "map_of (srv_executions s') e = Some d'"
  shows "evolves d d'"
proof -
  have "executions_evolve s s'"
    using coord_step_good [OF assms(2) coordinator.reachable_inv [OF assms(1)]] by (simp add: good_step_def)
  from executions_evolveD(1) [OF this assms(3,4)] show ?thesis .
qed

theorem executions_only_evolve_witness:
  "evolves (demo_execution demo_start) (acknowledge_retirement [1] (demo_execution demo_start))"
proof (rule executions_only_evolve [OF demo_reachable(2) step_retire [of demo_start demo_id "[1]"]])
  have "Option.is_none (ret_acks (srv_retired demo_start) demo_id)" by code_simp
  then have "acknowledge (srv_retired demo_start) demo_id [1] (Suc (Suc (Suc (Suc 0)))) =
      (False, srv_retired demo_start)"
    by (simp add: acknowledge_def Option.is_none_def)
  moreover have "srv_mpc_nodes demo_start = [[1], [2], [3], [4]]" by code_simp
  ultimately show "map_of (srv_executions (snd (retire_execution demo_id [1] demo_start))) demo_id =
      Some (acknowledge_retirement [1] (demo_execution demo_start))"
    by (simp add: retire_execution_def demo_present)
qed (rule demo_present)

text \<open>
  C7. If an execution went through input collection, then by the time the program has started
  every input slot holds a masked input: no quorum of votes can start it on a truncated input set.
\<close>

theorem program_starts_with_all_inputs:
  assumes "coord_reachable s" and "map_of (srv_executions s) e = Some d"
    and "ex_trans_events d InputCollection \<noteq> None" and "ex_trans_events d MPCExecution \<noteq> None"
  shows "None \<notin> set (ex_masked_inputs d)"
  using reachable_invs(4) [OF assms(1,2)] assms(3,4) by (simp add: inputs_inv_def applied_def)

theorem program_starts_with_all_inputs_witness:
  "None \<notin> set (ex_masked_inputs (demo_execution demo_running))"
proof (rule program_starts_with_all_inputs [OF demo_reachable(7) demo_present(6)])
  have "ex_trans_events (demo_execution demo_running) InputCollection = Some InputCollectionStarted"
    "ex_trans_events (demo_execution demo_running) MPCExecution = Some MPCStarted" by code_simp+
  then show "ex_trans_events (demo_execution demo_running) InputCollection \<noteq> None"
    "ex_trans_events (demo_execution demo_running) MPCExecution \<noteq> None" by simp_all
qed

text \<open>
  The shortcut past the input rounds is not restricted to executions without inputs: a
  quorum that proposes \<open>MPCExecution\<close> right after \<open>Preprocessing\<close> starts the program of an execution
  that was registered with two inputs, with none of them reserved or submitted.
\<close>

theorem program_can_start_without_inputs:
  "\<exists>s d. coord_reachable s \<and> map_of (srv_executions s) demo_id = Some d \<and>
     reg_n_inputs (ex_registration d) = 2 \<and> ex_round d = MPCExecution \<and>
     ex_reserved_indices d = [None, None] \<and> ex_masked_inputs d = [None, None]"
proof -
  let ?s = "cast_votes demo_id (List.product [[1], [2], [3]] [Preprocessing, MPCExecution]) demo_start"
  have r: "coord_reachable ?s" by (rule cast_votes_reachable [OF demo_reachable(2)])
  have "\<not> Option.is_none (map_of (srv_executions ?s) demo_id)" by code_simp
  then have "map_of (srv_executions ?s) demo_id = Some (demo_execution ?s)"
    by (auto simp: demo_execution_def Option.is_none_def)
  moreover have "reg_n_inputs (ex_registration (demo_execution ?s)) = 2"
    "ex_round (demo_execution ?s) = MPCExecution"
    "ex_reserved_indices (demo_execution ?s) = [None, None]"
    "ex_masked_inputs (demo_execution ?s) = [None, None]" by code_simp+
  ultimately show ?thesis using r by blast
qed

section \<open>Liveness\<close>

text \<open>
  After some votes have been processed, a vote of a party is either for a round already passed, or
  it is on record and no further round is ready to be applied.
\<close>

definition vote_counted :: "CoordinatorRPCServerSharedBase \<Rightarrow> ExecutionId \<Rightarrow> ClientIdentity \<Rightarrow> Round \<Rightarrow> bool" where
  "vote_counted s e party r \<longleftrightarrow> (\<exists>d. map_of (srv_executions s) e = Some d \<and>
     (r \<le> ex_round d \<or>
      (\<exists>voters. ex_transition_votes d r = Some voters \<and> party \<in> voters) \<and>
      (\<forall>r'. \<not> may_advance (transition_quorum s) d r')))"

lemma rpc_transition_party:
  assumes "topology_ok s" and "party \<in> parties s" and "r \<noteq> Idle"
    and "map_of (srv_executions s) e = Some d"
  shows "fst (snd (rpc_transition party e r s)) =
    put_execution e (fst (snd (execution_vote (transition_quorum s) (hd (srv_mpc_nodes s)) party r d))) s"
  using assms topology_okD(1) [OF assms(1)]
  by (cases "srv_mpc_nodes s") (auto simp: rpc_transition_def parties_def with_execution_def split_beta)

lemma rpc_transition_same_roster: "same_roster s (fst (snd (rpc_transition party e r s)))"
  by (auto simp: rpc_transition_def with_execution_def split_beta same_roster_def split: list.split option.split)

lemma vote_is_counted:
  assumes inv: "server_inv s" and party: "party \<in> parties s" and r: "r \<noteq> Idle"
    and d: "map_of (srv_executions s) e = Some d"
  shows "vote_counted (fst (snd (rpc_transition party e r s))) e party r"
proof -
  let ?q = "transition_quorum s" and ?h = "hd (srv_mpc_nodes s)"
  note eq = rpc_transition_party [OF server_invD(1) [OF inv] party r d]
  have q: "transition_quorum (fst (snd (rpc_transition party e r s))) = ?q"
    by (rule same_roster_derived(3) [OF rpc_transition_same_roster])
  show ?thesis
  proof (cases "r \<le> ex_round d")
    case True
    then show ?thesis by (simp add: vote_counted_def eq execution_vote_late)
  next
    case False
    then have lt: "ex_round d < r" by simp
    have "\<exists>voters. ex_transition_votes (snd (try_advance ?q ?h (add_vote party r d))) r = Some voters \<and> party \<in> voters"
      by (simp add: try_advance_frame add_vote_def)
    then show ?thesis
      unfolding vote_counted_def q
      by (simp add: eq execution_vote_early [OF lt] try_advance_settled)
  qed
qed

lemma rpc_transition_not_party:
  "\<not> (party \<in> parties s \<and> r \<noteq> Idle) \<Longrightarrow> fst (snd (rpc_transition party e r s)) = s"
  by (auto simp: rpc_transition_def parties_def split: list.split)

lemma vote_stays_counted:
  assumes inv: "server_inv s" and c: "vote_counted s e party r"
  shows "vote_counted (fst (snd (rpc_transition party' e r' s))) e party r"
proof (cases "party' \<in> parties s \<and> r' \<noteq> Idle")
  case True
  let ?q = "transition_quorum s" and ?h = "hd (srv_mpc_nodes s)"
  from c obtain d where d: "map_of (srv_executions s) e = Some d"
    and or: "r \<le> ex_round d \<or> (\<exists>voters. ex_transition_votes d r = Some voters \<and> party \<in> voters) \<and>
      (\<forall>r'. \<not> may_advance ?q d r')" by (auto simp: vote_counted_def)
  let ?d = "fst (snd (execution_vote ?q ?h party' r' d))"
  have "execution_ok s e d" by (rule server_invD(4) [OF inv d])
  then have ev: "evolves d ?d" using True by (auto simp: execution_ok_def intro: vote_op.op_evolves)
  have eq: "fst (snd (rpc_transition party' e r' s)) = put_execution e ?d s"
    using rpc_transition_party [OF server_invD(1) [OF inv] _ _ d] True by blast
  have settled: "\<not> may_advance ?q ?d x" if "\<forall>x. \<not> may_advance ?q d x" for x
    using that by (cases "r' \<le> ex_round d")
      (simp_all add: execution_vote_late execution_vote_early not_le try_advance_settled)
  have "r \<le> ex_round ?d \<or> (\<exists>voters. ex_transition_votes ?d r = Some voters \<and> party \<in> voters) \<and>
      (\<forall>x. \<not> may_advance ?q ?d x)"
    using or ev settled unfolding evolves_def by (meson order_trans subsetD)
  then show ?thesis
    unfolding vote_counted_def eq same_roster_derived(3) [OF same_roster_put] by simp
next
  case False
  then show ?thesis using c by (simp add: rpc_transition_not_party)
qed

lemma cast_votes_counted:
  assumes "server_inv s" and "map_of (srv_executions s) e \<noteq> None"
    and "(party, r) \<in> set votes" and "party \<in> parties s" and "r \<noteq> Idle"
  shows "vote_counted (cast_votes e votes s) e party r"
proof -
  have keep: "vote_counted s e party r \<Longrightarrow> server_inv s \<Longrightarrow> vote_counted (cast_votes e vs s) e party r" for vs s
    by (induction vs arbitrary: s)
      (auto simp: vote_stays_counted rpc_transition_good [unfolded good_step_def])
  show ?thesis
    using assms
  proof (induction votes arbitrary: s)
    case (Cons v votes)
    obtain p x where v: "v = (p, x)" by (cases v)
    let ?s = "fst (snd (rpc_transition p e x s))"
    have inv: "server_inv ?s" using rpc_transition_good [OF Cons.prems(1)] by (simp add: good_step_def)
    have par: "parties ?s = parties s" by (rule same_roster_derived(2) [OF rpc_transition_same_roster])
    have "map_of (srv_executions ?s) e \<noteq> None"
      using Cons.prems(2) by (auto simp: rpc_transition_def with_execution_def split_beta split: list.split)
    then show ?case
      using Cons v inv par keep vote_is_counted [OF Cons.prems(1,4,5)] by auto
  qed simp
qed

lemma cast_votes_frame:
  assumes "map_of (srv_executions s) e = Some d"
  shows "\<exists>d'. map_of (srv_executions (cast_votes e votes s)) e = Some d' \<and>
    ex_masked_inputs d' = ex_masked_inputs d" "same_roster s (cast_votes e votes s)"
proof -
  have vote: "ex_masked_inputs (fst (snd (execution_vote q h p x d))) = ex_masked_inputs d" for q h p x d
    by (cases "x \<le> ex_round d")
      (simp_all add: execution_vote_late execution_vote_early not_le try_advance_frame add_vote_def)
  show "\<exists>d'. map_of (srv_executions (cast_votes e votes s)) e = Some d' \<and>
    ex_masked_inputs d' = ex_masked_inputs d"
    using assms
  proof (induction votes arbitrary: s d)
    case (Cons v votes)
    obtain p x where v: "v = (p, x)" by (cases v)
    have "\<exists>d'. map_of (srv_executions (fst (snd (rpc_transition p e x s)))) e = Some d' \<and>
        ex_masked_inputs d' = ex_masked_inputs d"
      using Cons.prems by (auto simp: rpc_transition_def with_execution_def split_beta vote split: list.split)
    with Cons.IH v show ?case by fastforce
  qed simp
  show "same_roster s (cast_votes e votes s)"
  proof (induction votes arbitrary: s)
    case (Cons v votes)
    obtain p x where v: "v = (p, x)" by (cases v)
    show ?case using Cons [of "fst (snd (rpc_transition p e x s))"] rpc_transition_same_roster [of s p e x]
      by (simp add: v same_roster_def)
  qed simp
qed

text \<open>In a state where nothing can be applied, the next round lacks a quorum or the inputs.\<close>

lemma settled_next_round:
  assumes "\<forall>r. \<not> may_advance q d r" and "None \<notin> set (ex_masked_inputs d)"
    and "round_before r = Some (ex_round d)"
  shows "\<not> quorum_at q d r"
proof
  assume "quorum_at q d r"
  moreover have "r \<in> set ORDERED_ROUNDS" using assms(3) by (cases r) simp_all
  ultimately have "next_quorum_round d q \<noteq> None"
    using assms(3) by (auto simp: next_quorum_round_def find_None_iff quorum_at_def)
  then obtain r' where "next_quorum_round d q = Some r'" by blast
  moreover from this have "blocking_precondition d r' = None"
    using assms(2) by (auto simp: blocking_precondition_def Let_def filter_empty_conv)
  ultimately show False using assms(1) by (auto simp: may_advance_def)
qed

lemma counted_votes_finish:
  assumes inv: "rounds_inv P q d" and fin: "finite P" and suff: "q \<le> card H" "H \<noteq> {}"
    and inputs: "None \<notin> set (ex_masked_inputs d)"
    and counted: "\<And>p r. p \<in> H \<Longrightarrow> r \<noteq> Idle \<Longrightarrow> r \<le> ex_round d \<or>
      (\<exists>v. ex_transition_votes d r = Some v \<and> p \<in> v) \<and> (\<forall>x. \<not> may_advance q d x)"
  shows "ex_round d = ProgramFinished"
proof (rule ccontr)
  assume "ex_round d \<noteq> ProgramFinished"
  then obtain r where r: "round_before r = Some (ex_round d)" "r \<noteq> Idle"
    using round_successor by blast
  then have "\<not> r \<le> ex_round d" using round_before_less [OF r(1)] by simp
  with counted r(2) have all: "\<forall>p \<in> H. \<exists>v. ex_transition_votes d r = Some v \<and> p \<in> v"
    and none: "\<forall>x. \<not> may_advance q d x" using suff(2) by blast+
  then obtain v where v: "ex_transition_votes d r = Some v" using suff(2) by blast
  with all have sub: "H \<subseteq> v" by auto
  have "v \<subseteq> P" using inv v unfolding rounds_inv_def by blast
  then have "finite v" using fin by (rule finite_subset)
  then have "quorum_at q d r"
    using v order_trans [OF suff(1) card_mono [OF _ sub]] by (simp add: quorum_at_def)
  with settled_next_round [OF none inputs r(1)] show False by simp
qed

text \<open>
  C8. The parties that follow the protocol finish an execution without the others: once the
  masked inputs are in, if every party outside some set of at most \<open>t\<close> has proposed every round, in
  whatever order the proposals arrive and whatever else is proposed in between, the execution has
  reached \<open>ProgramFinished\<close>.
\<close>

theorem honest_parties_finish:
  assumes "coord_reachable s" and "map_of (srv_executions s) e = Some d"
    and "None \<notin> set (ex_masked_inputs d)"
    and "faulty \<subseteq> parties s" and "card faulty \<le> unat (srv_t s)"
    and "\<forall>p \<in> parties s - faulty. \<forall>r \<in> set ORDERED_ROUNDS. (p, r) \<in> set votes"
  shows "round_of (cast_votes e votes s) e = Some ProgramFinished"
proof -
  let ?s = "cast_votes e votes s" and ?q = "transition_quorum s"
  have inv: "server_inv s" by (rule coordinator.reachable_inv [OF assms(1)])
  obtain d' where d': "map_of (srv_executions ?s) e = Some d'" "ex_masked_inputs d' = ex_masked_inputs d"
    using cast_votes_frame(1) [OF assms(2)] by blast
  have q: "transition_quorum ?s = ?q" "parties ?s = parties s"
    using same_roster_derived [OF cast_votes_frame(2) [OF assms(2)]] by auto
  have inv': "rounds_inv (parties s) ?q d'"
    using reachable_invs(3) [OF cast_votes_reachable [OF assms(1)] d'(1)] q by simp
  have counted: "r \<le> ex_round d' \<or> (\<exists>v. ex_transition_votes d' r = Some v \<and> p \<in> v) \<and>
      (\<forall>x. \<not> may_advance ?q d' x)" if "p \<in> parties s - faulty" "r \<noteq> Idle" for p r
    using cast_votes_counted [OF inv, of e p r votes] assms(2,6) that d'(1) q by (auto simp: vote_counted_def)
  have suff: "?q \<le> card (parties s - faulty)"
    by (rule transition_roster.honest_members_suffice [OF server_invD(1) [OF inv] assms(4,5)])
  moreover have "parties s - faulty \<noteq> {}"
    using suff transition_roster.quorum_pos [OF server_invD(1) [OF inv]] by fastforce
  ultimately have "ex_round d' = ProgramFinished"
    using counted assms(3) d'(2) by (intro counted_votes_finish [OF inv']) (auto simp: parties_def)
  with d'(1) show ?thesis by (simp add: round_of_def)
qed

theorem honest_parties_finish_witness:
  "round_of (cast_votes demo_id (List.product [[3], [1], [2]] (rev ORDERED_ROUNDS)) demo_running) demo_id =
     Some ProgramFinished"
proof (rule honest_parties_finish [OF demo_reachable(7) demo_present(6), where faulty = "{[4]}"])
  have "ex_masked_inputs (demo_execution demo_running) = [Some [6], Some [5]]" by code_simp
  then show "None \<notin> set (ex_masked_inputs (demo_execution demo_running))" by simp
  have "srv_t demo_running = 1" and nodes: "srv_mpc_nodes demo_running = [[1], [2], [3], [4]]" by code_simp+
  then show "{[4]} \<subseteq> parties demo_running" "card {[4 :: u8]} \<le> unat (srv_t demo_running)"
    by (simp_all add: parties_def)
  show "\<forall>p \<in> parties demo_running - {[4]}. \<forall>r \<in> set ORDERED_ROUNDS.
      (p, r) \<in> set (List.product [[3], [1], [2]] (rev ORDERED_ROUNDS))"
    by (auto simp: parties_def nodes)
qed


section \<open>The cascade of rounds ends\<close>

lemma try_advance_loop_chain:
  "\<exists>ts. fst (try_advance_loop q h d ds) = Ok (ds @ ts) \<and> length ts + unat (round_index (ex_round d)) \<le> 6 \<and>
     sorted_wrt (<) (ex_round d # map fst ts) \<and> ex_round (snd (try_advance_loop q h d ds)) = last (ex_round d # map fst ts)"
proof (induction d ds rule: advance_induct [where q = q and h = h])
  case (stop d ds)
  have "unat (round_index (ex_round d)) \<le> 6" by (cases "ex_round d") simp_all
  with stop show ?case by (intro exI [of _ "[]"]) (simp add: try_advance_loop_stop)
next
  case (step d ds r)
  let ?t = "(r, the (round_event h r), waiting d r)"
  from step(2) obtain ts where ts: "fst (try_advance_loop q h d ds) = Ok (ds @ ?t # ts)"
      "length ts + unat (round_index r) \<le> 6" "sorted_wrt (<) (r # map fst ts)"
      "ex_round (snd (try_advance_loop q h d ds)) = last (r # map fst ts)"
    by (auto simp: try_advance_loop_step [OF step(1)] advance_def)
  have less: "ex_round d < r" by (rule may_advanceD(2) [OF step(1)])
  then have "unat (round_index (ex_round d)) < unat (round_index r)" by (simp add: round_less_iff)
  with ts less show ?case by (intro exI [of _ "?t # ts"]) (auto intro: less_trans)
qed

text \<open>
  C31. The loop that applies rounds after a vote always ends: it never fails, each round it applies is
  later than the one before, so it applies no more rounds than are left, and it stops only where no
  further round has a quorum and its precondition.
\<close>

theorem try_advance_ends:
  "\<exists>transitions. fst (try_advance quorum head d) = Ok transitions \<and>
     length transitions + unat (round_index (ex_round d)) \<le> 6 \<and>
     sorted_wrt (<) (ex_round d # map fst transitions) \<and>
     ex_round (snd (try_advance quorum head d)) = last (ex_round d # map fst transitions) \<and>
     (case next_quorum_round (snd (try_advance quorum head d)) quorum of
        None \<Rightarrow> True
      | Some r \<Rightarrow> blocking_precondition (snd (try_advance quorum head d)) r \<noteq> None)"
  (is "\<exists>transitions. ?chain transitions \<and> _ transitions \<and> _ transitions \<and> _ transitions \<and> ?settled")
proof -
  have ?settled
    using try_advance_settled [of quorum head d]
    by (cases "next_quorum_round (snd (try_advance quorum head d)) quorum") (simp_all add: try_advance_def may_advance_def)
  with try_advance_loop_chain [of quorum head d "[]"] show ?thesis by (simp add: try_advance_def)
qed

section \<open>Well-formed states\<close>

text \<open>
  C30. In every reachable coordinator each execution is stored once, under the identifier it was
  registered with; it has exactly one slot per input for the reservation and one for the masked
  input; an input is there only for a reserved slot, and an assigned slot is reserved only by the
  client it is assigned to; and output shares are held only from parties of the roster for output
  clients of the registration.
\<close>

theorem coordinator_well_formed:
  assumes "coord_reachable s" and "map_of (srv_executions s) e = Some d"
  shows "distinct (map fst (srv_executions s)) \<and> reg_execution_id (ex_registration d) = e \<and>
    length (ex_reserved_indices d) = unat (reg_n_inputs (ex_registration d)) \<and>
    length (ex_masked_inputs d) = unat (reg_n_inputs (ex_registration d)) \<and>
    (\<forall>i < unat (reg_n_inputs (ex_registration d)).
       (ex_masked_inputs d ! i \<noteq> None \<longrightarrow> ex_reserved_indices d ! i \<noteq> None) \<and>
       (\<forall>client. ex_reserved_indices d ! i = Some client \<longrightarrow> i < length (ex_input_assignments d) \<longrightarrow>
          input_slot_client d (ex_input_assignments d ! i) = Some client)) \<and>
    (\<forall>client party. map_of (ex_output_shares d) (client, party) \<noteq> None \<longrightarrow>
       client \<in> set (reg_output_clients (ex_registration d)) \<and> party \<in> set (srv_mpc_nodes s))"
proof -
  have inv: "server_inv s" by (rule coordinator.reachable_inv [OF assms(1)])
  then have "hm_wf (srv_executions s)" "execution_ok s e d" using assms(2) by (auto simp: server_inv_def)
  moreover from reachable_invs(2) [OF assms] have slots: "slots_inv d" .
  moreover have "input_slot_client d (ex_input_assignments d ! i) = Some client"
    if "i < n_slots d" "ex_reserved_indices d ! i = Some client" "i < length (ex_input_assignments d)" for i client
    using slots that by (auto simp: slots_inv_def slot_of_def vec_get_def)
  moreover note reachable_invs(5) [OF assms]
  ultimately show ?thesis
    unfolding hm_wf_def execution_ok_def slots_inv_def outputs_inv_def n_slots_def parties_def by simp
qed

theorem coordinator_well_formed_witness:
  "length (ex_masked_inputs (demo_execution demo_running)) = 2 \<and> distinct (map fst (srv_executions demo_running))"
proof -
  have "reg_n_inputs (ex_registration (demo_execution demo_running)) = 2" by code_simp
  with coordinator_well_formed [OF demo_reachable(7) demo_present(6)] show ?thesis by simp
qed

end
