(* ===== verification/Coord_Handlers.thy ===== *)
theory Coord_Handlers
  imports Coord_Properties
begin

text \<open>
  What each handler of the coordinator returns and does: reservations, submissions, output shares,
  registration and eviction, shutdown, subscriptions; that a handler touches no execution but its
  own, and that none of them panics.
\<close>

section \<open>All handlers\<close>



lemma with_execution_fst:
  "map_of (srv_executions s) e = Some d \<Longrightarrow> fst (with_execution e s f) = fst (f d)"
  by (simp add: with_execution_def split_beta)

lemma with_execution_None:
  "map_of (srv_executions s) e = None \<Longrightarrow>
     with_execution e s f = (Err (ServerError RpcExecutionNotFound), s, [])"
  by (simp add: with_execution_def)

lemma with_execution_Some:
  "map_of (srv_executions s) e = Some d \<Longrightarrow>
     with_execution e s f = (fst (f d), put_execution e (fst (snd (f d))) s, snd (snd (f d)))"
  by (simp add: with_execution_def split_beta)

lemma subscription_not_Panic: "fst (subscription accepted e s f) \<noteq> Panic"
  by (auto simp: subscription_def with_execution_def split_beta Let_def split: option.split)

lemma execution_reserve_not_Panic: "fst (execution_reserve ok caller indices d) \<noteq> Panic"
  by (cases rule: execution_reserve_cases [of ok caller indices d]) simp_all

lemma execution_vote_Ok: "fst (execution_vote q h caller r d) = Ok ()"
  by (cases "r \<le> ex_round d") (simp_all add: execution_vote_late execution_vote_early not_le)

lemma deliver_outputs_Ok:
  "map_of (srv_executions s) e = Some d \<Longrightarrow> fst (deliver_ready_output_waiters ok closed e client m s) = Ok ()"
  by (auto simp: deliver_ready_output_waiters_def Let_def split: prod.split option.split)

lemma record_output_shares_not_Panic: "fst (record_output_shares b caller client shares d) \<noteq> Panic"
  by (simp add: record_output_shares_def)

lemma register_execution_not_Panic: "fst (register_execution registration s) \<noteq> Panic"
  by (auto simp: register_execution_def insert_execution_def split: option.split prod.split result.split
      dest: execution_new_not_Panic [THEN notE])

lemma retire_execution_not_Panic: "fst (retire_execution e party s) \<noteq> Panic"
  by (auto simp: retire_execution_def Let_def split: prod.split option.split)

text \<open>The outcome of a submission: that of its first section, whatever the second one does.\<close>

lemma submit_masked_inputs_fst:
  assumes "srv_mpc_nodes s \<noteq> []" and "map_of (srv_executions s) e = Some d"
  shows "fst (submit_masked_inputs ok caller e masked_inputs indices s) =
    and_then (fst (submit_record caller masked_inputs indices d)) (\<lambda>_. Ok ())"
proof -
  obtain h rest where h: "srv_mpc_nodes s = h # rest" using assms(1) by (cases "srv_mpc_nodes s") auto
  obtain r d' where r: "submit_record caller masked_inputs indices d = (r, d')"
    by (cases "submit_record caller masked_inputs indices d")
  show ?thesis
  proof (cases r)
    case (Ok p)
    have "map_of (srv_executions (put_execution e d' s)) e = Some d'" by simp
    note w = with_execution_Some [OF this, of "submit_finish ok (transition_quorum s) h p"]
    show ?thesis
      unfolding submit_masked_inputs_def
      by (simp add: h with_execution_Some [OF assms(2)] r Ok w submit_finish_Ok)
  qed (simp_all add: submit_masked_inputs_def h with_execution_Some [OF assms(2)] r)
qed

lemma submit_not_Panic:
  assumes "coord_reachable s"
  shows "fst (submit_masked_inputs ok caller e masked_inputs indices s) \<noteq> Panic"
proof -
  have nodes: "srv_mpc_nodes s \<noteq> []"
    using topology_okD(1) server_invD(1) coordinator.reachable_inv [OF assms] by blast
  show ?thesis
  proof (cases "map_of (srv_executions s) e")
    case None
    then show ?thesis
      using nodes by (auto simp: submit_masked_inputs_def with_execution_None split: list.split)
  next
    case (Some d)
    have "slots_inv d" using reachable_invs(2) [OF assms Some] .
    then show ?thesis
      unfolding submit_masked_inputs_fst [OF nodes Some]
      by (cases rule: submit_record_cases [of d caller masked_inputs indices]) simp_all
  qed
qed





section \<open>Reservations\<close>

lemma execution_reserve_Ok_iff:
  "fst (execution_reserve ok caller indices d) = Ok () \<longleftrightarrow>
     ex_round d = InputMaskReservation \<and> indices \<noteq> [] \<and> Some caller \<notin> set (ex_reserved_indices d) \<and>
     validate_reservations d caller indices = Ok ()"
  by (cases rule: execution_reserve_cases [of ok caller indices d])
    (auto simp: execution_reserve_def Let_def split_beta split: if_splits)

lemma execution_reserve_owners:
  assumes "fst (execution_reserve ok caller indices d) = Ok ()" and "k < length (ex_reserved_indices d)"
  shows "ex_reserved_indices (fst (snd (execution_reserve ok caller indices d))) ! k =
    (if k \<in> unat ` set indices then Some caller else ex_reserved_indices d ! k)"
  using execution_reserve_state [OF assms(1)] assms(2) by (simp add: resubscribed_def nth_foldl_owner)

text \<open>
  C12. A reservation is all or nothing. It succeeds exactly when the execution is in the
  reservation round, the batch is not empty, the caller owns no slot yet, and every index is in
  range, free and, where the slot is assigned, assigned to the caller; then the caller owns
  precisely the indices of the batch and every other slot keeps its owner. Otherwise nothing
  changes and nobody is notified.
\<close>

theorem reserve_mask_indices_atomic:
  assumes "coord_reachable s" and "map_of (srv_executions s) e = Some d"
    and "reserve_mask_indices ok caller e indices s = (r, s', ds)"
  shows "(r = Ok () \<longleftrightarrow> ex_round d = InputMaskReservation \<and> indices \<noteq> [] \<and>
      Some caller \<notin> set (ex_reserved_indices d) \<and>
      (\<forall>i \<in> set indices. unat i < length (ex_reserved_indices d) \<and> ex_reserved_indices d ! unat i = None \<and>
         (\<forall>slot. vec_get (ex_input_assignments d) (unat i) = Some slot \<longrightarrow> input_slot_client d slot = Some caller))) \<and>
    (if r = Ok ()
     then \<exists>d'. map_of (srv_executions s') e = Some d' \<and> length (ex_reserved_indices d') = length (ex_reserved_indices d) \<and>
       (\<forall>k < length (ex_reserved_indices d). ex_reserved_indices d' ! k =
         (if k \<in> unat ` set indices then Some caller else ex_reserved_indices d ! k))
     else s' = s \<and> ds = [])"
proof -
  let ?x = "execution_reserve ok caller indices d"
  have hm: "hm_wf (srv_executions s)" by (rule server_invD(2) [OF coordinator.reachable_inv [OF assms(1)]])
  have eq: "r = fst ?x" "s' = put_execution e (fst (snd ?x)) s" "ds = snd (snd ?x)"
    using assms(2,3) by (auto simp: reserve_mask_indices_def with_execution_Some)
  have iff: "r = Ok () \<longleftrightarrow> ex_round d = InputMaskReservation \<and> indices \<noteq> [] \<and>
      Some caller \<notin> set (ex_reserved_indices d) \<and>
      (\<forall>i \<in> set indices. unat i < length (ex_reserved_indices d) \<and> ex_reserved_indices d ! unat i = None \<and>
         (\<forall>slot. vec_get (ex_input_assignments d) (unat i) = Some slot \<longrightarrow> input_slot_client d slot = Some caller))"
    unfolding eq execution_reserve_Ok_iff validate_reservations_Ok ..
  moreover have "s' = s \<and> ds = []" if "r \<noteq> Ok ()"
    using that unfolding eq
    by (cases rule: execution_reserve_cases [of ok caller indices d]) (simp_all add: put_same [OF hm assms(2)])
  moreover have "map_of (srv_executions s') e = Some (fst (snd ?x))" by (simp add: eq)
  moreover have "length (ex_reserved_indices (fst (snd ?x))) = length (ex_reserved_indices d)" if "r = Ok ()"
    using execution_reserve_state [of ok caller indices d] that eq(1) by (simp add: resubscribed_def)
  ultimately show ?thesis
    using execution_reserve_owners [of ok caller indices d] eq(1) by auto
qed

theorem reserve_mask_indices_atomic_witness:
  "fst (reserve_mask_indices (\<lambda>_ _. True) [21] demo_id [1] demo_reserving) = Ok () \<and>
   fst (reserve_mask_indices (\<lambda>_ _. True) [21] demo_id [1, 0] demo_reserving) \<noteq> Ok () \<and>
   fst (snd (reserve_mask_indices (\<lambda>_ _. True) [21] demo_id [1, 0] demo_reserving)) = demo_reserving"
proof -
  have ok: "fst (reserve_mask_indices (\<lambda>_ _. True) [21] demo_id [1] demo_reserving) = Ok ()" by code_simp
  have bad: "fst (reserve_mask_indices (\<lambda>_ _. True) [21] demo_id [1, 0] demo_reserving) =
    Err (ServerError UnauthorizedClientIo)" by code_simp
  obtain r s' ds where x: "reserve_mask_indices (\<lambda>_ _. True) [21] demo_id [1, 0] demo_reserving = (r, s', ds)"
    by (cases "reserve_mask_indices (\<lambda>_ _. True) [21] demo_id [1, 0] demo_reserving") auto
  from reserve_mask_indices_atomic [OF demo_reachable(3) demo_present(2) x] ok bad x show ?thesis by simp
qed

text \<open>
  C14. The two tables of an execution are functions of its event histories, so a subscriber that
  joins late and is replayed the history knows exactly who reserved which slot and which masked
  input each slot holds, and from then on receives what is broadcast.
\<close>

theorem late_subscriber_sees_everything:
  assumes "coord_reachable s" and "map_of (srv_executions s) e = Some d" and "\<And>m. ok k m"
  shows "snd (snd (sub_reserved_indices ok (Some k) e s)) = map (\<lambda>ev. (k, EventMsg ev)) (ex_reserved_index_events d) \<and>
    ex_reserved_indices d = replay_reservations (unat (reg_n_inputs (ex_registration d))) (ex_reserved_index_events d) \<and>
    snd (snd (sub_masked_inputs ok (Some k) e s)) = map (\<lambda>ev. (k, EventMsg ev)) (ex_masked_input_events d) \<and>
    ex_masked_inputs d = replay_inputs (unat (reg_n_inputs (ex_registration d))) (ex_masked_input_events d) \<and>
    (\<exists>d'. map_of (srv_executions (fst (snd (sub_reserved_indices ok (Some k) e s)))) e = Some d' \<and>
       k \<in> set (ex_reserved_index_sinks d')) \<and>
    (\<exists>d'. map_of (srv_executions (fst (snd (sub_masked_inputs ok (Some k) e s)))) e = Some d' \<and>
       k \<in> set (ex_masked_input_sinks d'))"
proof -
  have replay: "replay ok k ms = (True, map (\<lambda>m. (k, m)) ms)" for ms
    by (induction ms) (simp_all add: assms(3))
  have "histories_inv d" by (rule reachable_invs(1) [OF assms(1,2)])
  then show ?thesis
    using assms(2)
    by (auto simp: histories_inv_def n_slots_def sub_reserved_indices_def sub_masked_inputs_def subscription_def
        with_execution_Some subscribe_reserved_indices_def subscribe_masked_inputs_def replay comp_def)
qed

theorem late_subscriber_sees_everything_witness:
  "snd (snd (sub_reserved_indices (\<lambda>_ _. True) (Some 3) demo_id demo_held)) =
     [(3, EventMsg (ReservedInputEvent [20] [0])), (3, EventMsg (ReservedInputEvent [21] [1]))] \<and>
   replay_reservations 2 [ReservedInputEvent [20] [0], ReservedInputEvent [21] [1]] = [Some [20], Some [21]]"
proof -
  have "ex_reserved_index_events (demo_execution demo_held) =
      [ReservedInputEvent [20] [0], ReservedInputEvent [21] [1]]"
    "unat (reg_n_inputs (ex_registration (demo_execution demo_held))) = 2"
    "ex_reserved_indices (demo_execution demo_held) = [Some [20], Some [21]]" by code_simp+
  then show ?thesis
    using late_subscriber_sees_everything [OF demo_reachable(5) demo_present(4), of "\<lambda>_ _. True" 3] by auto
qed

text \<open>Free slots, counted on the table itself.\<close>

definition free_slots :: "CoordinatorExecutionState \<Rightarrow> nat" where
  "free_slots d = length (filter (\<lambda>owner. owner = None) (ex_reserved_indices d))"

lemma filter_update_taken:
  "i < length xs \<Longrightarrow> xs ! i = None \<Longrightarrow>
     Suc (length (filter (\<lambda>x. x = None) (xs[i := Some c]))) = length (filter (\<lambda>x. x = None) xs)"
  by (induction xs arbitrary: i) (auto split: nat.split simp: nth_Cons')

lemma foldl_owner_free:
  fixes "is" :: "u64 list"
  assumes "distinct is" and "\<forall>i \<in> set is. unat i < length os \<and> os ! unat i = None"
  shows "length (filter (\<lambda>x. x = None) (foldl (\<lambda>os i. os[unat i := Some c]) os is)) + length is =
    length (filter (\<lambda>x. x = None) os)"
  using assms
proof (induction "is" arbitrary: os)
  case (Cons i "is")
  have "\<forall>j \<in> set is. unat j < length (os[unat i := Some c]) \<and> os[unat i := Some c] ! unat j = None"
    using Cons.prems by (auto simp: nth_list_update simp flip: word_unat_eq_iff)
  with Cons filter_update_taken [of "unat i" os c] show ?case by simp
qed simp

text \<open>
  A reservation of distinct indices lowers \<open>available_input_masks\<close> by exactly the number of
  slots it takes: if the counter agreed with the table before, it agrees with it afterwards.
\<close>

theorem reserve_keeps_count:
  assumes "fst (execution_reserve ok caller indices d) = Ok ()" and "distinct indices"
    and "available_masks d = of_nat (free_slots d)"
  shows "available_masks (fst (snd (execution_reserve ok caller indices d))) =
      of_nat (free_slots (fst (snd (execution_reserve ok caller indices d)))) \<and>
    free_slots (fst (snd (execution_reserve ok caller indices d))) + length indices = free_slots d"
proof -
  let ?d = "fst (snd (execution_reserve ok caller indices d))"
  have "validate_reservations d caller indices = Ok ()"
    using assms(1) by (simp add: execution_reserve_Ok_iff)
  then have "free_slots ?d + length indices = free_slots d"
    using execution_reserve_state [OF assms(1)] foldl_owner_free [OF assms(2), of "ex_reserved_indices d" caller]
    by (simp add: free_slots_def resubscribed_def validate_reservations_Ok)
  moreover have "available_masks ?d = available_masks d - of_nat (length indices)"
    using execution_reserve_state [OF assms(1)] by (simp add: available_masks_def resubscribed_def)
  ultimately show ?thesis
    unfolding assms(3) by (metis add_diff_cancel_right' of_nat_add)
qed

theorem reserve_keeps_count_witness:
  "free_slots (fst (snd (execution_reserve (\<lambda>_ _. True) [20] [0] (demo_execution demo_reserving)))) + 1 =
     free_slots (demo_execution demo_reserving)"
proof -
  have "fst (execution_reserve (\<lambda>_ _. True) [20] [0] (demo_execution demo_reserving)) = Ok ()"
    "available_masks (demo_execution demo_reserving) = of_nat (free_slots (demo_execution demo_reserving))"
    by code_simp+
  from reserve_keeps_count [OF this(1) _ this(2)] show ?thesis by simp
qed

text \<open>
  An index that occurs twice in one batch is counted twice: after a single client has taken
  one of the two slots, naming it three times, \<open>available_input_masks\<close> reports \<open>2 ^ 64 - 1\<close>.
\<close>

theorem duplicate_reservation_miscounts:
  "fst (reserve_mask_indices (\<lambda>_ _. True) [20] demo_id [0, 0, 0] demo_reserving) = Ok () \<and>
   fst (available_input_masks demo_id
     (fst (snd (reserve_mask_indices (\<lambda>_ _. True) [20] demo_id [0, 0, 0] demo_reserving)))) =
     Ok 18446744073709551615 \<and>
   free_slots (demo_execution
     (fst (snd (reserve_mask_indices (\<lambda>_ _. True) [20] demo_id [0, 0, 0] demo_reserving)))) = 1"
  by code_simp

section \<open>Submissions\<close>

lemma stored_inputs:
  fixes "is" :: "u64 list"
  assumes "length bs = length is" and "\<forall>i \<in> set is. unat i < length xs"
  shows "k < length xs \<Longrightarrow> k \<notin> unat ` set is \<Longrightarrow>
      foldl (\<lambda>xs (i, b). xs[unat i := Some b]) xs (zip is bs) ! k = xs ! k"
    and "distinct is \<Longrightarrow> j < length is \<Longrightarrow>
      foldl (\<lambda>xs (i, b). xs[unat i := Some b]) xs (zip is bs) ! unat (is ! j) = Some (bs ! j)"
proof -
  show keep: "k < length xs \<Longrightarrow> k \<notin> unat ` set is \<Longrightarrow>
      foldl (\<lambda>xs (i, b). xs[unat i := Some b]) xs (zip is bs) ! k = xs ! k" for k xs
    using assms(1) by (induction bs "is" arbitrary: xs rule: list_induct2) auto
  show "distinct is \<Longrightarrow> j < length is \<Longrightarrow>
      foldl (\<lambda>xs (i, b). xs[unat i := Some b]) xs (zip is bs) ! unat (is ! j) = Some (bs ! j)"
    using assms
  proof (induction bs "is" arbitrary: xs j rule: list_induct2)
    case (Cons b bs i "is")
    have "unat i \<notin> unat ` set is" using Cons.prems(1) by (auto simp flip: word_unat_eq_iff)
    moreover have "k < length ys \<Longrightarrow> k \<notin> unat ` set is \<Longrightarrow>
        foldl (\<lambda>xs (i, b). xs[unat i := Some b]) ys (zip is bs) ! k = ys ! k" for k ys
      using Cons.hyps by (induction bs "is" arbitrary: ys rule: list_induct2) auto
    ultimately show ?case
      using Cons.prems Cons.IH [of "j - 1" "xs[unat i := Some b]"] by (cases j) auto
  qed simp
qed

lemma put_put: "put_execution e d (put_execution e d' s) = put_execution e d s"
proof -
  have "AList.update e d (AList.update e d' m) = AList.update e d m"
    for m :: "(ExecutionId, CoordinatorExecutionState) hashmap"
    by (induction m) auto
  then show ?thesis by (simp add: put_execution_def)
qed

lemma submit_masked_inputs_inputs:
  assumes "coord_reachable s" and "map_of (srv_executions s) e = Some d"
    and "fst (submit_masked_inputs ok caller e masked_inputs indices s) = Ok ()"
  shows "\<exists>p d'. fst (submit_record caller masked_inputs indices d) = Ok p \<and>
    map_of (srv_executions (fst (snd (submit_masked_inputs ok caller e masked_inputs indices s)))) e = Some d' \<and>
    ex_masked_inputs d' = ex_masked_inputs (snd (submit_record caller masked_inputs indices d))"
proof -
  have nodes: "srv_mpc_nodes s \<noteq> []"
    using topology_okD(1) server_invD(1) coordinator.reachable_inv [OF assms(1)] by blast
  then obtain h rest where h: "srv_mpc_nodes s = h # rest" by (cases "srv_mpc_nodes s") auto
  obtain r d1 where r: "submit_record caller masked_inputs indices d = (r, d1)"
    by (cases "submit_record caller masked_inputs indices d")
  then obtain p where p: "r = Ok p"
    using assms(3) unfolding submit_masked_inputs_fst [OF nodes assms(2)] by (cases r) simp_all
  let ?f = "submit_finish ok (transition_quorum s) h p"
  have "map_of (srv_executions (put_execution e d1 s)) e = Some d1" by simp
  note w = with_execution_Some [OF this, of ?f]
  have "fst (snd (submit_masked_inputs ok caller e masked_inputs indices s)) =
      put_execution e (fst (snd (?f d1))) s"
    unfolding submit_masked_inputs_def
    by (simp add: h with_execution_Some [OF assms(2)] r p w submit_finish_Ok put_put)
  moreover have "ex_masked_inputs (fst (snd (?f d1))) = ex_masked_inputs d1"
    by (simp add: submit_finish_Ok try_advance_frame submit_restore_def)
  ultimately show ?thesis using p r by simp
qed

text \<open>
  C13. A submission is all or nothing. It succeeds exactly when inputs are being collected, there
  is one input per index, the batch is not empty, and every index is reserved by the caller and
  still empty. Then, if the indices are distinct, each of them holds its input, and every other
  slot is as before. If it fails, nothing changes and nobody is notified.
\<close>

theorem submit_masked_inputs_atomic:
  assumes "coord_reachable s" and "map_of (srv_executions s) e = Some d"
    and "submit_masked_inputs ok caller e masked_inputs indices s = (r, s', ds)"
  shows "(r = Ok () \<longleftrightarrow> ex_round d = InputCollection \<and> length masked_inputs = length indices \<and> indices \<noteq> [] \<and>
      (\<forall>i \<in> set indices. unat i < length (ex_reserved_indices d) \<and>
         ex_reserved_indices d ! unat i = Some caller \<and> ex_masked_inputs d ! unat i = None)) \<and>
    (if r = Ok ()
     then \<exists>d'. map_of (srv_executions s') e = Some d' \<and>
       (\<forall>k < length (ex_masked_inputs d). k \<notin> unat ` set indices \<longrightarrow> ex_masked_inputs d' ! k = ex_masked_inputs d ! k) \<and>
       (distinct indices \<longrightarrow>
         (\<forall>j < length indices. ex_masked_inputs d' ! unat (indices ! j) = Some (masked_inputs ! j)))
     else s' = s \<and> ds = [])"
proof -
  note inv = coordinator.reachable_inv [OF assms(1)] and slots = reachable_invs(2) [OF assms(1,2)]
  have nodes: "srv_mpc_nodes s \<noteq> []" using topology_okD(1) server_invD(1) inv by blast
  have len: "length (ex_masked_inputs d) = length (ex_reserved_indices d)"
    using slots by (simp add: slots_inv_def)
  have r: "r = and_then (fst (submit_record caller masked_inputs indices d)) (\<lambda>_. Ok ())"
    using submit_masked_inputs_fst [OF nodes assms(2)] assms(3) by (metis fst_conv)
  show ?thesis
    using slots
  proof (cases rule: submit_record_cases [of d caller masked_inputs indices])
    case (refused err)
    moreover have "s' = s \<and> ds = []"
      using assms(3) nodes refused put_same [OF server_invD(2) [OF inv] assms(2)]
      by (auto simp: submit_masked_inputs_def with_execution_Some [OF assms(2)] split: list.splits)
    moreover have "\<not> (ex_round d = InputCollection \<and> length masked_inputs = length indices \<and> indices \<noteq> [] \<and>
        validate_submissions d caller indices = Ok ())"
      using refused by (auto simp: submit_record_def Let_def split_beta split: if_splits)
    ultimately show ?thesis by (auto simp: r validate_submissions_Ok [OF len])
  next
    case (recorded p)
    then have ok: "r = Ok ()" by (simp add: r)
    obtain d' where d': "map_of (srv_executions s') e = Some d'"
      "ex_masked_inputs d' = ex_masked_inputs (snd (submit_record caller masked_inputs indices d))"
      using submit_masked_inputs_inputs [OF assms(1,2), of ok caller masked_inputs indices] assms(3) ok by auto
    then have "ex_masked_inputs d' = foldl (\<lambda>xs (i, b). xs[unat i := Some b]) (ex_masked_inputs d) (zip indices masked_inputs)"
      using submit_record_state [OF recorded(5)] by (simp add: resubscribed_def)
    note table = this stored_inputs [of masked_inputs indices "ex_masked_inputs d"]
    have "\<forall>i \<in> set indices. unat i < length (ex_masked_inputs d)"
      using recorded(4) by (simp add: validate_submissions_Ok [OF len] len)
    with table recorded(2) d'(1) ok recorded show ?thesis
      by (auto simp: validate_submissions_Ok [OF len])
  qed
qed

theorem submit_masked_inputs_atomic_witness:
  "fst (submit_masked_inputs (\<lambda>_ _. True) [20] demo_id [[6]] [0] demo_one_input) = Ok () \<and>
   fst (submit_masked_inputs (\<lambda>_ _. True) [21] demo_id [[6]] [1] demo_one_input) \<noteq> Ok () \<and>
   fst (snd (submit_masked_inputs (\<lambda>_ _. True) [21] demo_id [[6]] [1] demo_one_input)) = demo_one_input"
proof -
  have ok: "fst (submit_masked_inputs (\<lambda>_ _. True) [20] demo_id [[6]] [0] demo_one_input) = Ok ()" by code_simp
  have bad: "fst (submit_masked_inputs (\<lambda>_ _. True) [21] demo_id [[6]] [1] demo_one_input) =
    Err (ServerError MaskedInputAlreadySubmitted)" by code_simp
  obtain r s' ds where x: "submit_masked_inputs (\<lambda>_ _. True) [21] demo_id [[6]] [1] demo_one_input = (r, s', ds)"
    by (cases "submit_masked_inputs (\<lambda>_ _. True) [21] demo_id [[6]] [1] demo_one_input") auto
  from submit_masked_inputs_atomic [OF demo_reachable(6) demo_present(5) x] ok bad x show ?thesis by simp
qed

text \<open>
  A batch may name the same index twice: it is accepted, both values are broadcast, and the
  slot ends up with the second one.
\<close>

theorem duplicate_submission_accepted:
  "fst (submit_masked_inputs (\<lambda>_ _. True) [20] demo_id [[6], [8]] [0, 0] demo_one_input) = Ok () \<and>
   last (ex_masked_input_events (demo_execution
     (fst (snd (submit_masked_inputs (\<lambda>_ _. True) [20] demo_id [[6], [8]] [0, 0] demo_one_input))))) =
     MaskedInputEvent [20] [(0, [6]), (0, [8])] \<and>
   ex_masked_inputs (demo_execution
     (fst (snd (submit_masked_inputs (\<lambda>_ _. True) [20] demo_id [[6], [8]] [0, 0] demo_one_input)))) =
     [Some [8], Some [5]]"
  by code_simp

section \<open>Registration and retirement\<close>

lemma coordinator_acks:
  "coord_reachable s \<Longrightarrow> map_of (srv_executions s) e = Some d \<Longrightarrow> ex_retirement_acks d \<subseteq> parties s"
  using reachable_invs(5) [of s e d] by (simp add: outputs_inv_def)



text \<open>
  C16. An execution is only ever dropped after \<open>n - t\<close> distinct configured parties acknowledged it,
  at least one of them outside any given set of \<open>t\<close> identities, and never if it is the execution of
  a one-off coordinator.
\<close>

theorem eviction_needs_quorum:
  assumes "coord_reachable s" and "coord_step s s'"
    and "map_of (srv_executions s) e = Some d" and "map_of (srv_executions s') e = None"
    and "finite faulty" and "card faulty \<le> unat (srv_t s)"
  shows "srv_one_off_execution s \<noteq> Some e \<and> ex_retirement_acks d \<subseteq> parties s \<and>
    unat (srv_n s) - unat (srv_t s) \<le> card (ex_retirement_acks d) \<and>
    (\<exists>p. p \<in> ex_retirement_acks d \<and> p \<notin> faulty)"
proof -
  note inv = coordinator.reachable_inv [OF assms(1)]
  have top: "topology_ok s" by (rule server_invD(1) [OF inv])
  have "executions_evolve s s'" using coord_step_good [OF assms(2) inv] by (simp add: good_step_def)
  from executions_evolveD(2) [OF this assms(3,4)]
  have q: "retirement_quorum s \<le> card (ex_retirement_acks d)" "srv_one_off_execution s \<noteq> Some e" by auto
  moreover have sub: "ex_retirement_acks d \<subseteq> parties s"
    by (rule coordinator_acks [OF assms(1,3)])
  moreover obtain p where "p \<in> ex_retirement_acks d" "p \<notin> faulty"
    by (rule retirement_roster.honest_member [OF top sub q(1) assms(6,5)])
  ultimately show ?thesis by (auto simp: retirement_quorum_eq [OF top])
qed

text \<open>A coordinator filled to capacity, whose first execution three parties have acknowledged.\<close>

definition filler :: "nat \<Rightarrow> ExecutionRegistration" where
  "filler k = demo_registration\<lparr>reg_execution_id := ExecutionId (replicate k 1)\<rparr>"

fun filled :: "nat \<Rightarrow> CoordinatorRPCServerSharedBase" where
  "filled 0 = demo_empty"
| "filled (Suc k) = snd (register_execution (filler k) (filled k))"

definition demo_full :: CoordinatorRPCServerSharedBase where
  "demo_full =
     snd (retire_execution (ExecutionId []) [3] (snd (retire_execution (ExecutionId []) [2]
       (snd (retire_execution (ExecutionId []) [1] (filled 1024))))))"

lemma execution_new_other_id:
  "execution_new registration n = Ok d \<Longrightarrow> \<not> is_zero e \<Longrightarrow>
     \<exists>d'. execution_new (registration\<lparr>reg_execution_id := e\<rparr>) n = Ok d'"
  by (auto simp: execution_new_def Let_def split: if_splits option.splits)

lemma filler_Ok: "\<exists>d. execution_new (filler k) 4 = Ok d"
proof -
  have "is_Ok (execution_new demo_registration 4)" by code_simp
  then obtain d where "execution_new demo_registration 4 = Ok d" by (auto simp: is_Ok_iff)
  moreover have "\<not> is_zero (ExecutionId (replicate k 1))"
    by (simp add: is_zero_def replicate_eq_replicate)
  ultimately show ?thesis unfolding filler_def by (rule execution_new_other_id)
qed

lemma filled_facts:
  "k \<le> 1024 \<Longrightarrow> coord_reachable (filled k) \<and> length (srv_executions (filled k)) = k \<and>
     (\<forall>e. map_of (srv_executions (filled k)) e \<noteq> None \<longleftrightarrow> (\<exists>j < k. e = ExecutionId (replicate j 1))) \<and>
     srv_retired (filled k) = retired_default \<and> srv_one_off_execution (filled k) = None \<and>
     same_roster demo_empty (filled k)"
proof (induction k)
  case 0
  then show ?case by (simp add: demo_reachable) (simp add: demo_empty_def)
next
  case (Suc k)
  let ?e = "ExecutionId (replicate k 1)"
  have IH: "coord_reachable (filled k)" "length (srv_executions (filled k)) = k"
    "map_of (srv_executions (filled k)) e \<noteq> None \<longleftrightarrow> (\<exists>j < k. e = ExecutionId (replicate j 1))"
    "srv_retired (filled k) = retired_default" "srv_one_off_execution (filled k) = None"
    "same_roster demo_empty (filled k)" for e using Suc by auto
  have fresh: "map_of (srv_executions (filled k)) ?e = None"
    using IH(3) [of ?e] by (auto dest: arg_cong [of _ _ length])
  have "srv_n (filled k) = 4" using IH(6) by (simp add: same_roster_def demo_empty_def)
  then obtain d where "execution_new (filler k) (srv_n (filled k)) = Ok d" using filler_Ok by auto
  then have eq: "filled (Suc k) = put_execution ?e d (filled k)"
    using fresh IH(2) Suc.prems
    by (simp add: register_execution_def insert_execution_def filler_def DEFAULT_MAX_CONCURRENT_EXECUTIONS_def)
  have "coord_reachable (filled (Suc k))"
    using reachable_step [OF IH(1) step_register] by simp
  moreover have "length (srv_executions (filled (Suc k))) = Suc k"
    unfolding eq using fresh IH(2) by (simp add: put_execution_def hm_simps)
  moreover have "map_of (srv_executions (filled (Suc k))) e \<noteq> None \<longleftrightarrow> (\<exists>j < Suc k. e = ExecutionId (replicate j 1))" for e
    unfolding eq put_execution_get using IH(3) [of e] by (auto simp: less_Suc_eq)
  moreover have "srv_retired (filled (Suc k)) = retired_default \<and>
      srv_one_off_execution (filled (Suc k)) = None \<and> same_roster demo_empty (filled (Suc k))"
    unfolding eq using IH(4-6) by (simp add: same_roster_def)
  ultimately show ?case by blast
qed

lemma retire_live:
  assumes "srv_retired s = retired_default" and "party \<in> set (srv_mpc_nodes s)"
    and "map_of (srv_executions s) e = Some d"
  shows "snd (retire_execution e party s) = put_execution e (acknowledge_retirement party d) s"
proof -
  have "acknowledge (srv_retired s) e party (length (srv_mpc_nodes s)) = (False, srv_retired s)"
    using assms(1) by (simp add: acknowledge_def tombstones.lookup_empty)
  then show ?thesis using assms(2,3) by (simp add: retire_execution_def)
qed

lemma demo_full_facts:
  "coord_reachable demo_full" "evictable demo_full \<noteq> None" "length (srv_executions demo_full) = 1024"
  "map_of (srv_executions demo_full) (reg_execution_id (filler 1024)) = None" "srv_t demo_full = 1"
proof -
  let ?e = "ExecutionId []"
  have f: "coord_reachable (filled 1024)" "length (srv_executions (filled 1024)) = 1024"
    "\<And>e. map_of (srv_executions (filled 1024)) e \<noteq> None \<longleftrightarrow> (\<exists>j < 1024. e = ExecutionId (replicate j 1))"
    "srv_retired (filled 1024) = retired_default" "srv_one_off_execution (filled 1024) = None"
    "same_roster demo_empty (filled 1024)" using filled_facts [of 1024] by auto
  obtain d where d: "map_of (srv_executions (filled 1024)) ?e = Some d"
    using f(3) [of ?e] by (metis not_None_eq replicate_0 zero_less_numeral)
  have roster: "srv_mpc_nodes (filled 1024) = [[1], [2], [3], [4]]" "srv_n (filled 1024) = 4"
    "srv_t (filled 1024) = 1" using f(6) by (simp_all add: same_roster_def demo_empty_def)
  let ?d = "acknowledge_retirement [3] (acknowledge_retirement [2] (acknowledge_retirement [1] d))"
  have full: "demo_full = put_execution ?e ?d (filled 1024)"
    unfolding demo_full_def using d f(4) roster by (simp add: retire_live put_put)
  show reach: "coord_reachable demo_full"
    unfolding demo_full_def
    by (rule reachable_step [OF reachable_step [OF reachable_step [OF f(1) step_retire] step_retire] step_retire])
  have inv: "server_inv demo_full" by (rule coordinator.reachable_inv [OF reach])
  have "unat (4 - 1 :: u64) = 3" by simp
  then have q: "retirement_quorum demo_full = 3"
    using roster by (simp add: full retirement_quorum_def)
  have "card {[3], [2], [1 :: u8]} \<le> card (ex_retirement_acks ?d)"
    using finite_subset [OF _ finite_set, of "ex_retirement_acks d" "srv_mpc_nodes (filled 1024)"]
      coordinator_acks [OF f(1) d]
    by (intro card_mono) (auto simp: acknowledge_retirement_def parties_def)
  then have enough: "3 \<le> card (ex_retirement_acks ?d)" by simp
  have "(?e, ?d) \<in> set (srv_executions demo_full)"
    using hm_get_iff [OF server_invD(2) [OF inv], of ?e ?d] by (simp add: full)
  then show "evictable demo_full \<noteq> None"
    using enough f(5) q by (auto simp: evictable_def find_None_iff full)
  show "length (srv_executions demo_full) = 1024"
    using f(2) d by (simp add: full put_execution_def hm_simps)
  show "map_of (srv_executions demo_full) (reg_execution_id (filler 1024)) = None"
    using f(3) [of "reg_execution_id (filler 1024)"]
    by (auto simp: full filler_def dest: arg_cong [of _ _ length])
  show "srv_t demo_full = 1" using roster by (simp add: full)
qed

theorem eviction_needs_quorum_witness:
  "\<exists>s s' e d. coord_reachable s \<and> coord_step s s' \<and> map_of (srv_executions s) e = Some d \<and>
     map_of (srv_executions s') e = None \<and> (\<exists>p. p \<in> ex_retirement_acks d \<and> p \<notin> {[1]})"
proof -
  note f = demo_full_facts
  obtain e d where ev: "evictable demo_full = Some (e, d)" using f(2) by auto
  note e = evictable_Some [OF server_invD(2) [OF coordinator.reachable_inv [OF f(1)]] ev]
  let ?s = "snd (register_execution (filler 1024) demo_full)"
  have "e \<noteq> reg_execution_id (filler 1024)" using e(1) f(4) by auto
  then have gone: "map_of (srv_executions ?s) e = None"
    by (simp add: register_execution_def f ev DEFAULT_MAX_CONCURRENT_EXECUTIONS_def
        insert_execution_get hm_simps)
  have "card {[1 :: u8]} \<le> unat (srv_t demo_full)" by (simp add: f)
  from eviction_needs_quorum [OF f(1) step_register e(1) gone _ this]
  show ?thesis using f(1) e(1) gone step_register [of demo_full "filler 1024"] by blast
qed

section \<open>Shutdown\<close>

definition shutdown_inv :: "CoordinatorRPCServerSharedBase \<Rightarrow> bool" where
  "shutdown_inv s \<longleftrightarrow> (srv_shutdown_fired s \<longrightarrow>
     (\<exists>e. srv_one_off_execution s = Some e \<and> round_of s e = Some ProgramFinished))"

lemma insert_execution_frame:
  "srv_shutdown_fired (snd (insert_execution registration s)) = srv_shutdown_fired s"
  "srv_one_off_execution (snd (insert_execution registration s)) = srv_one_off_execution s"
  by (auto simp: insert_execution_def split: result.split)

lemma coord_step_fired:
  assumes "coord_step s s'" and "srv_shutdown_fired s'"
  shows "srv_one_off_execution s' = srv_one_off_execution s \<and>
    (srv_shutdown_fired s \<or> (\<exists>e. srv_one_off_execution s = Some e \<and> round_of s e = Some ProgramFinished))"
  using assms
  by cases (auto simp: register_execution_def insert_execution_frame retire_execution_def Let_def
      watch_for_shutdown_request_def request_shutdown_def rpc_transition_def with_execution_def split_beta
      split: option.splits prod.splits list.splits if_splits)

lemma one_off_stays_finished:
  assumes "good_step s s'" and "srv_one_off_execution s = Some e" and "round_of s e = Some ProgramFinished"
  shows "round_of s' e = Some ProgramFinished"
proof -
  obtain d where d: "map_of (srv_executions s) e = Some d" "ex_round d = ProgramFinished"
    using assms(3) by (auto simp: round_of_def)
  have ev: "executions_evolve s s'" using assms(1) by (simp add: good_step_def)
  then obtain d' where d': "map_of (srv_executions s') e = Some d'"
    using executions_evolveD(2) [OF ev d(1)] assms(2) by (cases "map_of (srv_executions s') e") auto
  with executions_evolveD(1) [OF ev d(1)] have "evolves d d'" by blast
  then have "ProgramFinished \<le> ex_round d'" using d(2) by (simp add: evolves_def)
  then have "ex_round d' = ProgramFinished" using ProgramFinished_greatest by (rule antisym [rotated])
  with d' show ?thesis by (simp add: round_of_def)
qed

interpretation shutdown: invariant_system coord_init coord_step "\<lambda>s. server_inv s \<and> shutdown_inv s"
proof
  fix s
  assume "coord_init s"
  then show "server_inv s \<and> shutdown_inv s"
    using coord_init_inv
    by (auto simp: coord_init_def coordinator_new_def and_then_Ok_iff shutdown_inv_def)
next
  fix s s'
  assume inv: "server_inv s \<and> shutdown_inv s" and step: "coord_step s s'"
  then have good: "good_step s s'" using coord_step_good by blast
  then show "server_inv s' \<and> shutdown_inv s'"
    using inv coord_step_fired [OF step] one_off_stays_finished [OF good]
    by (auto simp: good_step_def shutdown_inv_def)
qed

text \<open>
  A shutdown request is honoured exactly when the designated party makes it, the coordinator
  serves a one-off execution that has finished, and no request was honoured before.
\<close>

theorem request_shutdown_iff:
  assumes "coord_reachable s"
  shows "fst (request_shutdown caller s) = Ok () \<longleftrightarrow>
    caller = hd (srv_mpc_nodes s) \<and> srv_shutdown_notify s \<and>
    (\<exists>e. srv_one_off_execution s = Some e \<and> round_of s e = Some ProgramFinished)"
  using topology_okD(1) [OF server_invD(1) [OF coordinator.reachable_inv [OF assms]]]
  by (cases "srv_mpc_nodes s") (auto simp: request_shutdown_def split: option.split)

theorem request_shutdown_iff_witness:
  "fst (request_shutdown [1] (watch_for_shutdown_request demo_id demo_running)) \<noteq> Ok ()"
proof -
  have "coord_reachable (watch_for_shutdown_request demo_id demo_running)"
    by (rule reachable_step [OF demo_reachable(7) step_watch])
  from request_shutdown_iff [OF this, of "[1]"] show ?thesis
    by (simp add: watch_for_shutdown_request_def round_of_def demo_present demo_rounds)
qed

text \<open>
  The signal that ends a one-off coordinator is only ever given once its execution has reached
  \<open>ProgramFinished\<close>, and from then on that execution stays registered in that round.
\<close>

theorem shutdown_after_program_finished:
  assumes "coord_reachable s" and "srv_shutdown_fired s"
  shows "\<exists>e. srv_one_off_execution s = Some e \<and> round_of s e = Some ProgramFinished"
  using shutdown.reachable_inv [OF assms(1)] assms(2) by (simp add: shutdown_inv_def)

definition demo_finished :: CoordinatorRPCServerSharedBase where
  "demo_finished =
     fst (snd (request_shutdown [1] (watch_for_shutdown_request demo_id
       (cast_votes demo_id (List.product [[1], [2], [4]] [OutputDistribution, ProgramFinished]) demo_running))))"

theorem shutdown_after_program_finished_witness:
  "\<exists>e. srv_one_off_execution demo_finished = Some e \<and> round_of demo_finished e = Some ProgramFinished"
proof (rule shutdown_after_program_finished)
  show "coord_reachable demo_finished"
    unfolding demo_finished_def
    by (rule reachable_step [OF reachable_step [OF cast_votes_reachable [OF demo_reachable(7)] step_watch] step_shutdown])
  show "srv_shutdown_fired demo_finished" by code_simp
qed

end
