(* ===== verification/Coord_Delivery.thy ===== *)
theory Coord_Delivery
  imports Coord_Handlers
begin

text \<open>
  Who is sent what: subscribers of rounds, and clients that wait for their outputs; and the
  validation of rosters and registrations.
\<close>

section \<open>Subscribers of rounds\<close>

lemma advance_loop_keeps_events:
  assumes "ex_trans_events d x = Some ev" and "x \<le> ex_round d"
  shows "ex_trans_events (snd (try_advance_loop q h d ds)) x = Some ev"
  using assms
proof (induction d ds rule: advance_induct [where q = q and h = h])
  case (step d ds r)
  have "x < r" using step.prems(2) may_advanceD(2) [OF step.hyps(1)] by (rule le_less_trans)
  then have "ex_trans_events (advance h r d) x = Some ev" "x \<le> ex_round (advance h r d)"
    using step.prems(1) by (auto simp: advance_def)
  from step.IH [OF this] show ?case by (simp add: try_advance_loop_step [OF step.hyps(1)])
qed (simp add: try_advance_loop_stop)

lemma advance_loop_deliveries:
  "set ds \<subseteq> set (case fst (try_advance_loop q h d ds) of Ok ts \<Rightarrow> ts | _ \<Rightarrow> [])"
proof (induction d ds rule: advance_induct [where q = q and h = h])
  case (step d ds r)
  then show ?case by (simp add: try_advance_loop_step)
qed (simp add: try_advance_loop_stop)

text \<open>A waiting subscriber is handed the event of its round, or the round is still to come.\<close>

lemma advance_loop_waiters:
  assumes "k \<in> set (waiting d x)" and "ex_trans_events d x = None"
    and "try_advance_loop q h d ds = (Ok ts, d')"
  shows "(\<exists>ev ks. (x, ev, ks) \<in> set ts \<and> k \<in> set ks \<and> ex_trans_events d' x = Some ev) \<or>
    ex_trans_events d' x = None \<and> k \<in> set (waiting d' x)"
  using assms
proof (induction d ds rule: advance_induct [where q = q and h = h])
  case (stop d ds)
  then show ?case by (simp add: try_advance_loop_stop)
next
  case (step d ds r)
  have loop: "try_advance_loop q h (advance h r d) (ds @ [(r, the (round_event h r), waiting d r)]) = (Ok ts, d')"
    using step.prems(3) by (simp add: try_advance_loop_step [OF step.hyps(1)])
  show ?case
  proof (cases "x = r")
    case True
    obtain ev where ev: "round_event h r = Some ev"
      using may_advanceD(1) [OF step.hyps(1)] by (cases "round_event h r") auto
    have "(r, ev, waiting d r) \<in> set ts"
      using advance_loop_deliveries [of "ds @ [(r, the (round_event h r), waiting d r)]" q h "advance h r d"] loop ev
      by simp
    moreover have "ex_trans_events d' r = Some ev"
      using advance_loop_keeps_events [of "advance h r d" r ev q h "ds @ [(r, the (round_event h r), waiting d r)]"]
      unfolding loop using ev by (simp add: advance_def)
    ultimately show ?thesis using True step.prems(1) by blast
  next
    case False
    then have "k \<in> set (waiting (advance h r d) x)" "ex_trans_events (advance h r d) x = None"
      using step.prems by (simp_all add: waiting_def advance_def)
    from step.IH [OF this loop] show ?thesis .
  qed
qed

lemma waiting_not_applied:
  "rounds_inv P q d \<Longrightarrow> k \<in> set (waiting d x) \<Longrightarrow> ex_trans_events d x = None"
  unfolding rounds_inv_def waiting_def
  by (cases "ex_sinks d x") (simp, metis option.distinct(1))

lemma vote_waiters:
  assumes w: "k \<in> set (waiting d x)" and none: "ex_trans_events d x = None"
  shows "(\<exists>ev. ex_trans_events (fst (snd (execution_vote q h caller r d))) x = Some ev \<and>
      (k, EventMsg ev) \<in> set (snd (snd (execution_vote q h caller r d)))) \<or>
    ex_trans_events (fst (snd (execution_vote q h caller r d))) x = None \<and>
      k \<in> set (waiting (fst (snd (execution_vote q h caller r d))) x)"
proof (cases "r \<le> ex_round d")
  case True
  with none w show ?thesis by (simp add: execution_vote_late)
next
  case False
  let ?d = "add_vote caller r d"
  obtain ts d' where t: "try_advance q h ?d = (Ok ts, d')" using try_advance_Ok by (metis prod.exhaust_sel)
  have v: "execution_vote q h caller r d = (Ok (), d', deliver_transitions ts)"
    using False t by (simp add: execution_vote_def add_vote_def Let_def less_eq_Round_def)
  have "(\<exists>ev ks. (x, ev, ks) \<in> set ts \<and> k \<in> set ks \<and> ex_trans_events d' x = Some ev) \<or>
      ex_trans_events d' x = None \<and> k \<in> set (waiting d' x)"
  proof (rule advance_loop_waiters)
    show "k \<in> set (waiting ?d x)" "ex_trans_events ?d x = None"
      using w none by (simp_all add: add_vote_def waiting_def)
    show "try_advance_loop q h ?d [] = (Ok ts, d')" using t by (simp add: try_advance_def)
  qed
  then show ?thesis unfolding v by (force simp: deliver_transitions_def broadcast_def)
qed

text \<open>
  C17. No wake-up is lost. A subscription to a round is answered at once with the event of the
  round if the round was already entered, and is otherwise registered; and when a proposal is
  processed, every registered subscriber is sent the event of its round if that round has now been
  entered, and stays registered if not.
\<close>

theorem round_subscription_not_lost:
  assumes "coord_reachable s" and "map_of (srv_executions s) e = Some d" and "round \<noteq> Idle"
    and "sub_round (Some k) e round s = (r1, s1, ds1)" and "map_of (srv_executions s1) e = Some d1"
    and "rpc_transition caller e next_round s = (r2, s2, ds2)" and "map_of (srv_executions s2) e = Some d2"
  shows "(case ex_trans_events d round of
        Some ev \<Rightarrow> ds1 = [(k, EventMsg ev)] | None \<Rightarrow> k \<in> set (waiting d1 round)) \<and>
    (\<forall>x k'. k' \<in> set (waiting d x) \<longrightarrow>
       (\<exists>ev. ex_trans_events d2 x = Some ev \<and> (k', EventMsg ev) \<in> set ds2) \<or>
       ex_trans_events d2 x = None \<and> k' \<in> set (waiting d2 x))"
proof (intro conjI allI impI)
  have sub: "ds1 = snd (subscribe_round round k d)" "d1 = fst (subscribe_round round k d)"
    using assms(2-5) by (auto simp: sub_round_def subscription_def with_execution_Some split_beta)
  show "case ex_trans_events d round of Some ev \<Rightarrow> ds1 = [(k, EventMsg ev)] | None \<Rightarrow> k \<in> set (waiting d1 round)"
    by (auto simp: sub subscribe_round_def waiting_def split: option.split)
next
  fix x k'
  assume w: "k' \<in> set (waiting d x)"
  have none: "ex_trans_events d x = None"
    by (rule waiting_not_applied [OF reachable_invs(3) [OF assms(1,2)] w])
  let ?v = "execution_vote (transition_quorum s) (hd (srv_mpc_nodes s)) caller next_round d"
  from assms(2,6,7) have "d2 = d \<or> d2 = fst (snd ?v) \<and> ds2 = snd (snd ?v)"
    by (auto simp: rpc_transition_def with_execution_Some split: list.splits if_splits)
  then show "(\<exists>ev. ex_trans_events d2 x = Some ev \<and> (k', EventMsg ev) \<in> set ds2) \<or>
      ex_trans_events d2 x = None \<and> k' \<in> set (waiting d2 x)"
  proof
    assume "d2 = d"
    with w none show ?thesis by simp
  next
    assume "d2 = fst (snd ?v) \<and> ds2 = snd (snd ?v)"
    with vote_waiters [OF w none, of "transition_quorum s" "hd (srv_mpc_nodes s)" caller next_round]
    show ?thesis by simp
  qed
qed

definition demo_waiting :: CoordinatorRPCServerSharedBase where
  "demo_waiting = fst (snd (sub_round (Some 9) demo_id Preprocessing
     (cast_votes demo_id [([1], Preprocessing), ([2], Preprocessing)] demo_start)))"

theorem round_subscription_not_lost_witness:
  "(9, EventMsg (PreprocessingStarted [1])) \<in> set (snd (snd (rpc_transition [3] demo_id Preprocessing demo_waiting)))"
proof -
  have reach: "coord_reachable demo_waiting"
    unfolding demo_waiting_def by (intro subscriptions_reachable cast_votes_reachable demo_reachable)
  let ?x = "rpc_transition [3] demo_id Preprocessing demo_waiting" and ?y = "sub_round (Some 4) demo_id Preprocessing demo_waiting"
  have "\<not> Option.is_none (map_of (srv_executions demo_waiting) demo_id)"
    "\<not> Option.is_none (map_of (srv_executions (fst (snd ?x))) demo_id)"
    "\<not> Option.is_none (map_of (srv_executions (fst (snd ?y))) demo_id)"
    "ex_trans_events (demo_execution (fst (snd ?x))) Preprocessing = Some (PreprocessingStarted [1])"
    "waiting (demo_execution demo_waiting) Preprocessing = [9]" by code_simp+
  note f = this
  have some: "map_of (srv_executions demo_waiting) demo_id = Some (demo_execution demo_waiting)"
    "map_of (srv_executions (fst (snd ?x))) demo_id = Some (demo_execution (fst (snd ?x)))"
    "map_of (srv_executions (fst (snd ?y))) demo_id = Some (demo_execution (fst (snd ?y)))"
    using f(1-3) by (auto simp: demo_execution_def Option.is_none_def)
  have eq: "?y = (fst ?y, fst (snd ?y), snd (snd ?y))" "?x = (fst ?x, fst (snd ?x), snd (snd ?x))" by simp_all
  have "Preprocessing \<noteq> Idle" by simp
  from round_subscription_not_lost [OF reach some(1) this eq(1) some(3) eq(2) some(2)]
  have "\<forall>x k'. k' \<in> set (waiting (demo_execution demo_waiting) x) \<longrightarrow>
      (\<exists>ev. ex_trans_events (demo_execution (fst (snd ?x))) x = Some ev \<and> (k', EventMsg ev) \<in> set (snd (snd ?x))) \<or>
      ex_trans_events (demo_execution (fst (snd ?x))) x = None \<and> k' \<in> set (waiting (demo_execution (fst (snd ?x))) x)"
    by (rule conjunct2)
  from this [rule_format, of 9 Preprocessing] f(4,5) show ?thesis by simp
qed

section \<open>Outputs\<close>

definition client_shares :: "ClientIdentity \<Rightarrow> CoordinatorExecutionState \<Rightarrow> enc_share list" where
  "client_shares client d = map snd (filter (\<lambda>entry. fst (fst entry) = client) (ex_output_shares d))"

lemma length_client_shares:
  assumes "hm_wf (ex_output_shares d)"
  shows "length (client_shares client d) = card {party. map_of (ex_output_shares d) (client, party) \<noteq> None}"
proof -
  let ?m = "filter (\<lambda>entry. fst (fst entry) = client) (ex_output_shares d)"
  have "distinct (map fst ?m)" using assms by (simp add: hm_wf_def distinct_map_filter)
  then have "inj_on (snd \<circ> fst) (set ?m)" "distinct ?m"
    by (auto simp: distinct_map inj_on_def prod_eq_iff)
  then have "distinct (map (snd \<circ> fst) ?m)" by (simp add: distinct_map)
  from distinct_card [OF this] have "length ?m = card ((snd \<circ> fst) ` set ?m)" by simp
  moreover have "(snd \<circ> fst) ` set ?m = {party. map_of (ex_output_shares d) (client, party) \<noteq> None}"
    using hm_keys_dom [of "ex_output_shares d"] by (force simp: dom_def image_iff)
  ultimately show ?thesis by (simp add: client_shares_def)
qed

lemma snapshot_eq:
  "ready_output_snapshot closed client m d =
     (case ex_output_sinks d client of
        None \<Rightarrow> (None, d)
      | Some k \<Rightarrow> if closed k then (None, d\<lparr>ex_output_sinks := (ex_output_sinks d)(client := None)\<rparr>)
          else (if length (client_shares client d) < m then None else Some (k, client_shares client d), d))"
  by (simp add: ready_output_snapshot_def client_shares_def Let_def split: option.split)

lemma deliver_outputs_spec:
  assumes "map_of (srv_executions s) e = Some d"
    and "deliver_ready_output_waiters ok closed e client m s = (r, s', ds)"
  obtains d' where "r = Ok ()" "map_of (srv_executions s') e = Some d'"
    "ex_output_shares d' = ex_output_shares d"
    "ds = (case fst (ready_output_snapshot closed client m d) of
       None \<Rightarrow> [] | Some (k, xs) \<Rightarrow> [(k, OutputSharesMsg xs)])"
proof -
  have "r = Ok () \<and> (\<exists>d'. map_of (srv_executions s') e = Some d' \<and> ex_output_shares d' = ex_output_shares d) \<and>
      ds = (case fst (ready_output_snapshot closed client m d) of
        None \<Rightarrow> [] | Some (k, xs) \<Rightarrow> [(k, OutputSharesMsg xs)])"
    using assms by (auto simp: deliver_ready_output_waiters_def Let_def snapshot_eq forget_output_waiter_def
        split: option.splits if_splits prod.splits)
  with that show thesis by blast
qed

text \<open>
  C18. Output shares are taken from configured parties only, for the execution's output clients
  only, and once per party and client; otherwise nothing changes. The client that waits is sent
  the shares recorded for it as soon as, and only if, at least \<open>min_output_shares\<close> distinct parties
  have delivered theirs.
\<close>

theorem send_output_shares_delivers:
  assumes "coord_reachable s" and "map_of (srv_executions s) e = Some d"
    and "send_output_shares ok closed caller e client shares s = (r, s', ds)"
  shows "(r = Ok () \<longleftrightarrow> caller \<in> parties s \<and> client \<in> set (reg_output_clients (ex_registration d)) \<and>
      map_of (ex_output_shares d) (client, caller) = None) \<and>
    (if r = Ok ()
     then \<exists>d'. map_of (srv_executions s') e = Some d' \<and>
       map_of (ex_output_shares d') = (map_of (ex_output_shares d))((client, caller) \<mapsto> shares) \<and>
       ds = (case ex_output_sinks d client of
          None \<Rightarrow> []
        | Some k \<Rightarrow>
            if \<not> closed k \<and> unat (reg_min_output_shares (ex_registration d)) \<le>
                 card {party. map_of (ex_output_shares d') (client, party) \<noteq> None}
            then [(k, OutputSharesMsg (client_shares client d'))] else [])
     else s' = s \<and> ds = [])"
proof -
  let ?ok = "caller \<in> parties s \<and> client \<in> set (reg_output_clients (ex_registration d)) \<and>
    map_of (ex_output_shares d) (client, caller) = None"
  let ?d = "d\<lparr>ex_output_shares := AList.update (client, caller) shares (ex_output_shares d)\<rparr>"
  have inv: "slots_inv d" "outputs_inv (parties s) d"
    using reachable_invs(2,5) [OF assms(1,2)] .
  have clients: "ex_output_clients d = reg_output_clients (ex_registration d)"
    using inv(1) by (simp add: slots_inv_def)
  show ?thesis
  proof (cases ?ok)
    case False
    then have "r \<noteq> Ok () \<and> s' = s \<and> ds = []"
      using assms(2,3) clients by (auto simp: send_output_shares_def record_output_shares_def parties_def split: if_splits)
    with False show ?thesis by auto
  next
    case True
    have len: "length (client_shares client ?d) = card {party. map_of (ex_output_shares ?d) (client, party) \<noteq> None}"
      by (rule length_client_shares) (use inv(2) in \<open>simp add: outputs_inv_def\<close>)
    have send: "deliver_ready_output_waiters ok closed e client
        (unat (reg_min_output_shares (ex_registration ?d))) (put_execution e ?d s) = (r, s', ds)"
      using True assms(2,3) clients by (simp add: send_output_shares_def record_output_shares_def parties_def)
    have put: "map_of (srv_executions (put_execution e ?d s)) e = Some ?d" by simp
    let ?snap = "ready_output_snapshot closed client (unat (reg_min_output_shares (ex_registration ?d))) ?d"
    obtain d' where d': "r = Ok ()" "map_of (srv_executions s') e = Some d'"
      "ex_output_shares d' = ex_output_shares ?d"
      "ds = (case fst ?snap of None \<Rightarrow> [] | Some (k, xs) \<Rightarrow> [(k, OutputSharesMsg xs)])"
      by (rule deliver_outputs_spec [OF put send])
    have same: "client_shares client d' = client_shares client ?d" using d'(3) by (simp add: client_shares_def)
    have "map_of (ex_output_shares d') = (map_of (ex_output_shares d))((client, caller) \<mapsto> shares)"
      by (simp add: d'(3) update_conv')
    moreover have "ds = (case ex_output_sinks d client of None \<Rightarrow> []
        | Some k \<Rightarrow> if \<not> closed k \<and> unat (reg_min_output_shares (ex_registration d)) \<le>
             card {party. map_of (ex_output_shares d') (client, party) \<noteq> None}
            then [(k, OutputSharesMsg (client_shares client d'))] else [])"
      unfolding d'(4) snapshot_eq same d'(3) len [symmetric] by (auto split: option.split)
    ultimately show ?thesis using True d'(1,2) by auto
  qed
qed

definition demo_outputs :: CoordinatorRPCServerSharedBase where
  "demo_outputs =
     fst (snd (send_output_shares (\<lambda>_ _. True) (\<lambda>_. False) [4] demo_id [20] ([1], [44])
       (fst (snd (send_output_shares (\<lambda>_ _. True) (\<lambda>_. False) [1] demo_id [20] ([1], [11])
         (fst (snd (obtain_output_shares (\<lambda>_ _. True) (\<lambda>_. False) (Some 5) [20] demo_id demo_running))))))))"

theorem send_output_shares_delivers_witness:
  "snd (snd (send_output_shares (\<lambda>_ _. True) (\<lambda>_. False) [2] demo_id [20] ([1], [22]) demo_outputs)) =
     [(5, OutputSharesMsg [([1], [11]), ([1], [44]), ([1], [22])])] \<and>
   fst (snd (send_output_shares (\<lambda>_ _. True) (\<lambda>_. False) [1] demo_id [20] ([1], [22]) demo_outputs)) = demo_outputs"
proof -
  let ?x = "send_output_shares (\<lambda>_ _. True) (\<lambda>_. False) [1] demo_id [20] ([1], [22]) demo_outputs"
  have reach: "coord_reachable demo_outputs"
    unfolding demo_outputs_def by (intro send_output_reachable obtain_output_reachable demo_reachable)
  have "\<not> Option.is_none (map_of (srv_executions demo_outputs) demo_id)" by code_simp
  then have some: "map_of (srv_executions demo_outputs) demo_id = Some (demo_execution demo_outputs)"
    by (auto simp: demo_execution_def Option.is_none_def)
  have "?x = (fst ?x, fst (snd ?x), snd (snd ?x))" by simp
  from send_output_shares_delivers [OF reach some this]
  have "fst ?x \<noteq> Ok () \<longrightarrow> fst (snd ?x) = demo_outputs" by presburger
  moreover have "fst ?x = Err (ServerError OutputSharesAlreadySent)" by code_simp
  moreover have "snd (snd (send_output_shares (\<lambda>_ _. True) (\<lambda>_. False) [2] demo_id [20] ([1], [22]) demo_outputs)) =
     [(5, OutputSharesMsg [([1], [11]), ([1], [44]), ([1], [22])])]" by code_simp
  ultimately show ?thesis by simp
qed

section \<open>Rosters and registrations\<close>

text \<open>
  A coordinator starts exactly with a non-empty list of distinct identities, as many as
  announced, of which fewer than half may be faulty (\<open>2t + 1 \<le> n\<close>, with no overflow of the
  64-bit arithmetic that checks it). Its transition quorum is then the smaller of \<open>2t + 1\<close> and
  \<open>n - t\<close>.
\<close>

theorem coordinator_new_iff:
  assumes "vec_ok nodes"
  shows "(\<exists>s. coordinator_new n t nodes = Ok s) \<longleftrightarrow>
      nodes \<noteq> [] \<and> distinct nodes \<and> length nodes = unat n \<and> 2 * unat t + 1 \<le> unat n"
    (is "?l \<longleftrightarrow> ?r")
proof
  assume ?l
  then have "validate_topology n t nodes = Ok ()" by (auto simp: coordinator_new_def and_then_Ok_iff)
  from topology_facts [OF this assms] show ?r by blast
next
  assume r: ?r
  then have bound: "unat n < 2 ^ 63" using assms by (simp add: vec_ok_def)
  with r have "unat (2 * t + 1) = 2 * unat t + 1"
    by (simp add: unat_word_ariths mult.commute)
  with r show ?l by (simp add: coordinator_new_def validate_topology_def word_le_nat_alt word_less_nat_alt)
qed

theorem coordinator_new_iff_witness:
  "(\<exists>s. coordinator_new 3 1 [[1], [2], [3]] = Ok s) \<and> \<not> (\<exists>s. coordinator_new 3 2 [[1], [2], [3]] = Ok s)"
  using coordinator_new_iff [of "[[1], [2], [3]]" 3 1] coordinator_new_iff [of "[[1], [2], [3]]" 3 2]
  by (simp add: vec_ok_def)

text \<open>
  The expansion of the ranges lists every input slot once: range \<open>j\<close> contributes a block of as
  many consecutive slots as its count, after the blocks of the ranges before it, all of them for
  its client and labelled from zero.
\<close>

theorem expand_input_ranges_blocks:
  "length (expand_input_ranges ranges) = (\<Sum>r \<leftarrow> ranges. unat (range_count r)) \<and>
   (\<forall>j < length ranges. \<forall>l < unat (range_count (ranges ! j)).
      (\<Sum>r \<leftarrow> take j ranges. unat (range_count r)) + l < length (expand_input_ranges ranges) \<and>
      expand_input_ranges ranges ! ((\<Sum>r \<leftarrow> take j ranges. unat (range_count r)) + l) =
        \<lparr>slot_client_index = range_client_index (ranges ! j), slot_label = of_nat l\<rparr>)"
proof (induction ranges)
  case (Cons r ranges)
  show ?case
  proof (intro conjI allI impI)
    show "length (expand_input_ranges (r # ranges)) = (\<Sum>r \<leftarrow> r # ranges. unat (range_count r))"
      using Cons.IH by simp
  next
    fix j l
    assume j: "j < length (r # ranges)" and l: "l < unat (range_count ((r # ranges) ! j))"
    let ?i = "(\<Sum>r \<leftarrow> take j (r # ranges). unat (range_count r)) + l"
    have "?i < length (expand_input_ranges (r # ranges)) \<and> expand_input_ranges (r # ranges) ! ?i =
        \<lparr>slot_client_index = range_client_index ((r # ranges) ! j), slot_label = of_nat l\<rparr>"
      using Cons.IH j l by (cases j) (auto simp: nth_append)
    then show "?i < length (expand_input_ranges (r # ranges))"
      "expand_input_ranges (r # ranges) ! ?i =
        \<lparr>slot_client_index = range_client_index ((r # ranges) ! j), slot_label = of_nat l\<rparr>" by simp_all
  qed
qed simp

theorem expand_input_ranges_blocks_witness:
  "expand_input_ranges [\<lparr>range_client_index = 1, range_count = 2\<rparr>, \<lparr>range_client_index = 0, range_count = 3\<rparr>] ! 4 =
     \<lparr>slot_client_index = 0, slot_label = 2\<rparr>"
  using expand_input_ranges_blocks [of "[\<lparr>range_client_index = 1, range_count = 2\<rparr>, \<lparr>range_client_index = 0, range_count = 3\<rparr>]",
      THEN conjunct2, rule_format, of 1 2] by simp

lemma length_expand_input_ranges:
  "length (expand_input_ranges ranges) = (\<Sum>r \<leftarrow> ranges. unat (range_count r))"
  by (induction ranges) simp_all

lemma set_expand_input_ranges:
  "slot \<in> set (expand_input_ranges ranges) \<Longrightarrow> \<exists>r \<in> set ranges. slot_client_index slot = range_client_index r"
  by (induction ranges) auto

text \<open>
  An accepted registration names a program, asks for between one and \<open>n\<close> output shares, and,
  if it assigns inputs and its counts do not overflow, gives every input slot to a client it
  lists.
\<close>

theorem accepted_registration:
  assumes "execution_new registration n = Ok d" and "ia_ranges (reg_input_assignment registration) \<noteq> []"
    and "(\<Sum>r \<leftarrow> ia_ranges (reg_input_assignment registration). unat (range_count r)) < 2 ^ 64"
  shows "\<not> is_zero (reg_execution_id registration) \<and> reg_program_hash registration \<noteq> replicate 32 0 \<and>
    1 \<le> unat (reg_min_output_shares registration) \<and> unat (reg_min_output_shares registration) \<le> unat n \<and>
    length (ex_input_assignments d) = unat (reg_n_inputs registration) \<and>
    (\<forall>slot \<in> set (ex_input_assignments d). \<exists>client \<in> set (ia_clients (reg_input_assignment registration)).
       input_slot_client d slot = Some client)"
proof -
  let ?ranges = "ia_ranges (reg_input_assignment registration)"
  let ?clients = "ia_clients (reg_input_assignment registration)"
  have facts: "\<not> is_zero (reg_execution_id registration)" "reg_program_hash registration \<noteq> replicate 32 0"
    "reg_min_output_shares registration \<noteq> 0" "\<not> n < reg_min_output_shares registration"
    "reg_n_inputs registration = ranges_total ?ranges"
    "\<forall>r \<in> set ?ranges. unat (range_client_index r) < length ?clients"
    "ex_input_assignments d = expand_input_ranges ?ranges" "ex_registration d = registration"
    using assms(1,2) by (auto simp: execution_new_def Let_def find_None_iff not_le split: if_splits option.splits)
  have "unat (ranges_total ?ranges) = (\<Sum>r \<leftarrow> ?ranges. unat (range_count r))"
    using assms(3) unat_wrapping_sum [of "map range_count ?ranges"] by (simp add: ranges_total_def comp_def)
  then have "length (ex_input_assignments d) = unat (reg_n_inputs registration)"
    using length_expand_input_ranges [of ?ranges] facts(5,7) by simp
  moreover have "\<exists>client \<in> set ?clients. input_slot_client d slot = Some client"
    if "slot \<in> set (ex_input_assignments d)" for slot
    using that facts(6-8) set_expand_input_ranges [of slot ?ranges] by (auto simp: input_slot_client_def vec_get_def)
  moreover have "unat (reg_min_output_shares registration) \<noteq> 0" using facts(3) by (simp add: unat_eq_0)
  ultimately show ?thesis using facts(1,2,4) by (simp add: word_less_nat_alt)
qed

theorem accepted_registration_witness:
  "\<exists>d. execution_new (filler 0) 4 = Ok d \<and> length (ex_input_assignments d) = 2"
proof -
  obtain d where d: "execution_new (filler 0) 4 = Ok d" using filler_Ok by blast
  have "length (ex_input_assignments d) = unat (reg_n_inputs (filler 0))"
    using accepted_registration [OF d] by (simp add: filler_def demo_registration_def)
  with d show ?thesis by (simp add: filler_def demo_registration_def)
qed

lemma singleton_not_32: "[x] \<noteq> replicate 32 y"
  by (auto dest: arg_cong [of _ _ length])

text \<open>
  The counts are added without overflow checks, so a registration whose ranges cover \<open>2 ^ 64\<close>
  inputs passes the check against a declared number of zero.
\<close>

theorem registration_total_wraps:
  "\<exists>d. execution_new (demo_registration\<lparr>reg_n_inputs := 0,
       reg_input_assignment := \<lparr>ia_clients = [[20]],
         ia_ranges = [\<lparr>range_client_index = 0, range_count = 2 ^ 63\<rparr>, \<lparr>range_client_index = 0, range_count = 2 ^ 63\<rparr>]\<rparr>\<rparr>) 4 = Ok d"
  by (simp add: execution_new_def demo_registration_def demo_id_def is_zero_def ranges_total_def Let_def
      singleton_not_32)

end
