(* ===== verification/Run_Properties.thy ===== *)
theory Run_Properties
  imports Run_Coord Coord_Delivery
begin

text \<open>
  What the program \<open>run-coord\<close> sets up: which manifests and bindings are accepted and which input
  ranges and output clients they give, how many input slots each bound client then owns, and the
  coordinator state with which the listener starts.
\<close>

section \<open>The three loops of the binding\<close>

definition schema_at :: "('i, 'o) ClientIoManifest \<Rightarrow> u64 \<Rightarrow> ('i, 'o) ClientIoSchema" where
  "schema_at manifest slot = the (find (\<lambda>schema. schema_client_slot schema = slot) (manifest_clients manifest))"

definition manifest_ok :: "('i, 'o) ClientIoManifest \<Rightarrow> bool" where
  "manifest_ok manifest \<longleftrightarrow>
     (\<forall>schema \<in> set (manifest_clients manifest). vec_ok (schema_inputs schema) \<and> vec_ok (schema_outputs schema))"

abbreviation slots_of :: "('i, 'o) ClientIoManifest \<Rightarrow> u64 list" where
  "slots_of manifest \<equiv> map schema_client_slot (manifest_clients manifest)"

definition input_bindings :: "('i, 'o) ClientIoManifest \<Rightarrow> (u64 \<times> ClientIdentity) list \<Rightarrow> (u64 \<times> ClientIdentity) list" where
  "input_bindings manifest bindings = filter (\<lambda>(slot, _). schema_inputs (schema_at manifest slot) \<noteq> []) bindings"

definition output_bindings :: "('i, 'o) ClientIoManifest \<Rightarrow> (u64 \<times> ClientIdentity) list \<Rightarrow> (u64 \<times> ClientIdentity) list" where
  "output_bindings manifest bindings = filter (\<lambda>(slot, _). schema_outputs (schema_at manifest slot) \<noteq> []) bindings"

definition input_counts :: "('i, 'o) ClientIoManifest \<Rightarrow> (u64 \<times> ClientIdentity) list \<Rightarrow> nat list" where
  "input_counts manifest bindings =
     map (\<lambda>b. length (schema_inputs (schema_at manifest (fst b)))) (input_bindings manifest bindings)"

lemma index_schemas_Ok:
  "index_schemas schemas m = Ok m' \<longleftrightarrow>
     distinct (map schema_client_slot schemas) \<and> schema_client_slot ` set schemas \<inter> fst ` set m = {} \<and>
     m' = m @ map (\<lambda>schema. (schema_client_slot schema, schema)) schemas"
proof (induction schemas arbitrary: m)
  case (Cons schema schemas)
  let ?k = "schema_client_slot schema"
  have "AList.update ?k schema m = m @ [(?k, schema)]" if "?k \<notin> fst ` set m"
    using that by (induction m) auto
  then show ?case
    using Cons.IH [of "m @ [(?k, schema)]"]
    by (cases "?k \<in> fst ` set m") (auto simp: map_of_eq_None_iff)
qed auto

lemma index_schemas_not_Panic [simp]: "index_schemas schemas m \<noteq> Panic"
  by (induction schemas m rule: index_schemas.induct) auto

definition bound_entry ::
  "(u64, ('i, 'o) ClientIoSchema) hashmap \<Rightarrow> u64 \<times> ClientIdentity \<Rightarrow> ClientIdentity \<times> u64 \<times> u64 \<times> u64" where
  "bound_entry m b =
     (case b of (slot, client) \<Rightarrow>
        (client, slot, of_nat (length (schema_inputs (the (map_of m slot)))),
         of_nat (length (schema_outputs (the (map_of m slot))))))"

lemma bind_schemas_Ok:
  "bind_schemas bindings m = Ok (bound, m') \<longleftrightarrow>
     distinct (map fst bindings) \<and> fst ` set bindings \<subseteq> fst ` set m \<and>
     bound = map (bound_entry m) bindings \<and> m' = filter (\<lambda>(k, _). k \<notin> fst ` set bindings) m"
proof (induction bindings arbitrary: m bound)
  case Nil
  show ?case by auto
next
  case (Cons b bindings)
  obtain slot client where b: "b = (slot, client)" by (cases b)
  have keys: "fst ` set (AList.delete slot m) = fst ` set m - {slot}"
    by (auto simp: AList.delete_eq image_iff)
  have entries: "map (bound_entry (AList.delete slot m)) bindings = map (bound_entry m) bindings"
    if "slot \<notin> fst ` set bindings"
    using that by (force simp: bound_entry_def delete_conv' split: prod.split)
  have rest: "filter (\<lambda>(k, _). k \<notin> fst ` set bindings) (AList.delete slot m) =
      filter (\<lambda>(k, _). k \<notin> fst ` set (b # bindings)) m"
    by (auto simp: AList.delete_eq b split_def intro!: filter_cong)
  show ?case
  proof (cases "map_of m slot")
    case None
    then have "slot \<notin> fst ` set m" by (simp add: map_of_eq_None_iff)
    with None show ?thesis by (simp add: b)
  next
    case (Some schema)
    then have "slot \<in> fst ` set m" by (metis domI dom_map_of_conv_image_fst)
    have unfolded: "bind_schemas (b # bindings) m = Ok (bound, m') \<longleftrightarrow>
        (\<exists>bound'. bind_schemas bindings (AList.delete slot m) = Ok (bound', m') \<and> bound = bound_entry m b # bound')"
      using Some by (auto simp: b and_then_Ok_iff bound_entry_def)
    show ?thesis
    proof (cases "slot \<in> fst ` set bindings")
      case True
      then have "\<not> fst ` set bindings \<subseteq> fst ` set m - {slot}" by blast
      with True show ?thesis unfolding unfolded Cons.IH keys by (simp add: b)
    next
      case False
      then have "fst ` set bindings \<subseteq> fst ` set m - {slot} \<longleftrightarrow> fst ` set bindings \<subseteq> fst ` set m" by blast
      with False \<open>slot \<in> fst ` set m\<close> show ?thesis
        unfolding unfolded Cons.IH keys entries [OF False] rest by (auto simp: b)
    qed
  qed
qed

definition giving :: "(ClientIdentity \<times> u64 \<times> u64 \<times> u64) list \<Rightarrow> (ClientIdentity \<times> u64 \<times> u64 \<times> u64) list" where
  "giving = filter (\<lambda>(_, _, input_count, _). input_count \<noteq> 0)"

definition range_list :: "nat \<Rightarrow> (ClientIdentity \<times> u64 \<times> u64 \<times> u64) list \<Rightarrow> InputClientRange list" where
  "range_list k bound =
     map (\<lambda>(j, _, _, input_count, _). \<lparr>range_client_index = of_nat j, range_count = input_count\<rparr>) (enumerate k bound)"

lemma assign_ranges_Ok:
  "assign_ranges bound seen clients ranges outputs = Ok (a, outs) \<longleftrightarrow>
     distinct (map fst bound) \<and> fst ` set bound \<inter> seen = {} \<and>
     (giving bound = [] \<or> int (length clients + length (giving bound)) \<le> 2 ^ 32) \<and>
     a = \<lparr>ia_clients = clients @ map fst (giving bound),
          ia_ranges = ranges @ range_list (length clients) (giving bound)\<rparr> \<and>
     outs = outputs @ map fst (filter (\<lambda>(_, _, _, output_count). output_count \<noteq> 0) bound)"
proof (induction bound seen clients ranges outputs rule: assign_ranges.induct)
  case 1
  show ?case by (auto simp: giving_def range_list_def)
next
  case (2 client slot inputs outs' bound seen clients ranges outputs)
  show ?case
    by (cases "client \<in> seen"; cases "inputs = 0"; cases "(2::int) ^ 32 \<le> int (length clients)")
      (use 2 in \<open>auto simp: giving_def range_list_def Let_def word_gt_0\<close>)
qed


section \<open>Accepted bindings\<close>

lemma map_of_schemas:
  "map_of (map (\<lambda>schema. (schema_client_slot schema, schema)) schemas) slot =
     find (\<lambda>schema. schema_client_slot schema = slot) schemas"
  by (induction schemas) auto

lemma schema_at_in:
  "slot \<in> set (slots_of manifest) \<Longrightarrow>
     schema_at manifest slot \<in> set (manifest_clients manifest) \<and> schema_client_slot (schema_at manifest slot) = slot"
  by (cases "find (\<lambda>schema. schema_client_slot schema = slot) (manifest_clients manifest)")
    (auto simp: schema_at_def find_None_iff dest: find_Some_set)

lemma schema_at_ok:
  "manifest_ok manifest \<Longrightarrow> slot \<in> set (slots_of manifest) \<Longrightarrow>
     vec_ok (schema_inputs (schema_at manifest slot)) \<and> vec_ok (schema_outputs (schema_at manifest slot))"
  using schema_at_in [of slot manifest] by (simp add: manifest_ok_def)

lemma of_nat_vec_eq_0: "vec_ok xs \<Longrightarrow> (of_nat (length xs) :: u64) = 0 \<longleftrightarrow> xs = []"
  by (auto simp: vec_ok_def word_unat_eq_iff unat_of_nat)

lemma bound_entries:
  assumes "manifest_ok manifest" and "fst ` set bindings \<subseteq> set (slots_of manifest)"
  defines "entry \<equiv> bound_entry (map (\<lambda>schema. (schema_client_slot schema, schema)) (manifest_clients manifest))"
  shows "giving (map entry bindings) = map entry (input_bindings manifest bindings)"
    and "filter (\<lambda>(_, _, _, output_count). output_count \<noteq> 0) (map entry bindings) =
      map entry (output_bindings manifest bindings)"
proof -
  have "vec_ok (schema_inputs (schema_at manifest (fst b)))" "vec_ok (schema_outputs (schema_at manifest (fst b)))"
    if "b \<in> set bindings" for b
    using that assms(1,2) schema_at_in [of "fst b" manifest] by (auto simp: manifest_ok_def)
  then show "giving (map entry bindings) = map entry (input_bindings manifest bindings)"
    "filter (\<lambda>(_, _, _, output_count). output_count \<noteq> 0) (map entry bindings) =
      map entry (output_bindings manifest bindings)"
    by (auto simp: giving_def filter_map comp_def input_bindings_def output_bindings_def entry_def bound_entry_def
        map_of_schemas schema_at_def [symmetric] of_nat_vec_eq_0 split_def intro!: arg_cong [of _ _ "map _"] filter_cong)
qed

lemma build_input_assignment_Ok:
  assumes "manifest_ok manifest"
  shows "build_input_assignment manifest bindings = Ok (a, outs) \<longleftrightarrow>
    distinct (slots_of manifest) \<and> distinct (map fst bindings) \<and> distinct (map snd bindings) \<and>
    set (map fst bindings) = set (slots_of manifest) \<and> length (input_bindings manifest bindings) \<le> 2 ^ 32 \<and>
    a = \<lparr>ia_clients = map snd (input_bindings manifest bindings),
         ia_ranges = map (\<lambda>(j, count). \<lparr>range_client_index = of_nat j, range_count = of_nat count\<rparr>)
           (enumerate 0 (input_counts manifest bindings))\<rparr> \<and>
    outs = map snd (output_bindings manifest bindings)"
proof -
  let ?m = "map (\<lambda>schema. (schema_client_slot schema, schema)) (manifest_clients manifest)"
  let ?in = "input_bindings manifest bindings"
  have unbound: "filter (\<lambda>(k, _). k \<notin> fst ` set bindings) ?m = [] \<longleftrightarrow> set (slots_of manifest) \<subseteq> fst ` set bindings"
    by (auto simp: filter_empty_conv)
  have fsts: "fst \<circ> bound_entry ?m = snd"
    by (simp add: fun_eq_iff bound_entry_def split_def)
  have ranges: "range_list 0 (map (bound_entry ?m) bs) =
      map (\<lambda>(j, count). \<lparr>range_client_index = of_nat j, range_count = of_nat count\<rparr>)
        (enumerate 0 (map (\<lambda>b. length (schema_inputs (schema_at manifest (fst b)))) bs))" for bs
    by (simp add: range_list_def enumerate_map_upt enumerate_eq_zip zip_map2 bound_entry_def map_of_schemas schema_at_def split_def comp_def)
  show ?thesis
  proof (cases "distinct (slots_of manifest) \<and> distinct (map fst bindings) \<and> fst ` set bindings = set (slots_of manifest)")
    case True
    then have sub: "fst ` set bindings \<subseteq> set (slots_of manifest)" by simp
    from True have "build_input_assignment manifest bindings = assign_ranges (map (bound_entry ?m) bindings) {} [] [] []"
      using index_schemas_Ok [of "manifest_clients manifest" "[]" ?m]
        bind_schemas_Ok [of bindings ?m "map (bound_entry ?m) bindings" "[]"] unbound
      by (simp add: build_input_assignment_def image_image)
    then show ?thesis
      using True assign_ranges_Ok [of "map (bound_entry ?m) bindings" "{}" "[]" "[]" "[]" a outs] fsts ranges [of ?in]
        bound_entries [OF assms sub]
      by (auto simp: input_counts_def)
  next
    case False
    have "build_input_assignment manifest bindings \<noteq> Ok (a, outs)"
    proof
      assume "build_input_assignment manifest bindings = Ok (a, outs)"
      then obtain bound where "index_schemas (manifest_clients manifest) [] = Ok ?m"
          "bind_schemas bindings ?m = Ok (bound, [])"
        by (auto simp: build_input_assignment_def and_then_Ok_iff index_schemas_Ok split: if_splits prod.splits)
      moreover from this(2) have "filter (\<lambda>(k, _). k \<notin> fst ` set bindings) ?m = []"
        by (simp add: bind_schemas_Ok)
      ultimately show False using False unbound by (simp add: index_schemas_Ok bind_schemas_Ok image_image) blast
    qed
    with False show ?thesis by auto
  qed
qed

lemma unat_eqD: "unat x = k \<Longrightarrow> x = of_nat k"
  by (drule sym) simp

lemma unat_of_nat_small: "k < 2 ^ LENGTH('a) \<Longrightarrow> unat (of_nat k :: 'a::len word) = k"
  by (simp add: unat_of_nat)

lemma range_list_iff:
  assumes "length counts \<le> 2 ^ 32" and "\<forall>count \<in> set counts. count < 2 ^ 64"
  shows "ranges = map (\<lambda>(j, count). \<lparr>range_client_index = of_nat j, range_count = of_nat count\<rparr>) (enumerate 0 counts) \<longleftrightarrow>
    map (unat \<circ> range_client_index) ranges = [0..<length counts] \<and> map (unat \<circ> range_count) ranges = counts"
    (is "ranges = ?spec \<longleftrightarrow> ?l = ?is \<and> ?r = counts")
proof
  assume eq: "ranges = ?spec"
  have "unat (of_nat j :: u32) = j" "unat (of_nat (counts ! j) :: u64) = counts ! j" if "j < length counts" for j
    using that assms nth_mem [of j counts] by (auto intro!: unat_of_nat_small)
  then show "?l = ?is \<and> ?r = counts"
    unfolding eq list_eq_iff_nth_eq by (simp add: nth_enumerate_eq)
next
  assume eqs: "?l = ?is \<and> ?r = counts"
  then have len: "length ranges = length counts" by (metis length_map)
  have "ranges ! j = ?spec ! j" if j: "j < length counts" for j
  proof -
    have "?l ! j = ?is ! j" "?r ! j = counts ! j" using eqs by simp_all
    then have "range_client_index (ranges ! j) = of_nat j" "range_count (ranges ! j) = of_nat (counts ! j)"
      using j len by (simp_all add: unat_eqD)
    then show ?thesis using j by (simp add: nth_enumerate_eq)
  qed
  with len show "ranges = ?spec" by (simp add: list_eq_iff_nth_eq)
qed

lemma assignment_eq_iff: "a = \<lparr>ia_clients = cs, ia_ranges = rs\<rparr> \<longleftrightarrow> ia_clients a = cs \<and> ia_ranges a = rs"
  by (cases a) simp

text \<open>
  C37. \<open>build_input_assignment\<close> accepts a manifest and its bindings exactly when no slot is listed or
  bound twice, no identity is bound twice, the bound slots are the slots of the manifest and at most
  \<open>2^32\<close> clients give inputs. The input clients are then those whose schema has inputs, in the order
  of the bindings; range \<open>j\<close> belongs to input client \<open>j\<close> and has as many inputs as its schema, without
  wrap-around; and the output clients are those whose schema has outputs.
\<close>

theorem build_input_assignment_iff:
  assumes "manifest_ok manifest"
  shows "build_input_assignment manifest bindings = Ok (a, outs) \<longleftrightarrow>
    distinct (slots_of manifest) \<and> distinct (map fst bindings) \<and> distinct (map snd bindings) \<and>
    set (map fst bindings) = set (slots_of manifest) \<and> length (input_bindings manifest bindings) \<le> 2 ^ 32 \<and>
    ia_clients a = map snd (input_bindings manifest bindings) \<and>
    map (unat \<circ> range_client_index) (ia_ranges a) = [0..<length (input_bindings manifest bindings)] \<and>
    map (unat \<circ> range_count) (ia_ranges a) = input_counts manifest bindings \<and>
    outs = map snd (output_bindings manifest bindings)"
proof -
  let ?counts = "input_counts manifest bindings"
  have counts: "length ?counts = length (input_bindings manifest bindings)" by (simp add: input_counts_def)
  have "length xs < 2 ^ 64" if "vec_ok xs" for xs :: "'a list" using that by (simp add: vec_ok_def)
  then have "\<forall>count \<in> set ?counts. count < 2 ^ 64" if "set (map fst bindings) = set (slots_of manifest)"
    using that assms schema_at_in [of _ manifest]
    by (fastforce simp: manifest_ok_def input_counts_def input_bindings_def)
  then show ?thesis
    unfolding build_input_assignment_Ok [OF assms] counts [symmetric]
    using range_list_iff [of ?counts "ia_ranges a"] assignment_eq_iff by metis
qed

definition demo_manifest :: "(nat, nat) ClientIoManifest" where
  "demo_manifest = \<lparr>manifest_mpc_backend = MpcHoneyBadger, manifest_clients =
     [\<lparr>schema_client_slot = 4, schema_inputs = [0, 0], schema_outputs = []\<rparr>,
      \<lparr>schema_client_slot = 7, schema_inputs = [0], schema_outputs = [0]\<rparr>]\<rparr>"

lemma demo_manifest_ok: "manifest_ok demo_manifest"
  by (simp add: manifest_ok_def demo_manifest_def vec_ok_def)

theorem build_input_assignment_iff_witness:
  "build_input_assignment demo_manifest [(7, [9]), (4, [8])] =
     Ok (\<lparr>ia_clients = [[9], [8]], ia_ranges = [\<lparr>range_client_index = 0, range_count = 1\<rparr>,
          \<lparr>range_client_index = 1, range_count = 2\<rparr>]\<rparr>, [[9]])"
  by (subst build_input_assignment_iff [OF demo_manifest_ok])
    (auto simp: demo_manifest_def input_counts_def input_bindings_def output_bindings_def schema_at_def upt_rec)

section \<open>The slots of the bound clients\<close>

lemma count_expanded:
  "length (filter (\<lambda>slot. Q (slot_client_index slot)) (expand_input_ranges ranges)) =
     (\<Sum>r \<leftarrow> ranges. if Q (range_client_index r) then unat (range_count r) else 0)"
  by (induction ranges) (auto simp: filter_map comp_def)

lemma sum_absent_snd:
  "c \<notin> snd ` set bs \<Longrightarrow> (\<Sum>b \<leftarrow> bs. if snd b = c then f (fst b) else 0) = (0 :: nat)"
  by (induction bs) auto

lemma sum_distinct_snd:
  "distinct (map snd bs) \<Longrightarrow> (slot, c) \<in> set bs \<Longrightarrow>
     (\<Sum>b \<leftarrow> bs. if snd b = c then f (fst b) else 0) = (f slot :: nat)"
proof (induction bs)
  case (Cons b bs)
  show ?case
  proof (cases "b = (slot, c)")
    case True
    with Cons.prems(1) show ?thesis by (simp add: sum_absent_snd)
  next
    case False
    with Cons.prems(2) have "(slot, c) \<in> set bs" by simp
    moreover from this Cons.prems(1) have "snd b \<noteq> c" by (metis distinct.simps(2) image_eqI list.map(2) list.set_map snd_conv)
    ultimately show ?thesis using Cons by simp
  qed
qed simp

lemma execution_new_slots:
  assumes "execution_new registration n = Ok d"
  shows "ex_input_assignments d = expand_input_ranges (ia_ranges (reg_input_assignment registration))"
    and "ex_output_clients d = reg_output_clients registration"
  using assms by (auto simp: execution_new_def Let_def split: if_splits option.splits)

text \<open>
  C38. An execution that is created with the assignment built from a manifest gives every bound
  client exactly as many input slots as its schema has inputs, and delivers outputs to exactly the
  bound clients whose schema has outputs.
\<close>

theorem bound_clients_own_their_slots:
  assumes "manifest_ok manifest"
    and "build_input_assignment manifest bindings = Ok (a, outs)"
    and "execution_new registration n = Ok d"
    and "reg_input_assignment registration = a" and "reg_output_clients registration = outs"
    and "(slot, client) \<in> set bindings"
  shows "length (filter (\<lambda>s. input_slot_client d s = Some client) (ex_input_assignments d)) =
      length (schema_inputs (schema_at manifest slot)) \<and>
    (client \<in> set (ex_output_clients d) \<longleftrightarrow> schema_outputs (schema_at manifest slot) \<noteq> [])"
proof -
  let ?in = "input_bindings manifest bindings"
  let ?n = "\<lambda>slot. length (schema_inputs (schema_at manifest slot))"
  from assms(2) have built: "distinct (map snd bindings)" "length ?in \<le> 2 ^ 32"
      "set (map fst bindings) = set (slots_of manifest)"
      "ia_clients a = map snd ?in" "outs = map snd (output_bindings manifest bindings)"
      "ia_ranges a = map (\<lambda>(j, count). \<lparr>range_client_index = of_nat j, range_count = of_nat count\<rparr>)
         (enumerate 0 (input_counts manifest bindings))"
    by (auto simp: build_input_assignment_Ok [OF assms(1)])
  have word: "unat (of_nat (?n (fst b)) :: u64) = ?n (fst b)" if "b \<in> set ?in" for b
  proof -
    have "fst b \<in> set (slots_of manifest)" using that built(3) by (auto simp: input_bindings_def)
    then have "?n (fst b) < 2 ^ 63" using schema_at_ok [OF assms(1)] vec_ok_def by blast
    then show ?thesis by (intro unat_of_nat_small) simp
  qed
  have owner: "vec_get (ia_clients a) (unat (of_nat j :: u32)) = Some client \<longleftrightarrow> snd (?in ! j) = client"
    if "j < length ?in" for j
    using that built(2) unat_of_nat_small [of j, where 'a = 32] by (simp add: built(4) vec_get_def)
  have "length (filter (\<lambda>s. input_slot_client d s = Some client) (ex_input_assignments d)) =
      (\<Sum>r \<leftarrow> ia_ranges a. if vec_get (ia_clients a) (unat (range_client_index r)) = Some client then unat (range_count r) else 0)"
    using count_expanded [of "\<lambda>i. vec_get (ia_clients a) (unat i) = Some client" "ia_ranges a"]
    by (simp add: execution_new_slots [OF assms(3)] input_slot_client_def execution_new_Ok(1) [OF assms(3)] assms(4))
  also have "\<dots> = (\<Sum>b \<leftarrow> ?in. if snd b = client then ?n (fst b) else 0)"
  proof (rule arg_cong [of _ _ sum_list], rule nth_equalityI, goal_cases)
    case 1
    show ?case by (simp add: built(6) input_counts_def)
  next
    case (2 j)
    then have j: "j < length ?in" by (simp add: built(6) input_counts_def)
    have "ia_ranges a ! j = \<lparr>range_client_index = of_nat j, range_count = of_nat (?n (fst (?in ! j)))\<rparr>"
      using j by (simp add: built(6) input_counts_def nth_enumerate_eq)
    moreover have "j < length (ia_ranges a)" using j by (simp add: built(6) input_counts_def)
    ultimately show ?case using j owner [OF j] word [OF nth_mem [OF j]] by simp
  qed
  also have "\<dots> = (\<Sum>b \<leftarrow> bindings. if snd b = client then ?n (fst b) else 0)"
    unfolding input_bindings_def by (rule sum_list_map_filter) auto
  also have "\<dots> = ?n slot" by (rule sum_distinct_snd [OF built(1) assms(6)])
  finally have "length (filter (\<lambda>s. input_slot_client d s = Some client) (ex_input_assignments d)) = ?n slot" .
  moreover have "client \<in> set outs \<longleftrightarrow> schema_outputs (schema_at manifest slot) \<noteq> []"
  proof -
    have "(slot, client) = b" if "b \<in> set bindings" "snd b = client" for b
      using inj_onD [of snd "set bindings" "(slot, client)" b] built(1) that assms(6) by (simp add: distinct_map)
    then have "client \<in> snd ` set (output_bindings manifest bindings) \<longleftrightarrow>
        (slot, client) \<in> set (output_bindings manifest bindings)"
      unfolding output_bindings_def image_iff set_filter by (metis (no_types, lifting) mem_Collect_eq snd_conv)
    then have "client \<in> set outs \<longleftrightarrow> (slot, client) \<in> set (output_bindings manifest bindings)"
      by (simp add: built(5))
    then show ?thesis using assms(6) by (simp add: output_bindings_def)
  qed
  ultimately show ?thesis by (simp add: execution_new_slots [OF assms(3)] assms(5))
qed


definition demo_bound_registration :: ExecutionRegistration where
  "demo_bound_registration = \<lparr>reg_execution_id = ExecutionId (1 # replicate 31 0), reg_program_hash = 1 # replicate 31 0,
     reg_n_inputs = 3, reg_output_clients = [[9]], reg_input_assignment =
       \<lparr>ia_clients = [[9], [8]], ia_ranges = [\<lparr>range_client_index = 0, range_count = 1\<rparr>,
          \<lparr>range_client_index = 1, range_count = 2\<rparr>]\<rparr>, reg_min_output_shares = 3\<rparr>"

lemma demo_bound_Ok: "case execution_new demo_bound_registration 4 of Ok _ \<Rightarrow> True | _ \<Rightarrow> False"
  by code_simp

theorem bound_clients_own_their_slots_witness:
  "\<exists>d. execution_new demo_bound_registration 4 = Ok d \<and>
     length (filter (\<lambda>s. input_slot_client d s = Some [8]) (ex_input_assignments d)) = 2 \<and> [8] \<notin> set (ex_output_clients d)"
proof -
  obtain d where d: "execution_new demo_bound_registration 4 = Ok d"
    using demo_bound_Ok by (cases "execution_new demo_bound_registration 4") auto
  have built: "build_input_assignment demo_manifest [(7, [9]), (4, [8])] =
      Ok (reg_input_assignment demo_bound_registration, reg_output_clients demo_bound_registration)"
    by (simp add: build_input_assignment_def demo_manifest_def demo_bound_registration_def)
  from bound_clients_own_their_slots [OF demo_manifest_ok built d, of 4 "[8]"] d show ?thesis
    by (simp add: schema_at_def demo_manifest_def)
qed

section \<open>The state of the started coordinator\<close>

lemma unwrap_Ok [simp]: "unwrap x = Ok y \<longleftrightarrow> x = Some y"
  by (simp add: unwrap_def split: option.split)

lemma expect_Ok [simp]: "expect r = Ok y \<longleftrightarrow> r = Ok y"
  by (simp add: expect_def split: result.split)

lemma guarded_Ok: "(if b then Panic else r) = Ok y \<longleftrightarrow> \<not> b \<and> r = Ok y"
  by simp

lemma traverse_length: "traverse f xs = Ok ys \<Longrightarrow> length ys = length xs"
  by (induction xs arbitrary: ys) (auto simp: and_then_Ok_iff)

lemma configure_one_off_Ok:
  assumes "configure_one_off host args output_client_keys one_off s0 = (Ok s1 :: ('c, _) result)"
  obtains registration backend where "register_execution registration s0 = (Ok (), s1)"
    and "reg_execution_id registration = oo_execution_id one_off" and "reg_program_hash registration = oo_hash one_off"
    and "reg_min_output_shares registration = min_output_shares backend (arg_t args)"
proof -
  from assms obtain io where io: "(case io of (backend, a, outs, n_inputs) \<Rightarrow>
      case register_execution \<lparr>reg_execution_id = oo_execution_id one_off, reg_program_hash = oo_hash one_off,
        reg_n_inputs = n_inputs, reg_output_clients = outs, reg_input_assignment = a,
        reg_min_output_shares = min_output_shares backend (arg_t args)\<rparr> s0 of (Ok _, s) \<Rightarrow> Ok s | _ \<Rightarrow> Panic) =
      (Ok s1 :: ('c, CoordinatorRPCServerSharedBase) result)"
    unfolding configure_one_off_def and_then_Ok_iff by blast
  obtain backend a outs n_inputs where "io = (backend, a, outs, n_inputs)" by (rule prod_cases4)
  with io show thesis
    by (intro that [of "\<lparr>reg_execution_id = oo_execution_id one_off, reg_program_hash = oo_hash one_off,
        reg_n_inputs = n_inputs, reg_output_clients = outs, reg_input_assignment = a,
        reg_min_output_shares = min_output_shares backend (arg_t args)\<rparr>" backend])
      (simp_all split: prod.splits result.splits)
qed

lemma run_coord_main_Ok:
  assumes "run_coord_main host args = (Ok (s, at, mode) :: ('e, _) result)"
  obtains keys browser output_client_keys s0 where "length keys = length (arg_initial_mpc_nodes args)"
    and "coordinator_new (arg_n args) (arg_t args) keys = Ok s0"
    and "arg_browser_addr args = None \<or> arg_one_off args = None"
    and "case arg_one_off args of None \<Rightarrow> s = s0 \<and> mode = RunStanding browser
      | Some one_off \<Rightarrow> mode = RunOneOff (oo_execution_id one_off) (arg_one_off_shutdown_grace_secs args) \<and>
          configure_one_off host args output_client_keys one_off s0 = (Ok s :: ('e, _) result)"
proof -
  obtain keys output_client_keys browser s0 at0 where
      keys: "parse_public_keys host (arg_initial_mpc_nodes args) = (Ok keys :: ('e, _) result)"
      and new: "coordinator_new (arg_n args) (arg_t args) keys = Ok s0"
      and guard: "\<not> (arg_browser_addr args \<noteq> None \<and> arg_one_off args \<noteq> None)"
      and rest: "(case arg_one_off args of None \<Rightarrow> Ok (s0, at0, RunStanding browser)
         | Some one_off \<Rightarrow> and_then (configure_one_off host args output_client_keys one_off s0) (\<lambda>s.
             Ok (s, at0, RunOneOff (oo_execution_id one_off) (arg_one_off_shutdown_grace_secs args)))) =
        (Ok (s, at, mode) :: ('e, _) result)"
  proof -
    show thesis
      using assms unfolding run_coord_main_def and_then_Ok_iff Let_def unwrap_Ok expect_Ok guarded_Ok
      by (elim exE conjE) (rule that; assumption)
  qed
  from keys have "length keys = length (arg_initial_mpc_nodes args)"
    unfolding parse_public_keys_def by (rule traverse_length)
  moreover note new
  moreover have "arg_browser_addr args = None \<or> arg_one_off args = None" using guard by blast
  moreover have "case arg_one_off args of None \<Rightarrow> s = s0 \<and> mode = RunStanding browser
      | Some one_off \<Rightarrow> mode = RunOneOff (oo_execution_id one_off) (arg_one_off_shutdown_grace_secs args) \<and>
          configure_one_off host args output_client_keys one_off s0 = (Ok s :: ('e, _) result)"
    using rest by (cases "arg_one_off args") (auto simp: and_then_Ok_iff)
  ultimately show thesis by (rule that)
qed

lemma register_first:
  assumes "register_execution registration s = (Ok (), s')" and "srv_executions s = []"
  shows "\<exists>d. execution_new registration (srv_n s) = Ok d \<and> s' = put_execution (reg_execution_id registration) d s"
  using assms
  by (auto simp: register_execution_def insert_execution_def DEFAULT_MAX_CONCURRENT_EXECUTIONS_def split: result.splits)

lemma min_output_shares_bounds:
  assumes "validate_topology n t nodes = Ok ()" and "vec_ok nodes"
  shows "unat t < unat (min_output_shares backend t) \<and> unat (min_output_shares backend t) \<le> unat n"
  using topology_facts [OF assms] by (cases backend) (simp_all add: min_output_shares_def)

text \<open>The state \<open>main\<close> hands to the listeners.\<close>

lemma run_coord_main_cases:
  assumes "run_coord_main host args = (Ok (s, at, mode) :: ('c, _) result)" and "vec_ok (arg_initial_mpc_nodes args)"
  obtains (standing) keys browser where "arg_one_off args = None" and "vec_ok keys"
      and "coordinator_new (arg_n args) (arg_t args) keys = Ok s" and "mode = RunStanding browser"
    | (one_off) keys s0 one_off registration backend d where "arg_one_off args = Some one_off" and "vec_ok keys"
      and "coordinator_new (arg_n args) (arg_t args) keys = Ok s0"
      and "mode = RunOneOff (oo_execution_id one_off) (arg_one_off_shutdown_grace_secs args)"
      and "reg_program_hash registration = oo_hash one_off"
      and "reg_min_output_shares registration = min_output_shares backend (arg_t args)"
      and "register_execution registration s0 = (Ok (), s)"
      and "execution_new registration (arg_n args) = Ok d" and "s = put_execution (oo_execution_id one_off) d s0"
proof -
  from assms(1) obtain keys browser outs s0 where keys: "length keys = length (arg_initial_mpc_nodes args)"
      and new: "coordinator_new (arg_n args) (arg_t args) keys = Ok s0"
      and mode: "case arg_one_off args of None \<Rightarrow> s = s0 \<and> mode = RunStanding browser
        | Some one_off \<Rightarrow> mode = RunOneOff (oo_execution_id one_off) (arg_one_off_shutdown_grace_secs args) \<and>
          configure_one_off host args outs one_off s0 = (Ok s :: ('c, _) result)"
    by (rule run_coord_main_Ok)
  have vec: "vec_ok keys" using keys assms(2) by (simp add: vec_ok_def)
  have s0: "srv_executions s0 = []" "srv_n s0 = arg_n args" using new by (auto simp: coordinator_new_def and_then_Ok_iff)
  show thesis
  proof (cases "arg_one_off args")
    case None
    with mode new standing [OF None vec] show thesis by simp
  next
    case (Some oo)
    with mode have "configure_one_off host args outs oo s0 = (Ok s :: ('c, _) result)" by simp
    then obtain registration backend where reg: "register_execution registration s0 = (Ok (), s)"
        "reg_execution_id registration = oo_execution_id oo" "reg_program_hash registration = oo_hash oo"
        "reg_min_output_shares registration = min_output_shares backend (arg_t args)"
      by (rule configure_one_off_Ok)
    with register_first [OF reg(1) s0(1)] one_off [OF Some vec new] mode Some s0(2) show thesis by auto
  qed
qed

lemma coordinator_new_facts:
  assumes "coordinator_new n t nodes = Ok s" and "vec_ok nodes"
  shows "coord_reachable s" "validate_topology n t nodes = Ok ()" "2 * unat t + 1 \<le> unat n" "srv_n s = n" "srv_t s = t"
    "srv_executions s = []" "\<not> srv_shutdown_notify s" "\<not> srv_shutdown_fired s"
proof -
  show "coord_reachable s" using assms by (intro reachable_init) (auto simp: coord_init_def)
  show top: "validate_topology n t nodes = Ok ()" using assms(1) by (auto simp: coordinator_new_def and_then_Ok_iff)
  show "2 * unat t + 1 \<le> unat n" by (rule topology_facts(4) [OF top assms(2)])
qed (use assms(1) in \<open>auto simp: coordinator_new_def and_then_Ok_iff\<close>)

lemma main_start:
  assumes "run_coord_main host args = (Ok (s, at, mode) :: ('c, _) result)" and "vec_ok (arg_initial_mpc_nodes args)"
  shows "coord_reachable s" "srv_t s = arg_t args" "2 * unat (arg_t args) + 1 \<le> unat (arg_n args)" "\<not> srv_shutdown_fired s"
    "case arg_one_off args of
       None \<Rightarrow> srv_executions s = [] \<and> (\<exists>browser. mode = RunStanding browser)
     | Some one_off \<Rightarrow> mode = RunOneOff (oo_execution_id one_off) (arg_one_off_shutdown_grace_secs args) \<and>
         (\<exists>registration d backend. srv_executions s = [(oo_execution_id one_off, d)] \<and>
            execution_new registration (arg_n args) = Ok d \<and> reg_program_hash registration = oo_hash one_off \<and>
            reg_min_output_shares registration = min_output_shares backend (arg_t args) \<and>
            unat (arg_t args) < unat (min_output_shares backend (arg_t args)) \<and>
            unat (min_output_shares backend (arg_t args)) \<le> unat (arg_n args))" (is ?mode)
proof -
  have "coord_reachable s \<and> srv_t s = arg_t args \<and> 2 * unat (arg_t args) + 1 \<le> unat (arg_n args) \<and> \<not> srv_shutdown_fired s \<and> ?mode"
    using assms
  proof (cases rule: run_coord_main_cases)
    case (standing keys browser)
    then show ?thesis using coordinator_new_facts [OF standing(3,2)] by simp
  next
    case (one_off keys s0 oo registration backend d)
    note new = coordinator_new_facts [OF one_off(3,2)]
    have "coord_reachable s" using reachable_step [OF new(1) step_register] one_off(7) by (metis snd_conv)
    moreover have "srv_executions s = [(oo_execution_id oo, d)]" "srv_t s = arg_t args" "\<not> srv_shutdown_fired s"
      using one_off(9) new(5,6,8) by (simp_all add: put_execution_def)
    moreover have ?mode
      using one_off(1,4,5,6,8) calculation(2) min_output_shares_bounds [OF new(2) one_off(2)] by auto
    ultimately show ?thesis using new(3) by simp
  qed
  then show "coord_reachable s" "srv_t s = arg_t args" "2 * unat (arg_t args) + 1 \<le> unat (arg_n args)" "\<not> srv_shutdown_fired s" ?mode
    by simp_all
qed

text \<open>
  C36. When \<open>main\<close> reaches the listener, the coordinator is in a state that the step relation reaches,
  so that every property of reachable coordinators holds of the running program, its threshold is
  below half of the parties and no shutdown has been requested. A standing coordinator starts with
  no execution. A one-off coordinator starts with exactly the execution of its arguments, in \<open>Idle\<close>,
  and asks for more than \<open>t\<close> and at most \<open>n\<close> output shares.
\<close>

theorem run_coord_main_starts:
  assumes "run_coord_main host args = (Ok (s, at, mode) :: ('c, _) result)" and "vec_ok (arg_initial_mpc_nodes args)"
  shows "coord_reachable s \<and> 2 * unat (arg_t args) + 1 \<le> unat (arg_n args) \<and> \<not> srv_shutdown_fired s \<and>
    (case arg_one_off args of
       None \<Rightarrow> srv_executions s = []
     | Some one_off \<Rightarrow>
         (\<exists>d. srv_executions s = [(oo_execution_id one_off, d)] \<and> ex_round d = Idle \<and>
            reg_program_hash (ex_registration d) = oo_hash one_off \<and>
            unat (arg_t args) < unat (reg_min_output_shares (ex_registration d)) \<and>
            unat (reg_min_output_shares (ex_registration d)) \<le> unat (arg_n args)))"
proof (cases "arg_one_off args")
  case None
  with main_start [OF assms] show ?thesis by simp
next
  case (Some one_off)
  with main_start(5) [OF assms] obtain registration d backend where d: "srv_executions s = [(oo_execution_id one_off, d)]"
      "execution_new registration (arg_n args) = Ok d" "reg_program_hash registration = oo_hash one_off"
      "reg_min_output_shares registration = min_output_shares backend (arg_t args)"
      "unat (arg_t args) < unat (min_output_shares backend (arg_t args))"
      "unat (min_output_shares backend (arg_t args)) \<le> unat (arg_n args)"
    by auto
  with Some execution_new_Ok(1,3) [OF d(2)] main_start(1,3,4) [OF assms] show ?thesis by simp
qed

definition demo_host :: "(nat, nat) host" where
  "demo_host = \<lparr>host_read = (\<lambda>f. Some (map of_char f)), host_public_key = Some, host_load_program = (\<lambda>_. Some demo_manifest)\<rparr>"

definition demo_args :: Args where
  "demo_args = \<lparr>arg_one_off = Some \<lparr>oo_hash = 1 # replicate 31 0, oo_execution_id = ExecutionId (7 # replicate 31 0)\<rparr>, arg_one_off_shutdown_grace_secs = 5,
     arg_initial_mpc_nodes = [''a'', ''b'', ''c'', ''d''], arg_server_cert = ''s'', arg_server_key = ''k'',
     arg_n = 4, arg_t = 1, arg_n_inputs = None, arg_output_clients = [], arg_program = Some ''p'',
     arg_client_bindings = [''7=x'', ''4=y''], arg_addr = ''h'', arg_port = 1, arg_backend = HoneyBadger,
     arg_browser_addr = None, arg_browser_port = 2, arg_browser_tls_cert_chain = None, arg_browser_tls_key = None,
     arg_webauthn_rp_id = None, arg_client_cert_dir = None, arg_client_credential_id_dir = None\<rparr>"

lemma demo_main_Ok:
  "(case (run_coord_main demo_host demo_args :: (unit, _) result) of Ok _ \<Rightarrow> True | _ \<Rightarrow> False)"
  by code_simp

theorem run_coord_main_starts_witness:
  "\<exists>s at mode d. run_coord_main demo_host demo_args = (Ok (s, at, mode) :: (unit, _) result) \<and> coord_reachable s \<and>
     srv_executions s = [(ExecutionId (7 # replicate 31 0), d)] \<and> ex_round d = Idle"
proof -
  obtain s at mode where main: "run_coord_main demo_host demo_args = (Ok (s, at, mode) :: (unit, _) result)"
    using demo_main_Ok by (cases "run_coord_main demo_host demo_args :: (unit, _) result") auto
  have "vec_ok (arg_initial_mpc_nodes demo_args)" by (simp add: demo_args_def vec_ok_def)
  from run_coord_main_starts [OF main this] main show ?thesis by (auto simp: demo_args_def)
qed


text \<open>A one-off coordinator with the zero program hash, as in the examples of the README, does not start.\<close>

lemma zero_hash_one_off_panics:
  assumes "arg_one_off args = Some one_off" and "oo_hash one_off = replicate 32 0"
  shows "run_coord_main host args \<noteq> (Ok (s, at, mode) :: ('c, _) result)"
proof
  assume "run_coord_main host args = (Ok (s, at, mode) :: ('c, _) result)"
  then obtain keys browser outs s0 where new: "coordinator_new (arg_n args) (arg_t args) keys = Ok s0"
      and mode: "case arg_one_off args of None \<Rightarrow> s = s0 \<and> mode = RunStanding browser
        | Some one_off \<Rightarrow> mode = RunOneOff (oo_execution_id one_off) (arg_one_off_shutdown_grace_secs args) \<and>
          configure_one_off host args outs one_off s0 = (Ok s :: ('c, _) result)"
    by (rule run_coord_main_Ok)
  from mode assms(1) have "configure_one_off host args outs one_off s0 = (Ok s :: ('c, _) result)" by simp
  then obtain registration backend where reg: "register_execution registration s0 = (Ok (), s)"
      "reg_execution_id registration = oo_execution_id one_off" "reg_program_hash registration = oo_hash one_off"
      "reg_min_output_shares registration = min_output_shares backend (arg_t args)"
    by (rule configure_one_off_Ok)
  have "srv_executions s0 = []" using new by (auto simp: coordinator_new_def and_then_Ok_iff)
  from register_first [OF reg(1) this] obtain d where "execution_new registration (srv_n s0) = Ok d" by blast
  with reg(3) assms(2) show False by (auto simp: execution_new_def Let_def split: if_splits)
qed

section \<open>The argument of a one-off coordinator\<close>

lemma split_once_append: "c \<notin> set xs \<Longrightarrow> split_once c (xs @ c # ys) = Some (xs, ys)"
  by (induction xs) (auto simp: split_once_def split: if_splits)

text \<open>
  C39. Writing a program hash and an execution identifier as \<open><hash>,<execution-id>\<close> and parsing the text
  gives them back, and whatever \<open>parse_one_off\<close> accepts is a hash and an identifier of 32 bytes each,
  the identifier not zero.
\<close>

theorem parse_one_off_roundtrip:
  assumes "hex_codec hex_encode hex_decode"
  shows "(length hash = 32 \<and> eid_wf e \<and> \<not> is_zero e \<longrightarrow>
      parse_one_off hex_decode (hex_encode hash @ '','' @ eid_to_string hex_encode e) =
        Ok \<lparr>oo_hash = hash, oo_execution_id = e\<rparr>) \<and>
    (parse_one_off hex_decode value = Ok one_off \<longrightarrow>
      length (oo_hash one_off) = 32 \<and> eid_wf (oo_execution_id one_off) \<and> \<not> is_zero (oo_execution_id one_off))"
proof (intro conjI impI)
  have codec: "length (hex_encode bs) = 2 * length bs" "hex_decode (hex_encode bs) = Some bs"
      "set (hex_encode bs) \<subseteq> set ''0123456789abcdef''" for bs
    using assms by (simp_all add: hex_codec_def)
  assume wf: "length hash = 32 \<and> eid_wf e \<and> \<not> is_zero e"
  have "CHR '','' \<notin> set (hex_encode hash)" using codec(3) [of hash] by auto
  then have "split_once CHR '','' (hex_encode hash @ '','' @ eid_to_string hex_encode e) =
      Some (hex_encode hash, eid_to_string hex_encode e)"
    by (simp add: split_once_append)
  with wf show "parse_one_off hex_decode (hex_encode hash @ '','' @ eid_to_string hex_encode e) =
      Ok \<lparr>oo_hash = hash, oo_execution_id = e\<rparr>"
    by (simp add: parse_one_off_def parse_nonzero_execution_id_def eid_from_str_def eid_to_string_def codec eid_wf_def)
next
  assume ok: "parse_one_off hex_decode value = Ok one_off"
  then show "length (oo_hash one_off) = 32" "eid_wf (oo_execution_id one_off)" "\<not> is_zero (oo_execution_id one_off)"
    by (auto simp: parse_one_off_def parse_nonzero_execution_id_def eid_from_str_def and_then_Ok_iff eid_wf_def
        split: option.splits prod.splits if_splits)
qed

theorem parse_one_off_roundtrip_witness:
  "parse_one_off hex_dec_ref (hex_enc_ref (replicate 32 1) @ '','' @ eid_to_string hex_enc_ref (ExecutionId (replicate 32 255))) =
     Ok \<lparr>oo_hash = replicate 32 1, oo_execution_id = ExecutionId (replicate 32 255)\<rparr>"
proof -
  have "\<not> is_zero (ExecutionId (replicate 32 255))" by code_simp
  with parse_one_off_roundtrip [OF hex_codec_ref] show ?thesis by (simp add: eid_wf_def)
qed

end
