(* ===== verification/Browser_Properties.thy ===== *)
theory Browser_Properties
  imports Browser_Rpc Coord_Delivery Node_Properties
begin

text \<open>
  What the browser listeners guarantee: every method is a run of its sections; a request is not
  accepted twice; a session exists only for an identity whose credential has signed an assertion
  over the keys of the session; a bound session is the one that is authenticated; and the views a
  browser polls agree with the execution.
\<close>

section \<open>Methods are runs of sections\<close>

lemma with_execution_bindings [simp]:
  "srv_webauthn_bindings (fst (snd (with_execution e s f))) = srv_webauthn_bindings s"
  by (simp add: with_execution_def put_execution_def split_beta split: option.split)

lemma reserve_bindings: "srv_webauthn_bindings (fst (snd (reserve_mask_indices ok caller e indices s))) = srv_webauthn_bindings s"
  by (simp add: reserve_mask_indices_def)

lemma submit_bindings:
  "srv_webauthn_bindings (fst (snd (submit_masked_inputs ok caller e inputs indices s))) = srv_webauthn_bindings s"
proof (cases "srv_mpc_nodes s")
  case (Cons h rest)
  let ?f = "\<lambda>d. let (r, d') = submit_record caller inputs indices d in (r, d', [])"
  obtain r s1 ds where w: "with_execution e s ?f = (r, s1, ds)"
    by (cases "with_execution e s ?f") auto
  then have s1: "srv_webauthn_bindings s1 = srv_webauthn_bindings s"
    using with_execution_bindings [of e s ?f] by simp
  have "srv_webauthn_bindings s2 = srv_webauthn_bindings s1"
    if "with_execution e s1 (submit_finish ok (transition_quorum s) h p) = (r2, s2, ds2)" for p r2 s2 ds2
    using that with_execution_bindings [of e s1 "submit_finish ok (transition_quorum s) h p"] by simp
  with s1 w Cons show ?thesis
    by (auto simp: submit_masked_inputs_def split: result.splits prod.splits)
qed (simp add: submit_masked_inputs_def)

lemma native_run:
  "reachable ((=) s) coord_step s" "reachable ((=) s) coord_step (fst (snd (reserve_mask_indices ok caller e indices s)))"
  "reachable ((=) s) coord_step (fst (snd (submit_masked_inputs ok caller e inputs indices s)))"
  by (auto intro: reachable_init reserve_reachable submit_reachable)

lemma authenticated_run:
  assumes "\<And>call identity nonces. timed_run (browser_step c) now (st\<lparr>cb_nonces := nonces\<rparr>) now
      (fst (snd (continue call identity (st\<lparr>cb_nonces := nonces\<rparr>))))"
  shows "timed_run (browser_step c) now st now (fst (snd (authenticated c now rpc_method params st continue)))"
proof (cases params)
  case (Some call)
  obtain r nonces where a: "authenticate c now rpc_method call (cb_nonces st)
      (srv_webauthn_bindings (cb_coordinator st)) = (r, nonces)" by (cases "authenticate c now rpc_method call (cb_nonces st)
      (srv_webauthn_bindings (cb_coordinator st))")
  have "browser_step c now st (st\<lparr>cb_nonces := nonces\<rparr>)"
    using bstep_authenticate [of c now st rpc_method call] a by simp
  then have s: "timed_run (browser_step c) now st now (st\<lparr>cb_nonces := nonces\<rparr>)" by (rule run_one)
  with run_trans [OF assms s] show ?thesis
    by (simp add: authenticated_def Some a split: result.split)
qed (simp add: authenticated_def run_refl)

lemma methods_are_runs:
  "timed_run (browser_step c) now st now (fst (snd (status_method c now params st)))"
  "timed_run (browser_step c) now st now (fst (snd (output_shares_method c now params st)))"
  "timed_run (browser_step c) now st now (fst (snd (reserve_method c sj ok now params st)))"
  "timed_run (browser_step c) now st now (fst (snd (submit_method c sj ok now params st)))"
proof -
  have n: "browser_step c now st (st\<lparr>cb_coordinator := fst (snd (reserve_mask_indices ok caller e indices (cb_coordinator st)))\<rparr>)"
    "browser_step c now st (st\<lparr>cb_coordinator := fst (snd (submit_masked_inputs ok caller e inputs indices (cb_coordinator st)))\<rparr>)"
    for st caller e indices inputs
    by (auto intro!: bstep_native native_run simp: reserve_bindings submit_bindings)
  have n': "browser_step c now (st\<lparr>cb_nonces := nonces\<rparr>) (st\<lparr>cb_nonces := nonces,
      cb_coordinator := fst (snd (reserve_mask_indices ok caller e indices (cb_coordinator st)))\<rparr>)"
    for nonces caller e indices
    using n(1) [of "st\<lparr>cb_nonces := nonces\<rparr>"] by simp
  show "timed_run (browser_step c) now st now (fst (snd (status_method c now params st)))"
    "timed_run (browser_step c) now st now (fst (snd (output_shares_method c now params st)))"
    unfolding status_method_def output_shares_method_def by (auto intro!: authenticated_run run_refl)
  show "timed_run (browser_step c) now st now (fst (snd (reserve_method c sj ok now params st)))"
    unfolding reserve_method_def
    by (rule authenticated_run)
      (auto intro!: run_refl run_one n' split: result.split simp: split_beta)
  show "timed_run (browser_step c) now st now (fst (snd (submit_method c sj ok now params st)))"
    unfolding submit_method_def
  proof (rule authenticated_run)
    fix call identity nonces
    let ?st = "st\<lparr>cb_nonces := nonces\<rparr>"
    show "timed_run (browser_step c) now ?st now (fst (snd (case parse_body (parse_batch sj) (sbr_body (bc_request call)) of
         Ok batch \<Rightarrow>
           (case submit_masked_inputs ok identity (bc_execution_id call) (mib_masked_inputs batch)
               (mib_reserved_indices batch) (cb_coordinator ?st) of
              (Ok _, s, ds) \<Rightarrow>
                (Ok (),
                 ?st\<lparr>cb_coordinator := s\<lparr>srv_webauthn_bindings :=
                   pin_binding_from_token (srv_webauthn_bindings s) (bc_execution_id call)
                     (sbr_session_token (bc_request call))\<rparr>\<rparr>,
                 ds)
            | (Err err, s, ds) \<Rightarrow> (Err err, ?st\<lparr>cb_coordinator := s\<rparr>, ds)
            | (Panic, s, ds) \<Rightarrow> (Panic, ?st\<lparr>cb_coordinator := s\<rparr>, ds))
       | Err err \<Rightarrow> (Err err, ?st, [])
       | Panic \<Rightarrow> (Panic, ?st, []))))" (is "timed_run _ _ _ _ (fst (snd ?R))")
    proof (cases "parse_body (parse_batch sj) (sbr_body (bc_request call))")
      case (Ok batch)
      obtain r s ds where w: "submit_masked_inputs ok identity (bc_execution_id call) (mib_masked_inputs batch)
               (mib_reserved_indices batch) (cb_coordinator ?st) = (r, s, ds)" by (metis prod_cases3)
      have one: "timed_run (browser_step c) now ?st now (?st\<lparr>cb_coordinator := s\<rparr>)"
        using n(2) [of ?st identity "bc_execution_id call" "mib_masked_inputs batch" "mib_reserved_indices batch"] w
        by (auto intro: run_one)
      have "timed_run (browser_step c) now ?st now (?st\<lparr>cb_coordinator := s\<lparr>srv_webauthn_bindings :=
          pin_binding_from_token (srv_webauthn_bindings s) (bc_execution_id call) (sbr_session_token (bc_request call))\<rparr>\<rparr>)"
        using run_trans [OF run_one [of "browser_step c", OF bstep_pin [of c now "?st\<lparr>cb_coordinator := s\<rparr>"]] one] by simp
      with one w Ok show ?thesis by (simp split: result.split)
    qed (simp_all add: run_refl)
  qed
qed

lemma bind_match_Some:
  assumes "bind_match c perm st call d = Some (client_identity, sign_count)" and "\<And>xs. set (perm xs) \<subseteq> set xs"
  shows "client_identity \<in> set (bind_candidates d)"
    and "verify_webauthn_assertion c (bwi_assertion call) client_identity (cb_rp_id_hash st) (cb_origin st)
      (webauthn_bind_challenge c (bwi_ecdsa_public_key call) (bwi_ecdh_public_key call)) = Some sign_count"
proof -
  let ?attempt = "\<lambda>candidate. map_option (Pair candidate)
    (verify_webauthn_assertion c (bwi_assertion call) candidate (cb_rp_id_hash st) (cb_origin st)
      (webauthn_bind_challenge c (bwi_ecdsa_public_key call) (bwi_ecdh_public_key call)))"
  have scan: "fst y \<in> set xs \<and> ?attempt (fst y) = Some y" if "find_map ?attempt xs = Some y" for xs y
    using that by (induction xs) (auto split: option.splits)
  have "client_identity \<in> set (bind_candidates d) \<and> ?attempt client_identity = Some (client_identity, sign_count)"
    using assms scan [of "perm (bind_candidates d)" "(client_identity, sign_count)"]
    by (auto simp: bind_match_def Let_def split: if_splits option.splits)
  then show "client_identity \<in> set (bind_candidates d)"
    "verify_webauthn_assertion c (bwi_assertion call) client_identity (cb_rp_id_hash st) (cb_origin st)
      (webauthn_bind_challenge c (bwi_ecdsa_public_key call) (bwi_ecdh_public_key call)) = Some sign_count"
    by auto
qed

lemma bind_check_Ok:
  "bind_check c perm st call = Ok (client_identity, sign_count) \<longleftrightarrow>
   (\<exists>d. map_of (srv_executions (cb_coordinator st)) (bwi_execution_id call) = Some d \<and>
      bind_match c perm st call d = Some (client_identity, sign_count) \<and>
      any_at (\<lambda>input. input \<noteq> None) (ex_masked_inputs d) (client_slots d client_identity) = (Ok False :: bool rpc_result))"
  by (auto simp: bind_check_def and_then_Ok_iff split: option.splits if_splits)

lemma bind_is_run:
  assumes "bind_method c perm draws params st = Some (r, st')" and "\<And>xs. set (perm xs) \<subseteq> set xs"
  shows "timed_run (browser_step c) now st now st'"
proof (cases "\<exists>call i n. params = Some call \<and> bind_check c perm st call = Ok (i, n)")
  case True
  then obtain call i n where p: "params = Some call" and k: "bind_check c perm st call = Ok (i, n)" by blast
  then obtain d where "bind_match c perm st call d = Some (i, n)" by (auto simp: bind_check_Ok)
  from bind_match_Some(2) [OF this assms(2)] have "browser_step c now st st'"
    by (rule bstep_bind) (use assms(1) in \<open>simp add: bind_method_def p k\<close>)
  then show ?thesis by (rule run_one)
next
  case False
  with assms(1) have "st' = st"
    by (auto simp: bind_method_def split: option.splits result.splits)
  then show ?thesis by (simp add: run_refl)
qed

section \<open>An example session\<close>

text \<open>
  The coordinator of the example run, waiting for reservations, with a browser session of the
  client \<open>[20]\<close>: signing key \<open>[7]\<close>, encryption key \<open>[8]\<close>, token \<open>[1]\<close>.
\<close>

definition demo_files :: "unit file_system" where
  "demo_files = \<lparr>read_dir = (\<lambda>_. Err NotFound), read_file = (\<lambda>_. Err NotFound), path_extension = (\<lambda>_. None),
     path_stem = (\<lambda>_. None), path_join = (\<lambda>_ _. ())\<rparr>"

definition demo_listener :: CoordinatorBrowserState where
  "demo_listener = coordinator_browser_methods demo_crypto demo_files demo_reserving ''vote'' None"

definition demo_bind :: BindWebauthnIdentity where
  "demo_bind = \<lparr>bwi_execution_id = demo_id,
     bwi_assertion = \<lparr>authenticator_data = sha256 demo_crypto (str_bytes ''vote'') @ [5, 0, 0, 0, 1],
       client_data_json = webauthn_bind_challenge demo_crypto [7] [8], assertion_signature = [20]\<rparr>,
     bwi_ecdsa_public_key = [7], bwi_ecdh_public_key = [8], bwi_credential_id = []\<rparr>"

definition demo_session :: CoordinatorBrowserState where
  "demo_session = snd (the (bind_method demo_crypto id [[1]] (Some demo_bind) demo_listener))"

definition demo_call :: BrowserCall where
  "demo_call = \<lparr>bc_execution_id = demo_id, bc_request =
     \<lparr>sbr_public_key = [7], sbr_created = 1000, sbr_nonce = replicate 16 3, sbr_signature = [7],
      sbr_body = [], sbr_session_token = [CHR 0x01]\<rparr>\<rparr>"

lemma demo_bound:
  "map_option fst (bind_method demo_crypto id [[1]] (Some demo_bind) demo_listener) =
     Some (Ok \<lparr>wbr_session_token = [CHR 0x01], wbr_client_identity = [20]\<rparr>)"
  by code_simp

lemma demo_authenticated:
  "fst (authenticate demo_crypto 1010 ''browser_round'' demo_call (cb_nonces demo_session)
     (srv_webauthn_bindings (cb_coordinator demo_session))) = Ok [20]"
  by code_simp

section \<open>Sessions\<close>

lemma bind_commit_cases:
  assumes "bind_commit c draws call client_identity sign_count st = Some (r, st')"
  obtains (refused) e where "r = Err e" "st' = st"
  | (bound) sign_counts session_token bindings where
      "r = Ok \<lparr>wbr_session_token = session_token, wbr_client_identity = client_identity\<rparr>"
      "bindings_insert (b64_encode c) draws (Some (bwi_execution_id call))
         \<lparr>wb_client_identity = client_identity, wb_ecdsa_public_key = bwi_ecdsa_public_key call,
          wb_ecdh_public_key = bwi_ecdh_public_key call\<rparr>
         (srv_webauthn_bindings (cb_coordinator st)) = Some (session_token, bindings)"
      "st' = st\<lparr>cb_sign_counts := sign_counts,
                cb_coordinator := (cb_coordinator st)\<lparr>srv_webauthn_bindings := bindings\<rparr>\<rparr>"
proof -
  obtain r0 m where a: "sign_count_accept (cb_sign_counts st) client_identity sign_count = (r0, m)"
    by (cases "sign_count_accept (cb_sign_counts st) client_identity sign_count")
  show thesis
  proof (cases r0)
    case (Ok u)
    with a assms obtain token w where ins: "bindings_insert (b64_encode c) draws (Some (bwi_execution_id call))
         \<lparr>wb_client_identity = client_identity, wb_ecdsa_public_key = bwi_ecdsa_public_key call,
          wb_ecdh_public_key = bwi_ecdh_public_key call\<rparr>
         (srv_webauthn_bindings (cb_coordinator st)) = Some (token, w)"
      by (auto simp: bind_commit_def split: option.splits)
    from assms show thesis by (intro bound [OF _ ins, of m]) (simp_all add: bind_commit_def a Ok ins)
  next
    case (Err e)
    with a have "m = cb_sign_counts st" by (auto simp: sign_count_accept_def Let_def split: if_splits)
    with assms show thesis by (intro refused [of e]) (simp_all add: bind_commit_def a Err)
  next
    case Panic
    with a show thesis by (auto simp: sign_count_accept_def Let_def split: if_splits)
  qed
qed

interpretation coordinator_sessions: session_host cb_nonces "browser_step c"
proof
  fix now st st'
  assume "browser_step c now st st'"
  then show "cb_nonces st' = cb_nonces st \<or>
    (\<exists>e i cr n. cb_nonces st' = snd (nonce_accept (cb_nonces st) e i cr n now))"
  proof cases
    case (bstep_authenticate rpc_method call)
    then show ?thesis
      using authenticate_nonces [of c now rpc_method call "cb_nonces st" "srv_webauthn_bindings (cb_coordinator st)"]
      by auto
  next
    case (bstep_bind call i n draws r)
    from bstep_bind(2) show ?thesis by (cases rule: bind_commit_cases) auto
  qed auto
qed

interpretation node_sessions: session_host nb_nonces "node_browser_step c"
proof
  fix now st st'
  assume "node_browser_step c now st st'"
  then show "nb_nonces st' = nb_nonces st \<or>
    (\<exists>e i cr n. nb_nonces st' = snd (nonce_accept (nb_nonces st) e i cr n now))"
  proof cases
    case (nbstep_shares sj params)
    show ?thesis
    proof (cases params)
      case (Some call)
      have "nb_nonces st' = snd (authenticate c now ''browser_assigned_mask_shares'' call (nb_nonces st) (nb_bindings st))"
        unfolding nbstep_shares Some
        by (simp add: assigned_mask_shares_method_def split: prod.split result.split)
      then show ?thesis
        using authenticate_nonces [of c now "''browser_assigned_mask_shares''" call "nb_nonces st" "nb_bindings st"] by auto
    qed (simp add: nbstep_shares assigned_mask_shares_method_def)
  next
    case (nbstep_bind draws params r)
    then show ?thesis
      by (auto simp: node_bind_method_def split: option.splits prod.splits result.splits)
  qed auto
qed



text \<open>The same on a node.\<close>

lemma node_request_not_replayed:
  assumes "authenticate c now rpc_method call (nb_nonces st) (nb_bindings st) = (Ok identity, nonces)"
    and "timed_run (node_browser_step c) now (st\<lparr>nb_nonces := nonces\<rparr>) later st'"
    and "bc_execution_id call' = bc_execution_id call"
    and "sbr_created (bc_request call') = sbr_created (bc_request call)"
    and "sbr_nonce (bc_request call') = sbr_nonce (bc_request call)"
  shows "fst (authenticate c later rpc_method' call' (nb_nonces st') (nb_bindings st')) \<noteq> Ok identity"
  by (rule node_sessions.replay_refused [OF assms(1) _ assms(2-5)]) simp

definition browser_init :: "('vk, 'sig) crypto \<Rightarrow> 'p file_system \<Rightarrow> CoordinatorBrowserState \<Rightarrow> bool" where
  "browser_init c fs st \<longleftrightarrow>
     (\<exists>s rp_id dirs. coord_reachable s \<and> srv_webauthn_bindings s = webauthn_bindings_default \<and>
        st = coordinator_browser_methods c fs s rp_id dirs)"

text \<open>Every live session was created by an assertion over its own keys.\<close>

definition sessions_inv :: "('vk, 'sig) crypto \<Rightarrow> bytes \<Rightarrow> string \<Rightarrow> CoordinatorBrowserState \<Rightarrow> bool" where
  "sessions_inv c rp_id_hash origin st \<longleftrightarrow>
     cb_rp_id_hash st = rp_id_hash \<and> cb_origin st = origin \<and>
     (\<forall>token b. by_token (srv_webauthn_bindings (cb_coordinator st)) token = Some b \<longrightarrow>
        (\<exists>assertion sign_count. verify_webauthn_assertion c assertion (wb_client_identity b) rp_id_hash origin
           (webauthn_bind_challenge c (wb_ecdsa_public_key b) (wb_ecdh_public_key b)) = Some sign_count))"

lemma pin_by_token [simp]: "by_token (pin_binding_from_token w e token) = by_token w"
  by (simp add: pin_binding_from_token_def split: option.split)

lemma sessions_inv_step:
  assumes "browser_step c now st st'" and "sessions_inv c rp_id_hash origin st"
  shows "sessions_inv c rp_id_hash origin st'"
  using assms
proof cases
  case (bstep_bind call i n draws r)
  from bstep_bind(2) show ?thesis
  proof (cases rule: bind_commit_cases)
    case (bound sign_counts token w)
    from bindings_insert_Some [OF bound(2)] have w: "by_token w = (by_token (srv_webauthn_bindings (cb_coordinator st)))
      (token \<mapsto> \<lparr>wb_client_identity = i, wb_ecdsa_public_key = bwi_ecdsa_public_key call,
         wb_ecdh_public_key = bwi_ecdh_public_key call\<rparr>)" by simp
    show ?thesis
      using assms(2) bstep_bind(1) by (auto simp: sessions_inv_def bound(3) w)
  qed (use assms(2) in simp)
qed (auto simp: sessions_inv_def)

lemma sessions_inv_run:
  "timed_run (browser_step c) start st now st' \<Longrightarrow> sessions_inv c rp_id_hash origin st \<Longrightarrow>
   sessions_inv c rp_id_hash origin st'"
  by (induction rule: timed_run.induct) (auto intro: sessions_inv_step)

lemma sessions_inv_init: "browser_init c fs st \<Longrightarrow> sessions_inv c (cb_rp_id_hash st) (cb_origin st) st"
  by (auto simp: browser_init_def sessions_inv_def coordinator_browser_methods_def webauthn_bindings_default_def)


lemma demo_session_run: "timed_run (browser_step demo_crypto) now demo_listener now demo_session"
proof -
  obtain r st where "bind_method demo_crypto id [[1]] (Some demo_bind) demo_listener = Some (r, st)"
    using demo_bound by auto
  from bind_is_run [OF this] this show ?thesis by (simp add: demo_session_def)
qed

lemma demo_listener_init: "browser_init demo_crypto demo_files demo_listener"
proof -
  have "srv_webauthn_bindings (fst (snd (rpc_transition p e r s))) = srv_webauthn_bindings s" for p e r s
    by (simp add: rpc_transition_def split: list.split)
  then have votes: "srv_webauthn_bindings (cast_votes e votes s) = srv_webauthn_bindings s" for e votes s
    by (induction e votes s rule: cast_votes.induct) (simp_all only: cast_votes.simps)
  have register: "srv_webauthn_bindings (snd (register_execution registration s)) = srv_webauthn_bindings s" for registration s
    by (auto simp: register_execution_def insert_execution_def split: option.split result.split)
  have "srv_webauthn_bindings demo_reserving = webauthn_bindings_default"
    unfolding demo_reserving_def demo_start_def votes register by (simp add: demo_empty_def)
  then show ?thesis
    unfolding browser_init_def demo_listener_def using demo_reachable(3) by blast
qed


lemma any_at_False:
  "any_at P xs is = Ok False \<longleftrightarrow> (\<forall>i \<in> set is. i < length xs \<and> \<not> P (xs ! i))"
  by (induction "is") auto

lemma all_at_Ok:
  "\<forall>i \<in> set is. i < length xs \<Longrightarrow> all_at P xs is = Ok (\<forall>i \<in> set is. P (xs ! i))"
  by (induction "is") auto

lemma set_assigned_clients:
  "client \<in> set (assigned_clients d) \<longleftrightarrow> (\<exists>slot \<in> set (ex_input_assignments d). input_slot_client d slot = Some client)"
  by (force simp: assigned_clients_def map_filter_def)

lemma set_client_slots:
  "i \<in> set (client_slots d client) \<longleftrightarrow>
     i < length (ex_input_assignments d) \<and> input_slot_client d (ex_input_assignments d ! i) = Some client"
  by (auto simp: client_slots_def)

lemma bind_method_Ok:
  assumes "bind_method c perm draws (Some call) st = Some (Ok response, st')"
  obtains sign_count sign_counts w where
    "bind_check c perm st call = Ok (wbr_client_identity response, sign_count)"
    "bindings_insert (b64_encode c) draws (Some (bwi_execution_id call))
       \<lparr>wb_client_identity = wbr_client_identity response, wb_ecdsa_public_key = bwi_ecdsa_public_key call,
        wb_ecdh_public_key = bwi_ecdh_public_key call\<rparr>
       (srv_webauthn_bindings (cb_coordinator st)) = Some (wbr_session_token response, w)"
    "st' = st\<lparr>cb_sign_counts := sign_counts, cb_coordinator := (cb_coordinator st)\<lparr>srv_webauthn_bindings := w\<rparr>\<rparr>"
proof -
  from assms obtain i n where k: "bind_check c perm st call = Ok (i, n)"
    and m: "bind_commit c draws call i n st = Some (Ok response, st')"
    by (auto simp: bind_method_def split: result.splits)
  from m show thesis
  proof (cases rule: bind_commit_cases)
    case (bound sign_counts token w)
    then have "wbr_client_identity response = i" "wbr_session_token response = token" by simp_all
    with bound k that show thesis by simp
  qed simp
qed



section \<open>The views\<close>

lemma slots_in_range:
  assumes "coord_reachable s" and "map_of (srv_executions s) e = Some d" and "vec_ok (ex_input_assignments d)"
  shows "length (ex_input_assignments d) \<le> length (ex_masked_inputs d)"
    and "length (ex_reserved_indices d) = length (ex_masked_inputs d)"
proof -
  let ?ranges = "ia_ranges (reg_input_assignment (ex_registration d))"
  from reachable_invs(2) [OF assms(1,2)]
  have inv: "length (ex_reserved_indices d) = n_slots d" "length (ex_masked_inputs d) = n_slots d"
    "ex_input_assignments d = expand_input_ranges ?ranges"
    "?ranges \<noteq> [] \<longrightarrow> reg_n_inputs (ex_registration d) = ranges_total ?ranges"
    unfolding slots_inv_def by blast+
  from inv show "length (ex_reserved_indices d) = length (ex_masked_inputs d)" by simp
  show "length (ex_input_assignments d) \<le> length (ex_masked_inputs d)"
  proof (cases "?ranges = []")
    case False
    have "(\<Sum>r \<leftarrow> ?ranges. unat (range_count r)) < 2 ^ 63"
      using assms(3) length_expand_input_ranges [of ?ranges] inv(3) by (simp add: vec_ok_def)
    then have "unat (ranges_total ?ranges) = (\<Sum>r \<leftarrow> ?ranges. unat (range_count r))"
      using unat_wrapping_sum [of "map range_count ?ranges"] by (simp add: ranges_total_def comp_def)
    with False inv length_expand_input_ranges [of ?ranges] show ?thesis by (simp add: n_slots_def)
  qed (simp add: inv(3))
qed

lemma count_ok_filter:
  "\<forall>x \<in> set xs. f x = Ok (P x) \<Longrightarrow> count_ok f xs = Ok (length (filter P xs))"
  by (induction xs) auto

lemma length_filter_all: "length (filter P xs) = length xs \<longleftrightarrow> (\<forall>x \<in> set xs. P x)"
  by (metis filter_True length_filter_less less_irrefl)

lemma of_nat_u64_inject:
  assumes "a < 2 ^ 64" and "b < 2 ^ 64"
  shows "(of_nat a :: u64) = of_nat b \<longleftrightarrow> a = b"
proof
  assume "(of_nat a :: u64) = of_nat b"
  then have "unat (of_nat a :: u64) = unat (of_nat b :: u64)" by (rule arg_cong)
  with assms show "a = b" by (simp add: unsigned_of_nat take_bit_nat_eq_self)
qed simp

lemma length_assigned_clients: "length (assigned_clients d) \<le> length (ex_input_assignments d)"
proof -
  have "length (assigned_clients d) \<le> length (List.map_filter (input_slot_client d) (ex_input_assignments d))"
    unfolding assigned_clients_def by (rule length_remdups_leq)
  also have "\<dots> \<le> length (ex_input_assignments d)" by (simp add: map_filter_def)
  finally show ?thesis .
qed

lemma browser_status_Ok:
  assumes "map_of (srv_executions s) e = Some d"
    and "client \<in> set (assigned_clients d) \<union> set (ex_output_clients d)"
    and "length (ex_input_assignments d) \<le> length (ex_masked_inputs d)"
    and "length (ex_reserved_indices d) = length (ex_masked_inputs d)"
  shows "browser_execution_status e client s = Ok
    \<lparr>bs_round = ex_round d,
     bs_input_indices = map of_nat (client_slots d client),
     bs_total_inputs = reg_n_inputs (ex_registration d),
     bs_reserved_inputs = of_nat (length (filter (\<lambda>owner. owner \<noteq> None) (ex_reserved_indices d))),
     bs_submitted_inputs = of_nat (length (filter (\<lambda>input. input \<noteq> None) (ex_masked_inputs d))),
     bs_total_clients = of_nat (length (assigned_clients d)),
     bs_submitted_clients = of_nat (length (filter (\<lambda>candidate.
       \<forall>i \<in> set (client_slots d candidate). ex_masked_inputs d ! i \<noteq> None) (assigned_clients d))),
     bs_own_input_reserved = (client_slots d client \<noteq> [] \<and>
       (\<forall>i \<in> set (client_slots d client). ex_reserved_indices d ! i = Some client)),
     bs_own_input_submitted = (client_slots d client \<noteq> [] \<and>
       (\<forall>i \<in> set (client_slots d client). ex_masked_inputs d ! i \<noteq> None)),
     bs_output_ready = (client \<in> set (ex_output_clients d) \<and>
       unat (reg_min_output_shares (ex_registration d)) \<le> length (output_share_list client d))\<rparr>"
proof -
  have r: "\<forall>i \<in> set (client_slots d x). i < length (ex_masked_inputs d)" for x
    using assms(3) by (auto simp: set_client_slots)
  have c: "count_ok (\<lambda>x. all_at (\<lambda>input. input \<noteq> None) (ex_masked_inputs d) (client_slots d x)) xs = (Ok
      (length (filter (\<lambda>x. \<forall>i \<in> set (client_slots d x). ex_masked_inputs d ! i \<noteq> None) xs)) :: nat rpc_result)" for xs
    by (rule count_ok_filter) (simp add: all_at_Ok r)
  have "client_slots d client = [] \<Longrightarrow> client \<in> set (ex_output_clients d)"
    using assms(2) set_client_slots [of _ d client]
    unfolding Un_iff set_assigned_clients by (metis empty_iff in_set_conv_nth list.set(1))
  then show ?thesis
    using r [of client]
    by (cases "client_slots d client = []")
      (simp_all add: browser_execution_status_def assms(1,4) Let_def all_at_Ok c del: not_None_eq)
qed

lemma all_submitted_iff:
  "(\<forall>x \<in> set (assigned_clients d). \<forall>i \<in> set (client_slots d x). ex_masked_inputs d ! i \<noteq> None) \<longleftrightarrow>
   (\<forall>i < length (ex_input_assignments d). slot_of d i \<noteq> None \<longrightarrow> ex_masked_inputs d ! i \<noteq> None)"
  (is "?l \<longleftrightarrow> ?r")
proof
  assume l: ?l
  show ?r
  proof (intro allI impI)
    fix i assume i: "i < length (ex_input_assignments d)" and "slot_of d i \<noteq> None"
    then obtain x where x: "input_slot_client d (ex_input_assignments d ! i) = Some x"
      by (auto simp: slot_of_def vec_get_def)
    with i have "x \<in> set (assigned_clients d)" unfolding set_assigned_clients by (blast intro: nth_mem)
    moreover from i x have "i \<in> set (client_slots d x)" by (simp add: set_client_slots)
    ultimately show "ex_masked_inputs d ! i \<noteq> None" using l by blast
  qed
next
  assume ?r
  then show ?l by (auto simp: set_client_slots slot_of_def vec_get_def)
qed

lemma output_polls:
  assumes "map_of (srv_executions s) e = Some d" and "\<not> closed k"
  shows "browser_output_shares e client s = Ok (Some shares) \<longleftrightarrow> client \<in> set (ex_output_clients d) \<and>
      unat (reg_min_output_shares (ex_registration d)) \<le> length (output_share_list client d) \<and>
      shares = output_share_list client d"
    and "fst (ready_output_snapshot closed client m (d\<lparr>ex_output_sinks := (ex_output_sinks d)(client \<mapsto> k)\<rparr>)) =
      Some (k, shares) \<longleftrightarrow> m \<le> length (output_share_list client d) \<and> shares = output_share_list client d"
  using assms
  by (auto simp: browser_output_shares_def ready_output_snapshot_def output_share_list_def Let_def)

text \<open>
  C25. What a browser polls is the state of the execution. For a client of the execution the status
  never fails or panics: it shows the round, whether all inputs assigned to the client are reserved
  by it or submitted, and all clients as having submitted exactly when no assigned slot is empty;
  and it announces outputs exactly when the poll for output shares returns them, which is exactly
  when a native subscriber would be sent them, and then the same ones.
\<close>

theorem browser_views_agree:
  assumes "coord_reachable s" and "map_of (srv_executions s) e = Some d" and "vec_ok (ex_input_assignments d)"
    and "client \<in> set (assigned_clients d) \<union> set (ex_output_clients d)" and "\<not> closed k"
  shows "\<exists>v. browser_execution_status e client s = Ok v \<and> browser_round e s = Ok (bs_round v) \<and>
    (bs_own_input_reserved v \<longleftrightarrow> client_slots d client \<noteq> [] \<and>
       (\<forall>i \<in> set (client_slots d client). ex_reserved_indices d ! i = Some client)) \<and>
    (bs_own_input_submitted v \<longleftrightarrow> client_slots d client \<noteq> [] \<and>
       (\<forall>i \<in> set (client_slots d client). ex_masked_inputs d ! i \<noteq> None)) \<and>
    (bs_submitted_clients v = bs_total_clients v \<longleftrightarrow>
       (\<forall>i < length (ex_input_assignments d). slot_of d i \<noteq> None \<longrightarrow> ex_masked_inputs d ! i \<noteq> None)) \<and>
    (bs_output_ready v \<longleftrightarrow> (\<exists>shares. browser_output_shares e client s = Ok (Some shares))) \<and>
    (\<forall>shares. browser_output_shares e client s = Ok (Some shares) \<longleftrightarrow> client \<in> set (ex_output_clients d) \<and>
       fst (ready_output_snapshot closed client (unat (reg_min_output_shares (ex_registration d)))
         (d\<lparr>ex_output_sinks := (ex_output_sinks d)(client \<mapsto> k)\<rparr>)) = Some (k, shares))"
proof -
  let ?done = "\<lambda>x. \<forall>i \<in> set (client_slots d x). ex_masked_inputs d ! i \<noteq> None"
  have small: "length (assigned_clients d) < 2 ^ 64"
    using length_assigned_clients [of d] assms(3) by (simp add: vec_ok_def)
  then have "length (filter ?done (assigned_clients d)) < 2 ^ 64"
    by (rule le_less_trans [OF length_filter_le])
  with small have all: "(of_nat (length (filter ?done (assigned_clients d))) :: u64) = of_nat (length (assigned_clients d)) \<longleftrightarrow>
      (\<forall>i < length (ex_input_assignments d). slot_of d i \<noteq> None \<longrightarrow> ex_masked_inputs d ! i \<noteq> None)"
    by (simp only: of_nat_u64_inject length_filter_all all_submitted_iff)
  show ?thesis
    by (intro exI conjI, rule browser_status_Ok [OF assms(2,4) slots_in_range [OF assms(1-3)]])
      (simp_all only: BrowserExecutionStatus.simps all output_polls(1) [of s e d closed k, OF assms(2,5)] output_polls(2) [of s e d closed k, OF assms(2,5)] browser_round_def assms(2)
        option.case simp_thms ex_simps)
qed

theorem browser_views_agree_witness:
  "\<exists>v. browser_execution_status demo_id [20] demo_running = Ok v \<and> bs_own_input_submitted v \<and>
     bs_submitted_clients v = bs_total_clients v \<and> \<not> bs_output_ready v"
proof -
  let ?d = "demo_execution demo_running"
  have len: "length (ex_input_assignments ?d) = 2" by code_simp
  have facts: "[20] \<in> set (assigned_clients ?d) \<union> set (ex_output_clients ?d)" "client_slots ?d [20] = [0]"
    "map (\<lambda>i. ex_masked_inputs ?d ! i \<noteq> None) [0, 1] = [True, True]"
    "browser_output_shares demo_id [20] demo_running = Ok None"
    by code_simp+
  then have "\<forall>i < 2. ex_masked_inputs ?d ! i \<noteq> None" by (simp add: less_2_cases_iff)
  with facts browser_views_agree [OF demo_reachable(7) demo_present(6), of "[20]" "\<lambda>_. False" 5] len
  show ?thesis by (auto simp: vec_ok_def)
qed

section \<open>A race between binding and submitting\<close>

text \<open>
  A second session of the same identity, with the keys \<open>[9]\<close> and \<open>[10]\<close>. Its check passes while
  nothing is submitted. The first session then submits and is pinned as the target of the output
  encryption; the commit of the second bind, which comes after it, replaces the target.
\<close>

definition demo_two_sessions :: CoordinatorBrowserState where
  "demo_two_sessions = snd (the (bind_method demo_crypto id [[1]] (Some demo_bind)
     (coordinator_browser_methods demo_crypto demo_files demo_one_input ''vote'' None)))"

definition demo_second_bind :: BindWebauthnIdentity where
  "demo_second_bind = demo_bind\<lparr>
     bwi_assertion := \<lparr>authenticator_data = sha256 demo_crypto (str_bytes ''vote'') @ [5, 0, 0, 0, 2],
       client_data_json = webauthn_bind_challenge demo_crypto [9] [10], assertion_signature = [20]\<rparr>,
     bwi_ecdsa_public_key := [9], bwi_ecdh_public_key := [10]\<rparr>"

definition demo_serde :: serde where
  "demo_serde = \<lparr>parse_indices = (\<lambda>_. Some [0]),
     parse_batch = (\<lambda>_. Some \<lparr>mib_reserved_indices = [0], mib_masked_inputs = [[6]]\<rparr>), parse_range = (\<lambda>_. None)\<rparr>"

definition demo_submitted :: CoordinatorBrowserState where
  "demo_submitted = fst (snd (submit_method demo_crypto demo_serde (\<lambda>_ _. True) 1010 (Some demo_call) demo_two_sessions))"

lemma late_bind_replaces_submitter:
  "bind_check demo_crypto id demo_two_sessions demo_second_bind = Ok ([20], 2)"
  "fst (submit_method demo_crypto demo_serde (\<lambda>_ _. True) 1010 (Some demo_call) demo_two_sessions) = Ok ()"
  "resolve_ecdh_public_key (srv_webauthn_bindings (cb_coordinator demo_submitted)) demo_id [20] = Some [8]"
  "bind_check demo_crypto id demo_submitted demo_second_bind = Err auth_error"
  "resolve_ecdh_public_key (srv_webauthn_bindings (cb_coordinator (snd (the
     (bind_commit demo_crypto [[2]] demo_second_bind [20] 2 demo_submitted))))) demo_id [20] = Some [10]"
  by code_simp+

section \<open>Masks for browsers\<close>

lemma browser_mask_shares_only_to_owner:
  assumes "fst (assigned_mask_shares_method c sj now (Some call) st) = Ok (Some shares)"
  shows "\<exists>identity nonces d r. authenticate c now ''browser_assigned_mask_shares'' call (nb_nonces st) (nb_bindings st) =
      (Ok identity, nonces) \<and> map_of (nb_node st) (bc_execution_id call) = Some d \<and>
    parse_range sj (sbr_body (bc_request call)) = Some r \<and>
    assigned_mask_shares_for_client d identity (mr_start r) (mr_count r) = Ok (Some shares)"
  using assms
  by (auto simp: assigned_mask_shares_method_def parse_body_def and_then_Ok_iff
      split: prod.splits result.splits option.splits)

end
