(* ===== verification/Service_Properties.thy ===== *)
theory Service_Properties
  imports Coord_Service Run_Properties Browser_Properties
begin

text \<open>
  Properties of the running coordinator, across its parts: who is behind what the shared state
  records. The acts of a party are its proposals, its output shares, its acknowledgements and the
  shutdown request. Every section of a call adds acts of its caller only, and only the act the call
  stands for; calls come over the native listener, whose identities the handshake has proven; and
  the browser listener adds none.
\<close>

section \<open>Acts of parties\<close>

datatype act = Proposed ExecutionId Round | SentOutput ExecutionId ClientIdentity | Acknowledged ExecutionId | AskedShutdown

fun party_act :: "coordinator_call + stoffel_call \<Rightarrow> act option" where
  "party_act (Inl (Transition e r)) = Some (Proposed e r)"
| "party_act (Inl (SendOutputShares e client shares)) = Some (SentOutput e client)"
| "party_act (Inl (RetireExecution e)) = Some (Acknowledged e)"
| "party_act (Inl RequestShutdown) = Some AskedShutdown"
| "party_act (Inr (StartPreprocessing e)) = Some (Proposed e Preprocessing)"
| "party_act (Inr (ReserveInputMasks e)) = Some (Proposed e InputMaskReservation)"
| "party_act (Inr (CollectInputs e)) = Some (Proposed e InputCollection)"
| "party_act (Inr (StartMpc e)) = Some (Proposed e MPCExecution)"
| "party_act (Inr (SendOutput e)) = Some (Proposed e OutputDistribution)"
| "party_act (Inr (Finalize e)) = Some (Proposed e ProgramFinished)"
| "party_act _ = None"

fun execution_act :: "CoordinatorExecutionState \<Rightarrow> ExecutionId \<Rightarrow> act \<Rightarrow> ClientIdentity \<Rightarrow> bool" where
  "execution_act d e (Proposed e' r) p \<longleftrightarrow> e' = e \<and> (\<exists>voters. ex_transition_votes d r = Some voters \<and> p \<in> voters)"
| "execution_act d e (SentOutput e' client) p \<longleftrightarrow> e' = e \<and> map_of (ex_output_shares d) (client, p) \<noteq> None"
| "execution_act d e (Acknowledged e') p \<longleftrightarrow> e' = e \<and> p \<in> ex_retirement_acks d"
| "execution_act d e AskedShutdown p \<longleftrightarrow> False"

definition done_by :: "CoordinatorRPCServerSharedBase \<Rightarrow> act \<Rightarrow> ClientIdentity \<Rightarrow> bool" where
  "done_by s a p \<longleftrightarrow>
     (\<exists>e d. map_of (srv_executions s) e = Some d \<and> execution_act d e a p) \<or>
     a = AskedShutdown \<and> srv_shutdown_fired s \<and> (\<exists>rest. srv_mpc_nodes s = p # rest)"

text \<open>
  \<open>s'\<close> records no act that \<open>s\<close> does not, but for the act \<open>new\<close> of \<open>caller\<close>, and is there for the same
  one-off execution.
\<close>

definition adds_act :: "ClientIdentity \<Rightarrow> act option \<Rightarrow> CoordinatorRPCServerSharedBase \<Rightarrow> CoordinatorRPCServerSharedBase \<Rightarrow> bool" where
  "adds_act caller new s s' \<longleftrightarrow>
     srv_one_off_execution s' = srv_one_off_execution s \<and>
     (\<forall>a p. done_by s' a p \<longrightarrow> done_by s a p \<or> p = caller \<and> new = Some a)"

lemma adds_act_refl [simp]: "adds_act caller new s s"
  by (simp add: adds_act_def)

lemma adds_act_trans: "adds_act caller new s s1 \<Longrightarrow> adds_act caller new s1 s2 \<Longrightarrow> adds_act caller new s s2"
  unfolding adds_act_def by metis

lemma adds_act_frame:
  "map_of (srv_executions s') = map_of (srv_executions s) \<Longrightarrow> srv_shutdown_fired s' = srv_shutdown_fired s \<Longrightarrow>
     srv_mpc_nodes s' = srv_mpc_nodes s \<Longrightarrow> srv_one_off_execution s' = srv_one_off_execution s \<Longrightarrow> adds_act caller new s s'"
  by (simp add: adds_act_def done_by_def)

lemma adds_act_put:
  assumes "map_of (srv_executions s) e = Some d"
    and "\<And>a p. execution_act d' e a p \<Longrightarrow> execution_act d e a p \<or> p = caller \<and> new = Some a"
  shows "adds_act caller new s (put_execution e d' s)"
  using assms unfolding adds_act_def done_by_def by (auto split: if_splits) blast+

section \<open>Acts of a section\<close>

definition same_acts :: "CoordinatorExecutionState \<Rightarrow> CoordinatorExecutionState \<Rightarrow> bool" where
  "same_acts d d' \<longleftrightarrow> ex_transition_votes d' = ex_transition_votes d \<and> ex_output_shares d' = ex_output_shares d \<and>
     ex_retirement_acks d' = ex_retirement_acks d"

lemma same_acts_act: "same_acts d d' \<Longrightarrow> execution_act d' e a p = execution_act d e a p"
  by (cases a) (simp_all add: same_acts_def)

lemma same_acts_put:
  "map_of (srv_executions s) e = Some d \<Longrightarrow> same_acts d d' \<Longrightarrow> adds_act caller new s (put_execution e d' s)"
  by (erule adds_act_put) (auto dest: same_acts_act)

lemma resubscribed_acts: "resubscribed d d' \<Longrightarrow> same_acts d d'"
  by (simp add: resubscribed_def same_acts_def)

lemma apply_reservations_acts: "same_acts d (snd (apply_reservations client indices d))"
  by (induction indices arbitrary: d) (simp_all add: same_acts_def split_beta Let_def)

lemma apply_submissions_acts: "same_acts d (snd (apply_submissions client pairs d))"
  by (induction pairs arbitrary: d) (auto simp: same_acts_def split_beta Let_def)

lemma execution_reserve_acts: "same_acts d (fst (snd (execution_reserve ok client indices d)))"
  using apply_reservations_acts [of d client indices]
  by (auto simp: execution_reserve_def same_acts_def Let_def split_beta split: result.split)

lemma submit_record_acts: "same_acts d (snd (submit_record client masked_inputs indices d))"
  using apply_submissions_acts [of d client "zip indices masked_inputs"]
  by (auto simp: submit_record_def same_acts_def Let_def split_beta split: result.split)

lemma submit_finish_acts: "same_acts d (fst (snd (submit_finish ok q h p d)))"
  using resubscribed_ops(6) [of d ok p] try_advance_frame [of q h "submit_restore ok p d"]
  by (auto simp: submit_finish_def same_acts_def resubscribed_def split: prod.split result.split)

lemmas section_acts = resubscribed_acts [OF resubscribed_ops(1)] resubscribed_acts [OF resubscribed_ops(2)]
  resubscribed_acts [OF resubscribed_ops(3)] resubscribed_acts [OF resubscribed_ops(4)]
  resubscribed_acts [OF resubscribed_ops(5)] resubscribed_acts [OF resubscribed_ops(7)]
  resubscribed_acts [OF resubscribed_ops(8)] resubscribed_acts [OF resubscribed_ops(9)]
  execution_reserve_acts submit_record_acts submit_finish_acts

lemma with_execution_acts:
  assumes "\<And>d. map_of (srv_executions s) e = Some d \<Longrightarrow>
    (\<And>a p. execution_act (fst (snd (f d))) e a p \<Longrightarrow> execution_act d e a p \<or> p = caller \<and> new = Some a)"
  shows "adds_act caller new s (fst (snd (with_execution e s f)))"
  using assms adds_act_put [of s e _ "fst (snd (f _))"]
  by (auto simp: with_execution_def split_beta split: option.split)

lemma with_execution_same_acts:
  "(\<And>d. same_acts d (fst (snd (f d)))) \<Longrightarrow> adds_act caller new s (fst (snd (with_execution e s f)))"
  by (rule with_execution_acts) (metis same_acts_act)

lemma subscription_acts:
  "(\<And>k d. same_acts d (fst (f k d))) \<Longrightarrow> adds_act caller new s (fst (snd (subscription accepted e s f)))"
  by (auto simp: subscription_def split_beta Let_def split: option.split intro!: with_execution_same_acts)

lemma record_output_acts:
  "execution_act (snd (record_output_shares is_party caller client shares d)) e a p \<Longrightarrow>
     execution_act d e a p \<or> p = caller \<and> a = SentOutput e client"
  by (cases a) (auto simp: record_output_shares_def hm_simps split: if_splits)

lemma execution_vote_acts:
  "execution_act (fst (snd (execution_vote q h caller r d))) e a p \<Longrightarrow>
     execution_act d e a p \<or> p = caller \<and> a = Proposed e r"
proof -
  have eq: "fst (snd (execution_vote q h caller r d)) =
      (if round_index r \<le> round_index (ex_round d) then d else snd (try_advance q h (add_vote caller r d)))"
    by (auto simp: execution_vote_def add_vote_def Let_def split: prod.split result.split)
  show "execution_act (fst (snd (execution_vote q h caller r d))) e a p \<Longrightarrow>
     execution_act d e a p \<or> p = caller \<and> a = Proposed e r"
    by (cases a) (auto simp: eq try_advance_frame add_vote_def split: if_splits option.splits)
qed

section \<open>Acts of a call\<close>

lemma deliver_outputs_acts: "adds_act caller new s (fst (snd (deliver_ready_output_waiters ok closed e client m s)))"
proof (cases "map_of (srv_executions s) e")
  case (Some d)
  obtain snap d' where r: "ready_output_snapshot closed client m d = (snap, d')"
    by (cases "ready_output_snapshot closed client m d")
  have put: "adds_act caller new s (put_execution e d' s)"
    using same_acts_put [OF Some section_acts(6), of caller new closed client m] r by simp
  moreover have "adds_act caller new s (put_execution e (forget_output_waiter client k d') (put_execution e d' s))" for k
    by (rule adds_act_trans [OF put same_acts_put [OF _ section_acts(7)]]) simp
  ultimately show ?thesis
    by (auto simp: deliver_ready_output_waiters_def Some r Let_def split: option.split)
qed (simp add: deliver_ready_output_waiters_def)

lemma submit_acts: "adds_act caller new s (fst (snd (submit_masked_inputs ok who e masked_inputs indices s)))"
proof (cases "srv_mpc_nodes s")
  case (Cons h rest)
  let ?f = "\<lambda>d. let (r, d') = submit_record who masked_inputs indices d in (r, d', [])"
  obtain r s1 ds where w: "with_execution e s ?f = (r, s1, ds)"
    by (cases "with_execution e s ?f") auto
  have "adds_act caller new s (fst (snd (with_execution e s ?f)))"
    by (rule with_execution_same_acts) (simp add: split_beta section_acts)
  with w have s1: "adds_act caller new s s1" by simp
  then have "adds_act caller new s (fst (snd (with_execution e s1 (submit_finish ok q h p))))" for p q
    by (rule adds_act_trans) (rule with_execution_same_acts, rule section_acts)
  with s1 w Cons show ?thesis
    by (auto simp: submit_masked_inputs_def split: result.splits prod.splits) (metis fst_conv snd_conv)+
qed (simp add: submit_masked_inputs_def)

lemma insert_execution_acts:
  assumes "map_of (srv_executions s) (reg_execution_id registration) = None"
  shows "adds_act caller new s (snd (insert_execution registration s))"
proof (cases "execution_new registration (srv_n s)")
  case (Ok d)
  have "ex_output_shares d = []" using Ok by (auto simp: execution_new_def Let_def split: if_splits option.splits)
  then have "\<not> execution_act d e a p" for e a p using execution_new_Ok(4,5) [OF Ok] by (cases a) simp_all
  then show ?thesis using assms by (auto simp: insert_execution_def Ok adds_act_def done_by_def split: if_splits)
qed (simp_all add: insert_execution_def)

lemma register_acts: "adds_act caller new s (snd (register_execution registration s))"
proof (cases "map_of (srv_executions s) (reg_execution_id registration)")
  case None
  let ?s = "\<lambda>e d. s\<lparr>srv_executions := AList.delete e (srv_executions s), srv_retired := seal (srv_retired s) e (ex_retirement_acks d)\<rparr>"
  have "adds_act caller new s (?s e d)" for e d
    by (auto simp: adds_act_def done_by_def hm_simps split: if_splits)
  moreover have "adds_act caller new (?s e d) (snd (insert_execution registration (?s e d)))" for e d
    by (rule insert_execution_acts) (simp add: hm_simps None)
  ultimately have "adds_act caller new s (snd (insert_execution registration (?s e d)))" for e d
    by (rule adds_act_trans)
  then show ?thesis
    using insert_execution_acts [OF None] by (auto simp: register_execution_def None split: option.split)
qed (simp add: register_execution_def)

lemma retire_acts: "adds_act caller (Some (Acknowledged e)) s (snd (retire_execution e caller s))"
proof -
  have act: "execution_act (acknowledge_retirement caller d) e a p \<Longrightarrow>
      execution_act d e a p \<or> p = caller \<and> Some (Acknowledged e) = Some a" for d a p
    by (cases a) (auto simp: acknowledge_retirement_def)
  have frame: "adds_act caller (Some (Acknowledged e)) s (s\<lparr>srv_retired := ret\<rparr>)" for ret
    by (rule adds_act_frame) simp_all
  moreover have "adds_act caller (Some (Acknowledged e)) s
      (put_execution e (acknowledge_retirement caller d) (s\<lparr>srv_retired := ret\<rparr>))"
    if "map_of (srv_executions s) e = Some d" for ret d
    by (rule adds_act_trans [OF frame adds_act_put [OF _ act]]) (simp_all add: that)
  ultimately show ?thesis
    by (auto simp: retire_execution_def split_beta Let_def split: option.split)
qed

lemma shutdown_acts: "adds_act caller (Some AskedShutdown) s (fst (snd (request_shutdown caller s)))"
  by (auto simp: adds_act_def done_by_def request_shutdown_def split: list.splits option.splits if_splits)

lemma transition_acts: "adds_act caller (Some (Proposed e r)) s (fst (snd (rpc_transition caller e r s)))"
  by (auto simp: rpc_transition_def split: list.split intro!: with_execution_acts dest!: execution_vote_acts)

lemma send_output_acts:
  "adds_act caller (Some (SentOutput e client)) s (fst (snd (send_output_shares ok closed caller e client shares s)))"
proof (cases "map_of (srv_executions s) e")
  case (Some d)
  let ?r = "record_output_shares (caller \<in> set (srv_mpc_nodes s)) caller client shares d"
  have "adds_act caller (Some (SentOutput e client)) s (put_execution e (snd ?r) s)"
    by (rule adds_act_put [OF Some]) (auto dest: record_output_acts)
  then show ?thesis
    using deliver_outputs_acts adds_act_trans
    by (auto simp: send_output_shares_def Some split: prod.split result.split)
qed (simp add: send_output_shares_def)

lemma obtain_output_acts: "adds_act caller new s (fst (snd (obtain_output_shares ok closed accepted who e s)))"
proof (cases "map_of (srv_executions s) e")
  case (Some d)
  have "adds_act caller new s (put_execution e (snd (wait_for_output closed who k d)) s)" for k
    by (rule same_acts_put [OF Some section_acts(8)])
  from adds_act_trans [OF this deliver_outputs_acts] show ?thesis
    by (auto simp: obtain_output_shares_def Some split: prod.split option.split bool.split) (metis snd_conv)+
qed (simp add: obtain_output_shares_def)

lemma answered_state [simp]: "snd (answered f reply) = snd reply"
  by (simp add: answered_def)

lemma serve_call_acts: "adds_act caller (party_act (Inl call)) s (fst (snd (serve_call net caller call s)))"
proof (cases call)
  case (RegisterExecution registration)
  then show ?thesis
    using register_acts [of caller _ s registration]
    by (auto simp: rpc_register_execution_def split: prod.split result.split)
next
  case (RetireExecution e)
  then show ?thesis
    using retire_acts [of caller e s] by (auto simp: rpc_retire_execution_def split: prod.split result.split)
next
  case (SubRound e r accepted)
  then show ?thesis by (auto simp: sub_round_def intro!: subscription_acts section_acts)
next
  case (AvailableInputMasks e)
  then show ?thesis by (auto simp: available_input_masks_def same_acts_def intro!: with_execution_same_acts)
next
  case (ReserveMaskIndex e i)
  then show ?thesis
    by (auto simp: reserve_mask_index_def reserve_mask_indices_def intro!: with_execution_same_acts section_acts)
next
  case (ReserveMaskIndices e indices)
  then show ?thesis by (auto simp: reserve_mask_indices_def intro!: with_execution_same_acts section_acts)
qed (auto simp: sub_reserved_indices_def sub_masked_inputs_def sub_assigned_reserved_indices_def
    sub_assigned_masked_inputs_def submit_masked_input_def resolve_output_encryption_key_def
    intro!: subscription_acts section_acts submit_acts shutdown_acts transition_acts send_output_acts obtain_output_acts)

lemma serve_stoffel_call_acts: "adds_act caller (party_act (Inr call)) s (fst (snd (serve_stoffel_call caller call s)))"
  by (cases call) (simp_all add: transition_acts connection_start_preprocessing_def connection_reserve_input_masks_def
      connection_collect_inputs_def connection_start_mpc_def connection_send_output_def connection_finalize_def)

lemma call_section_acts: "call_section caller call s s' \<Longrightarrow> adds_act caller (party_act call) s s'"
proof (induction rule: call_section.induct)
  case (sec_record_output s e d client shares)
  then show ?case by (rule adds_act_put) (auto dest: record_output_acts)
qed (auto intro: serve_call_acts serve_stoffel_call_acts same_acts_put section_acts)

lemma call_section_reachable:
  assumes "call_section caller call s s'" and "hm_wf (srv_executions s)" and "reachable init coord_step s"
  shows "reachable init coord_step s'"
  using assms
proof (induction rule: call_section.induct)
  case (sec_call call s net)
  have "fst (snd (available_input_masks e s)) = s" for e
    using put_same [OF sec_call(1)] by (auto simp: available_input_masks_def with_execution_def split: option.split)
  with sec_call reachable_step [OF sec_call(2) step_shutdown] show ?case
    by (cases call) (simp_all add: register_reachable retire_reachable subscriptions_reachable reserve_reachable
        submit_reachable transition_reachable send_output_reachable obtain_output_reachable reserve_mask_index_def
        submit_masked_input_def resolve_output_encryption_key_def)
next
  case (sec_stoffel call s)
  then show ?case
    by (cases call) (simp_all add: transition_reachable connection_start_preprocessing_def
        connection_reserve_input_masks_def connection_collect_inputs_def connection_start_mpc_def
        connection_send_output_def connection_finalize_def)
qed (metis reachable_step step_submit step_advance step_record_output step_wait_output step_snapshot step_forget)+

section \<open>Acts of a browser method\<close>

lemma bind_commit_coordinator:
  assumes "bind_commit c draws call client_identity sign_count st = Some (r, st')"
  shows "\<exists>w. cb_coordinator st' = (cb_coordinator st)\<lparr>srv_webauthn_bindings := w\<rparr>"
  using assms by (cases rule: bind_commit_cases) (auto intro: exI [of _ "srv_webauthn_bindings (cb_coordinator st)"])

lemma method_section_acts:
  assumes "method_section c now st st'"
  shows "adds_act p None (cb_coordinator st) (cb_coordinator st')"
  using assms
proof cases
  case (msec_call call e indices masked_inputs identity s)
  then have "party_act (Inl call) = None" by (cases call) auto
  with call_section_acts [OF msec_call(3)] show ?thesis by (simp add: msec_call(1) adds_act_def)
next
  case (msec_bind call client_identity sign_count draws r)
  from bind_commit_coordinator [OF msec_bind(2)] show ?thesis by (auto intro: adds_act_frame)
qed (auto intro: adds_act_frame)

lemma method_section_reachable:
  assumes "method_section c now st st'" and "hm_wf (srv_executions (cb_coordinator st))"
    and "reachable init coord_step (cb_coordinator st)"
  shows "reachable init coord_step (cb_coordinator st')"
  using assms(1)
proof cases
  case (msec_call call e indices masked_inputs identity s)
  with call_section_reachable [OF msec_call(3) assms(2,3)] show ?thesis by simp
next
  case (msec_bind call client_identity sign_count draws r)
  from bind_commit_coordinator [OF msec_bind(2)] reachable_step [OF assms(3) step_bindings] show ?thesis by auto
qed (auto intro: assms reachable_step [OF assms(3) step_bindings])

section \<open>Acts of a run\<close>

lemma coordinator_run_roster:
  assumes "reachable ((=) s) coord_step s'" and "server_inv s"
  shows "server_inv s' \<and> same_roster s s'"
  using assms(1)
proof (induction rule: reachable.induct)
  case (reachable_step s1 s2)
  with coord_step_good [OF reachable_step(2)] show ?case by (auto simp: good_step_def same_roster_def)
qed (simp add: assms(2))

lemma server_step_shared:
  assumes "server_step c sv a sv'" and "server_inv (os_shared sv)" and "reachable init coord_step (os_shared sv)"
  shows "reachable init coord_step (os_shared sv')"
  using assms(1)
proof cases
  case (sv_native_call k caller call s)
  with call_section_reachable [OF sv_native_call(4) server_invD(2) [OF assms(2)] assms(3)] show ?thesis by simp
next
  case (sv_browser_method h st k now st')
  with method_section_reachable [OF sv_browser_method(5)] server_invD(2) [OF assms(2)] assms(3) show ?thesis by simp
next
  case (sv_hash_order xs)
  with reachable_step [OF assms(3) step_reorder] show ?thesis by simp
qed (simp_all add: assms(3) server_shutdown_def Let_def)

lemma server_run_shared:
  assumes "server_run c sv0 trace sv" and "server_inv (os_shared sv0)"
  shows "reachable ((=) (os_shared sv0)) coord_step (os_shared sv)"
  using assms(1)
proof (induction rule: server_run.induct)
  case (run_action trace sv a sv')
  with server_step_shared [OF run_action(2)] coordinator_run_roster [OF _ assms(2)] show ?case by blast
qed (simp add: reachable_init)

text \<open>The events of the native listener in a trace.\<close>

fun native_event :: "'tcp action \<Rightarrow> 'tcp listener_event list" where
  "native_event (NativeEvent event) = [event]"
| "native_event ServerShutdown = [ShutdownReceived]"
| "native_event _ = []"

lemma server_run_handle:
  assumes "server_run c sv0 trace sv"
  shows "rh_run (os_server_handle sv) = rh_run (os_server_handle sv0) \<and>
    rh_events (os_server_handle sv) = rh_events (os_server_handle sv0) @ concat (map native_event trace)"
  using assms
proof (induction rule: server_run.induct)
  case (run_action trace sv a sv')
  from run_action(2) show ?case
    by cases (simp_all add: run_action(3) handle_event_def server_shutdown_def handle_shutdown_def Let_def)
qed simp

lemma native_event_Accepted: "Accepted k tcp \<in> set (concat (map native_event trace)) \<longleftrightarrow> NativeEvent (Accepted k tcp) \<in> set trace"
proof -
  have "Accepted k tcp \<in> set (native_event a) \<longleftrightarrow> a = NativeEvent (Accepted k tcp)" for a
    by (cases a) auto
  then show ?thesis by auto
qed

text \<open>\<open>p\<close> has made a call that stands for \<open>a\<close> on a connection the listener had admitted as \<open>p\<close>.\<close>

definition called_by :: "('tcp \<Rightarrow> bytes option) \<Rightarrow> 'tcp action list \<Rightarrow> act \<Rightarrow> bytes \<Rightarrow> bool" where
  "called_by admit trace a p \<longleftrightarrow>
     (\<exists>pre k call post tcp. trace = pre @ NativeCall k call # post \<and> party_act call = Some a \<and>
        NativeEvent (Accepted k tcp) \<in> set pre \<and> admit tcp = Some p)"

lemma called_by_append: "called_by admit trace a p \<Longrightarrow> called_by admit (trace @ later) a p"
  unfolding called_by_def by (metis append_Cons append_assoc)

lemma server_step_acts:
  assumes "server_step c sv x sv'" and "done_by (os_shared sv') a p" and "server_inv (os_shared sv)"
  shows "done_by (os_shared sv) a p \<or>
    (\<exists>k call. x = NativeCall k call \<and> party_act call = Some a \<and> (k, p) \<in> set (handle_connections (os_server_handle sv)))"
  using assms(1)
proof cases
  case (sv_native_call k caller call s)
  with call_section_acts [OF sv_native_call(4)] assms(2) show ?thesis by (auto simp: adds_act_def)
next
  case (sv_browser_method h st k now st')
  with method_section_acts [OF sv_browser_method(5), of p] assms(2) show ?thesis by (auto simp: adds_act_def)
next
  case (sv_hash_order xs)
  have "map_of xs = map_of (srv_executions (os_shared sv))"
    by (rule mset_map_of_eq(2) [OF server_invD(2) [OF assms(3)] sv_hash_order(3)])
  then have "adds_act p None (os_shared sv) (os_shared sv')"
    by (intro adds_act_frame) (simp_all add: sv_hash_order(2))
  with assms(2) show ?thesis by (auto simp: adds_act_def)
qed (use assms(2) in \<open>simp_all add: server_shutdown_def Let_def\<close>)

lemma server_run_acts:
  assumes "server_run c sv0 trace sv" and "os_server_handle sv0 = handle_start (listener_run admit)"
    and "server_inv (os_shared sv0)" and "done_by (os_shared sv) a p"
  shows "done_by (os_shared sv0) a p \<or> called_by admit trace a p"
  using assms(1,4)
proof (induction rule: server_run.induct)
  case (run_action trace sv x sv')
  have "server_inv (os_shared sv)"
    using coordinator_run_roster [OF server_run_shared [OF run_action(1) assms(3)] assms(3)] by simp
  from server_step_acts [OF run_action(2,4) this] show ?case
  proof (elim disjE exE conjE)
    assume "done_by (os_shared sv) a p"
    with run_action(3) called_by_append show ?thesis by blast
  next
    fix k call
    assume x: "x = NativeCall k call" "party_act call = Some a" "(k, p) \<in> set (handle_connections (os_server_handle sv))"
    with server_run_handle [OF run_action(1)]
    have "(k, p) \<in> set (ln_connections (listener_run admit (concat (map native_event trace))))"
      by (simp add: handle_connections_def assms(2) handle_start_def)
    from served_was_admitted [OF this] obtain tcp where "NativeEvent (Accepted k tcp) \<in> set trace" "admit tcp = Some p"
      by (auto simp: native_event_Accepted simp del: set_concat)
    with x show ?thesis unfolding called_by_def by blast
  qed
qed simp

section \<open>The running program\<close>

lemma native_listener_Ok:
  assumes "native_listener pf addr port cert_der key_der = Ok h"
  shows "h = handle_start (listener_run (connection_identity (pf_tls pf) (pf_accept pf)
    \<lparr>sc_certs = [cert_der], sc_key = key_der, sc_client_auth = True\<rparr>))"
  using assms by (auto simp: native_listener_def and_then_Ok_iff dest: start_coord_Ok)

lemma coordinator_program_Ok:
  assumes "coordinator_program pf host args = (Ok sv0 :: ('c, _) result)" and "vec_ok (arg_initial_mpc_nodes args)"
  obtains s at mode cfg where "run_coord_main host args = (Ok (s, at, mode) :: ('c, _) result)"
    and "os_shared sv0 = (case arg_one_off args of None \<Rightarrow> s | Some one_off \<Rightarrow> watch_for_shutdown_request (oo_execution_id one_off) s)"
    and "sc_client_auth cfg"
    and "os_server_handle sv0 = handle_start (listener_run (connection_identity (pf_tls pf) (pf_accept pf) cfg))"
proof -
  from assms(1) obtain s at mode where main: "run_coord_main host args = (Ok (s, at, mode) :: ('c, _) result)"
      and run: "(case mode of RunStanding tls \<Rightarrow> run_coord pf s at tls
        | RunOneOff e grace \<Rightarrow> run_coord_one_off pf s at e) = (Ok sv0 :: ('c, _) result)"
    unfolding coordinator_program_def by (auto simp: and_then_Ok_iff)
  let ?cfg = "\<lparr>sc_certs = [ls_server_cert_der at], sc_key = ls_server_key_der at, sc_client_auth = True\<rparr>"
  have "os_server_handle sv0 = handle_start (listener_run (connection_identity (pf_tls pf) (pf_accept pf) ?cfg))"
    using run by (cases mode) (auto simp: run_coord_def run_coord_one_off_def offchain_start_coord_def
        start_coord_with_browser_tls_def and_then_Ok_iff dest: native_listener_Ok split: option.splits)
  moreover have "os_shared sv0 = (case arg_one_off args of None \<Rightarrow> s | Some one_off \<Rightarrow> watch_for_shutdown_request (oo_execution_id one_off) s)"
    using run main_start(5) [OF main assms(2)]
    by (auto simp: run_coord_def run_coord_one_off_def offchain_start_coord_def
        start_coord_with_browser_tls_def and_then_Ok_iff split: option.splits)
  ultimately show thesis by (intro that [OF main]) simp_all
qed

lemma coordinator_program_start:
  assumes "coordinator_program pf host args = (Ok sv0 :: ('c, _) result)" and "vec_ok (arg_initial_mpc_nodes args)"
  shows "coord_reachable (os_shared sv0)" "srv_t (os_shared sv0) = arg_t args" "\<not> done_by (os_shared sv0) a p"
    "arg_one_off args = Some one_off \<Longrightarrow> srv_one_off_execution (os_shared sv0) = Some (oo_execution_id one_off)"
proof -
  from assms obtain s at mode where main: "run_coord_main host args = (Ok (s, at, mode) :: ('c, _) result)"
      and sv0: "os_shared sv0 = (case arg_one_off args of None \<Rightarrow> s | Some one_off \<Rightarrow> watch_for_shutdown_request (oo_execution_id one_off) s)"
    by (rule coordinator_program_Ok)
  note start = main_start [OF main assms(2)]
  show "coord_reachable (os_shared sv0)"
    using reachable_step [OF start(1) step_watch] start(1) by (simp add: sv0 split: option.split)
  show "srv_t (os_shared sv0) = arg_t args" "arg_one_off args = Some one_off \<Longrightarrow> srv_one_off_execution (os_shared sv0) = Some (oo_execution_id one_off)"
    using start(2) by (simp_all add: sv0 watch_for_shutdown_request_def split: option.split)
  have "\<not> execution_act d e a p" if "execution_new registration n = Ok d" for registration n d e
  proof -
    have "ex_output_shares d = []" using that by (auto simp: execution_new_def Let_def split: if_splits option.splits)
    then show ?thesis using execution_new_Ok(4,5) [OF that] by (cases a) simp_all
  qed
  then show "\<not> done_by (os_shared sv0) a p"
    using start(4,5) by (auto simp: sv0 done_by_def watch_for_shutdown_request_def split: option.splits if_splits)
qed

text \<open>
  \<open>p\<close> has made a call that stands for \<open>a\<close> over a connection of the native listener whose peer had
  signed the handshake with the key of a certificate for \<open>p\<close>.
\<close>

definition proven_call :: "'dss tls \<Rightarrow> ('tcp \<Rightarrow> bytes \<times> tls_version \<times> 'dss) \<Rightarrow> 'tcp action list \<Rightarrow> act \<Rightarrow> bytes \<Rightarrow> bool" where
  "proven_call t handshake trace a p \<longleftrightarrow>
     (\<exists>pre k call post tcp. trace = pre @ NativeCall k call # post \<and> party_act call = Some a \<and>
        NativeEvent (Accepted k tcp) \<in> set pre \<and> proven_identity t handshake tcp p)"

lemma acts_are_proven:
  assumes "coordinator_program pf host args = (Ok sv0 :: ('c, _) result)" and "vec_ok (arg_initial_mpc_nodes args)"
    and "tls_authenticates (pf_tls pf) handshake (pf_accept pf)"
    and "server_run (pf_crypto pf) sv0 trace sv" and "done_by (os_shared sv) a p"
  shows "proven_call (pf_tls pf) handshake trace a p"
proof -
  from assms(1,2) obtain cfg where cfg: "sc_client_auth cfg"
    and h: "os_server_handle sv0 = handle_start (listener_run (connection_identity (pf_tls pf) (pf_accept pf) cfg))"
    by (rule coordinator_program_Ok)
  have "server_inv (os_shared sv0)" by (rule coordinator.reachable_inv [OF coordinator_program_start(1) [OF assms(1,2)]])
  from server_run_acts [OF assms(4) h this assms(5)] coordinator_program_start(3) [OF assms(1,2)]
  obtain pre k call post tcp where "trace = pre @ NativeCall k call # post" "party_act call = Some a"
      "NativeEvent (Accepted k tcp) \<in> set pre" "connection_identity (pf_tls pf) (pf_accept pf) cfg tcp = Some p"
    unfolding called_by_def by blast
  with admitted_is_proven [OF assms(3) cfg] show ?thesis unfolding proven_call_def by blast
qed

lemma program_run:
  assumes "coordinator_program pf host args = (Ok sv0 :: ('c, _) result)" and "vec_ok (arg_initial_mpc_nodes args)"
    and "server_run (pf_crypto pf) sv0 trace sv"
  shows "coord_reachable (os_shared sv)" "srv_t (os_shared sv) = arg_t args"
proof -
  note start = coordinator_program_start [OF assms(1,2)]
  have inv: "server_inv (os_shared sv0)" by (rule coordinator.reachable_inv [OF start(1)])
  note run = server_run_shared [OF assms(3) inv]
  from run start(1) show "coord_reachable (os_shared sv)"
    by (induction rule: reachable.induct) (auto intro: reachable_step)
  from coordinator_run_roster [OF run inv] start(2) show "srv_t (os_shared sv) = arg_t args" by (simp add: same_roster_def)
qed

text \<open>An execution of actions, each call as a whole.\<close>

fun perform :: "net \<Rightarrow> 'tcp action \<Rightarrow> 'tcp OffChainCoordinatorServer \<Rightarrow> 'tcp OffChainCoordinatorServer option" where
  "perform net (NativeEvent event) sv = Some (sv\<lparr>os_server_handle := handle_event event (os_server_handle sv)\<rparr>)"
| "perform net (NativeCall k call) sv =
     map_option (\<lambda>caller. sv\<lparr>os_shared :=
         (case call of Inl base \<Rightarrow> fst (snd (serve_call net caller base (os_shared sv)))
          | Inr round \<Rightarrow> fst (snd (serve_stoffel_call caller round (os_shared sv))))\<rparr>)
       (map_of (handle_connections (os_server_handle sv)) k)"
| "perform net _ sv = None"

fun perform_all :: "net \<Rightarrow> 'tcp action list \<Rightarrow> 'tcp OffChainCoordinatorServer \<Rightarrow> 'tcp OffChainCoordinatorServer option" where
  "perform_all net [] sv = Some sv"
| "perform_all net (a # as) sv = Option.bind (perform net a sv) (perform_all net as)"

lemma perform_step: "perform net a sv = Some sv' \<Longrightarrow> server_step c sv a sv'"
proof (cases "(net, a, sv)" rule: perform.cases)
  case (2 net' k call sv1)
  assume "perform net a sv = Some sv'"
  with 2 obtain caller where "map_of (handle_connections (os_server_handle sv)) k = Some caller" and
      sv': "sv' = sv\<lparr>os_shared := (case call of Inl base \<Rightarrow> fst (snd (serve_call net caller base (os_shared sv)))
          | Inr round \<Rightarrow> fst (snd (serve_stoffel_call caller round (os_shared sv))))\<rparr>" by auto
  then have "(k, caller) \<in> set (handle_connections (os_server_handle sv))" by (simp add: map_of_SomeD)
  moreover have "call_section caller call (os_shared sv) (os_shared sv')"
    by (auto simp: sv' sec_call sec_stoffel split: sum.split)
  ultimately have "server_step c sv (NativeCall k call) (sv\<lparr>os_shared := os_shared sv'\<rparr>)" by (rule sv_native_call)
  with 2 sv' show ?thesis by simp
qed (auto intro: sv_native_event)

lemma perform_all_run:
  "server_run c sv0 trace sv \<Longrightarrow> perform_all net as sv = Some sv' \<Longrightarrow> server_run c sv0 (trace @ as) sv'"
proof (induction as arbitrary: trace sv)
  case (Cons a as)
  then obtain sv1 where "perform net a sv = Some sv1" "perform_all net as sv1 = Some sv'"
    by (auto simp: bind_eq_Some_conv)
  with Cons.IH [of "trace @ [a]" sv1] run_action [OF Cons.prems(1) perform_step] show ?case by simp
qed simp

definition demo_platform :: "(bytes, bytes \<times> bytes, bytes, bytes, unit) platform" where
  "demo_platform = \<lparr>pf_tls = demo_tls, pf_bind = (\<lambda>_ _. None), pf_accept = demo_accept, pf_crypto = demo_crypto,
     pf_files = demo_files, pf_path = (\<lambda>_. ())\<rparr>"

definition demo_net :: net where
  "demo_net = \<lparr>net_ok = (\<lambda>_ _. True), net_closed = (\<lambda>_. False)\<rparr>"

abbreviation demo_one_off :: ExecutionId where
  "demo_one_off \<equiv> ExecutionId (7 # replicate 31 0)"

text \<open>Three of the four parties connect and take the one-off execution of the example to its end; the first asks for shutdown.\<close>

definition demo_trace :: "(bytes \<times> bytes) action list" where
  "demo_trace = map (\<lambda>k. NativeEvent (Accepted k ([97 + of_nat k], [97 + of_nat k, 5]))) [0, 1, 2] @
     concat (map (\<lambda>r. map (\<lambda>k. NativeCall k (Inl (Transition demo_one_off r))) [0, 1, 2])
       [Preprocessing, MPCExecution, OutputDistribution, ProgramFinished]) @
     [NativeCall 0 (Inl RequestShutdown)]"

definition demo_server :: "(bytes \<times> bytes) OffChainCoordinatorServer" where
  "demo_server = (case coordinator_program demo_platform demo_host demo_args :: (unit, _) result of Ok sv \<Rightarrow> sv)"

definition demo_end :: "(bytes \<times> bytes) OffChainCoordinatorServer" where
  "demo_end = the (perform_all demo_net demo_trace demo_server)"

lemma demo_program: "coordinator_program demo_platform demo_host demo_args = (Ok demo_server :: (unit, _) result)"
proof -
  have "case coordinator_program demo_platform demo_host demo_args :: (unit, _) result of Ok _ \<Rightarrow> True | _ \<Rightarrow> False"
    by code_simp
  then show ?thesis
    by (cases "coordinator_program demo_platform demo_host demo_args :: (unit, _) result") (simp_all add: demo_server_def)
qed

lemma demo_server_run: "server_run demo_crypto demo_server demo_trace demo_end"
proof -
  have "\<not> Option.is_none (perform_all demo_net demo_trace demo_server)" by code_simp
  then have "perform_all demo_net demo_trace demo_server = Some demo_end" by (auto simp: demo_end_def Option.is_none_def)
  from perform_all_run [OF run_start this] show ?thesis by simp
qed

section \<open>The end of a one-off coordinator\<close>

lemma server_run_one_off:
  assumes "server_run c sv0 trace sv" and "server_inv (os_shared sv0)"
  shows "srv_one_off_execution (os_shared sv) = srv_one_off_execution (os_shared sv0)"
  using assms(1)
proof (induction rule: server_run.induct)
  case (run_action trace sv a sv')
  from run_action(2) have "srv_one_off_execution (os_shared sv') = srv_one_off_execution (os_shared sv)"
  proof cases
    case (sv_native_call k caller call s)
    with call_section_acts [OF sv_native_call(4)] show ?thesis by (simp add: adds_act_def)
  next
    case (sv_browser_method h st k now st')
    with method_section_acts [OF sv_browser_method(5), of undefined] show ?thesis by (simp add: adds_act_def)
  qed (simp_all add: server_shutdown_def Let_def)
  with run_action(3) show ?case by simp
qed simp

lemma handle_shutdown_connections:
  assumes "rh_run h = listener_run admit"
  shows "handle_connections (handle_shutdown h) = []"
  using served_was_admitted [of _ _ admit "rh_events h @ [ShutdownReceived]"] assms
  by (cases "handle_connections (handle_shutdown h)") (auto simp: handle_connections_def handle_shutdown_def handle_event_def)

end
