(* ===== verification/Node_Service_Properties.thy ===== *)
theory Node_Service_Properties
  imports Node_Service Node_Properties Service_Properties
begin

text \<open>
  Properties of the running off-chain node: who receives what it sends. A pending request is always
  one that a client has made over a connection the native listener has admitted as that client, so
  the shares that answer it go to the peer that has proven the key of their owner.
\<close>

section \<open>Pending requests\<close>

definition pending :: "NodeRPCServerInternal \<Rightarrow> ExecutionId \<Rightarrow> ClientIdentity \<Rightarrow> AssignedMaskRequest \<Rightarrow> bool" where
  "pending s e client req \<longleftrightarrow> (\<exists>d. map_of s e = Some d \<and> nd_assigned_sinks d client = Some req)"

lemma complete_requests_sinks:
  "nd_assigned_sinks (snd (complete_requests touched d acc)) client = Some req \<Longrightarrow> nd_assigned_sinks d client = Some req"
proof (induction touched arbitrary: d acc)
  case (Cons a touched)
  from Cons.prems show ?case
    by (auto simp: Let_def dest!: Cons.IH split: option.splits result.splits if_splits)
qed simp

lemma record_shares_sinks: "nd_assigned_sinks (snd (record_shares serialize shares d touched)) = nd_assigned_sinks d"
  by (induction serialize shares d touched rule: record_shares.induct) (auto simp: Let_def split: option.split)

lemma batch_sinks:
  "nd_assigned_sinks (snd (node_add_reservations rs d)) client = Some req \<Longrightarrow> nd_assigned_sinks d client = Some req"
  "nd_assigned_sinks (snd (node_add_shares serialize shares d)) client = Some req \<Longrightarrow> nd_assigned_sinks d client = Some req"
proof -
  obtain d0 touched where "register_reservations rs d [] = (d0, touched)" by (cases "register_reservations rs d []")
  with register_reservations_frame(1) [of rs d "[]"]
  show "nd_assigned_sinks (snd (node_add_reservations rs d)) client = Some req \<Longrightarrow> nd_assigned_sinks d client = Some req"
    by (auto simp: node_add_reservations_def dest: complete_requests_sinks split: if_splits)
  obtain r d1 where "record_shares serialize shares d [] = (r, d1)" by (cases "record_shares serialize shares d []")
  with record_shares_sinks [of serialize shares d "[]"]
  show "nd_assigned_sinks (snd (node_add_shares serialize shares d)) client = Some req \<Longrightarrow> nd_assigned_sinks d client = Some req"
    by (cases r) (auto simp: node_add_shares_def dest: complete_requests_sinks split: if_splits)
qed

lemma node_with_execution_pending:
  assumes "\<And>d. nd_assigned_sinks (snd (f d)) client = Some req \<Longrightarrow> nd_assigned_sinks d client = Some req"
    and "pending (fst (snd (node_with_execution e s f))) e' client req"
  shows "pending s e' client req"
proof (cases "map_of s e")
  case (Some d)
  obtain x d' where f: "f d = (x, d')" by (cases "f d")
  then have "map_of (fst (snd (node_with_execution e s f))) = (map_of s)(e \<mapsto> d')"
    by (cases x) (simp_all add: node_with_execution_def Some hm_simps fun_eq_iff)
  with assms(2) Some assms(1) [of d] f show ?thesis by (cases "e' = e") (auto simp: pending_def)
next
  case None
  with assms(2) show ?thesis by (simp add: node_with_execution_def)
qed

lemma receive_pending:
  assumes "pending (fst (snd (receive_assigned_mask_shares ok accepted caller e start cnt s))) e' client req"
  shows "pending s e' client req \<or>
    e' = e \<and> client = caller \<and> accepted = Some (req_sink req) \<and> req_start req = start \<and> req_count req = cnt"
proof (cases "map_of s e")
  case (Some d)
  let ?d = "d\<lparr>nd_assigned_sinks := (nd_assigned_sinks d)(caller := None)\<rparr>"
  let ?req = "\<lambda>k. \<lparr>req_start = start, req_count = cnt, req_sink = k\<rparr>"
  obtain d' where d': "fst (snd (receive_assigned_mask_shares ok accepted caller e start cnt s)) = AList.update e d' s"
      and or: "d' = ?d \<or> (\<exists>k. accepted = Some k \<and> d' = d\<lparr>nd_assigned_sinks := (nd_assigned_sinks d)(caller \<mapsto> ?req k)\<rparr>)"
  proof (cases "assigned_mask_shares_for_client ?d caller start cnt")
    case (Ok shares)
    with that Some show thesis
      by (cases shares; cases accepted) (auto simp: receive_assigned_mask_shares_def)
  qed (use that Some in \<open>auto simp: receive_assigned_mask_shares_def\<close>)
  have "map_of (AList.update e d' s) = (map_of s)(e \<mapsto> d')" by (simp add: hm_simps fun_eq_iff)
  with assms Some or show ?thesis by (cases "e' = e") (auto simp: d' pending_def split: if_splits)
next
  case None
  with assms show ?thesis by (simp add: receive_assigned_mask_shares_def)
qed

lemma browser_methods_node:
  "nb_node (snd (assigned_mask_shares_method c sj now params st)) = nb_node st"
  "node_bind_method c draws bind st = Some (b, st') \<Longrightarrow> nb_node st' = nb_node st"
proof -
  show "nb_node (snd (assigned_mask_shares_method c sj now params st)) = nb_node st"
    by (simp add: assigned_mask_shares_method_def split: option.split prod.split result.split)
  show "node_bind_method c draws bind st = Some (b, st') \<Longrightarrow> nb_node st' = nb_node st"
    by (clarsimp simp: node_bind_method_def split: option.splits prod.splits result.splits)
qed

lemma node_step_pending:
  assumes "node_server_step c sv a ds sv'" and "pending (ns_node sv') e client req"
  shows "pending (ns_node sv) e client req \<or>
    (\<exists>k. a = NodeSubscribe k (Some (req_sink req)) e (req_start req) (req_count req) \<and>
       (k, client) \<in> set (handle_connections (ns_server_handle sv)))"
  using assms(1)
proof cases
  case (nv_subscribe k caller ok accepted e' start cnt r node)
  with receive_pending [of ok accepted caller e' start cnt "ns_node sv" e client req] assms(2) show ?thesis by auto
next
  case (nv_reserve e' rs r node)
  with node_with_execution_pending [where f = "node_add_reservations rs" and s = "ns_node sv" and e = e', OF batch_sinks(1)] assms(2) show ?thesis
    by (simp add: add_assigned_reserved_indices_for_execution_def)
next
  case (nv_share e' shares r node)
  with node_with_execution_pending [where f = "node_add_shares (\<lambda>outcome. outcome) shares" and s = "ns_node sv" and e = e', OF batch_sinks(2)] assms(2)
  show ?thesis by (simp add: add_mask_shares_for_execution_def)
next
  case (nv_register e')
  with assms(2) show ?thesis
    by (auto simp: node_register_execution_def pending_def node_execution_new_def hm_simps split: if_splits)
next
  case (nv_retire e')
  with assms(2) show ?thesis by (auto simp: node_retire_execution_def pending_def hm_simps split: if_splits)
next
  case (nv_browser_shares h st k st' sj now params)
  with assms(2) show ?thesis by (simp add: browser_methods_node(1))
next
  case (nv_browser_bind h st k draws params b st')
  with assms(2) browser_methods_node(2) [OF nv_browser_bind(6)] show ?thesis by simp
qed (use assms(2) in \<open>simp_all add: node_shutdown_def Let_def\<close>)

section \<open>Runs of the node\<close>

lemma node_server_step_node:
  assumes "node_server_step c sv a ds sv'" and "node_reachable (ns_node sv)"
  shows "node_reachable (ns_node sv')"
  using assms(1)
proof cases
  case (nv_subscribe k caller ok accepted e start cnt r node)
  with reachable_step [OF assms(2) node_step_receive [of "ns_node sv" ok accepted caller e start cnt]] show ?thesis by simp
next
  case (nv_reserve e rs r node)
  with reachable_step [OF assms(2) node_step_reserve [of "ns_node sv" e rs]] show ?thesis by simp
next
  case (nv_share e shares r node)
  with reachable_step [OF assms(2) node_step_share [of "ns_node sv" e shares]] show ?thesis by simp
next
  case (nv_register e)
  with reachable_step [OF assms(2) node_step_register] show ?thesis by simp
next
  case (nv_retire e)
  with reachable_step [OF assms(2) node_step_retire] show ?thesis by simp
next
  case (nv_browser_shares h st k st' sj now params)
  with assms(2) show ?thesis by (simp add: browser_methods_node(1))
next
  case (nv_browser_bind h st k draws params b st')
  with assms(2) browser_methods_node(2) [OF nv_browser_bind(6)] show ?thesis by simp
qed (use assms(2) in \<open>simp_all add: node_shutdown_def Let_def\<close>)

lemma node_server_run_node:
  "node_server_run c sv0 trace sv \<Longrightarrow> node_reachable (ns_node sv0) \<Longrightarrow> node_reachable (ns_node sv)"
  by (induction rule: node_server_run.induct) (auto intro: node_server_step_node)

fun node_native_event :: "'tcp node_action \<Rightarrow> 'tcp listener_event list" where
  "node_native_event (NodeNativeEvent event) = [event]"
| "node_native_event NodeShutdown = [ShutdownReceived]"
| "node_native_event _ = []"

lemma node_server_run_handle:
  assumes "node_server_run c sv0 trace sv"
  shows "rh_run (ns_server_handle sv) = rh_run (ns_server_handle sv0) \<and>
    rh_events (ns_server_handle sv) = rh_events (ns_server_handle sv0) @ concat (map node_native_event trace)"
  using assms
proof (induction rule: node_server_run.induct)
  case (node_run_action trace sv a ds sv')
  from node_run_action(2) show ?case
    by cases (simp_all add: node_run_action(3) handle_event_def node_shutdown_def handle_shutdown_def Let_def)
qed simp

text \<open>\<open>client\<close> has subscribed with this request on a connection the listener had admitted as \<open>client\<close>.\<close>

definition subscribed ::
  "('tcp \<Rightarrow> bytes \<Rightarrow> bool) \<Rightarrow> 'tcp node_action list \<Rightarrow> ExecutionId \<Rightarrow> ClientIdentity \<Rightarrow> AssignedMaskRequest \<Rightarrow> bool" where
  "subscribed shown trace e client req \<longleftrightarrow>
     (\<exists>pre k post tcp. trace = pre @ NodeSubscribe k (Some (req_sink req)) e (req_start req) (req_count req) # post \<and>
        NodeNativeEvent (Accepted k tcp) \<in> set pre \<and> shown tcp client)"

lemma subscribed_append: "subscribed shown trace e client req \<Longrightarrow> subscribed shown (trace @ later) e client req"
  unfolding subscribed_def by (metis append_Cons append_assoc)

lemma node_connection_admitted:
  assumes "node_server_run c sv0 trace sv" and "ns_server_handle sv0 = handle_start (listener_run admit)"
    and "(k, client) \<in> set (handle_connections (ns_server_handle sv))"
  shows "\<exists>tcp. NodeNativeEvent (Accepted k tcp) \<in> set trace \<and> admit tcp = Some client"
proof -
  have "(k, client) \<in> set (ln_connections (listener_run admit (concat (map node_native_event trace))))"
    using assms(3) node_server_run_handle [OF assms(1)] by (simp add: handle_connections_def assms(2) handle_start_def)
  from served_was_admitted [OF this] obtain tcp where tcp: "Accepted k tcp \<in> set (concat (map node_native_event trace))"
      "admit tcp = Some client" by blast
  have "Accepted k tcp \<in> set (node_native_event a) \<longleftrightarrow> a = NodeNativeEvent (Accepted k tcp)" for a
    by (cases a) auto
  with tcp show ?thesis by auto
qed

lemma node_server_run_pending:
  assumes "node_server_run c sv0 trace sv" and "ns_server_handle sv0 = handle_start (listener_run admit)"
    and "\<And>e client req. \<not> pending (ns_node sv0) e client req" and "pending (ns_node sv) e client req"
  shows "subscribed (\<lambda>tcp client. admit tcp = Some client) trace e client req"
  using assms(1,4)
proof (induction rule: node_server_run.induct)
  case (node_run_action trace sv a ds sv')
  from node_step_pending [OF node_run_action(2,4)] show ?case
  proof (elim disjE exE conjE)
    assume "pending (ns_node sv) e client req"
    with node_run_action(3) show ?thesis by (blast intro: subscribed_append)
  next
    fix k
    assume a: "a = NodeSubscribe k (Some (req_sink req)) e (req_start req) (req_count req)"
      and "(k, client) \<in> set (handle_connections (ns_server_handle sv))"
    with node_connection_admitted [OF node_run_action(1) assms(2)] obtain tcp
      where "NodeNativeEvent (Accepted k tcp) \<in> set trace" "admit tcp = Some client" by blast
    with a show ?thesis unfolding subscribed_def by blast
  qed
qed (simp add: assms(3))

section \<open>Who receives mask shares\<close>

lemma batch_step_sends:
  assumes "node_reachable s" and "node_with_execution e s b = (r, s', ds)" and "(k, m) \<in> set ds"
    and "b = node_add_reservations rs \<or> b = node_add_shares serialize shares"
  shows "\<exists>d client req. map_of s' e = Some d \<and> k = req_sink req \<and> owned_shares d client req \<and>
    m = shares_message d req \<and> pending s e client req"
proof -
  from assms(2,3) obtain d d' where d: "map_of s e = Some d" "b d = (Ok ds, d')" "s' = AList.update e d' s"
    by (auto simp: node_with_execution_def split: option.splits prod.splits result.splits)
  have "node_exec_inv d" using node.reachable_inv [OF assms(1)] d(1) by (simp add: node_inv_def)
  from batch_sends_to_owner [OF this assms(4) d(2) assms(3)] d(1,3) show ?thesis
    by (fastforce simp: pending_def hm_simps)
qed

lemma subscribe_sends:
  assumes "node_reachable s" and "receive_assigned_mask_shares ok accepted caller e start cnt s = (r, s', ds)"
    and "(k, m) \<in> set ds"
  shows "accepted = Some k \<and> (\<exists>d. map_of s' e = Some d \<and> owned_shares d caller \<lparr>req_start = start, req_count = cnt, req_sink = k\<rparr> \<and>
    m = shares_message d \<lparr>req_start = start, req_count = cnt, req_sink = k\<rparr>)"
proof -
  from assms(2,3) obtain d where d: "map_of s e = Some d"
    by (cases "map_of s e") (auto simp: receive_assigned_mask_shares_def)
  have "node_exec_inv d" using node.reachable_inv [OF assms(1)] d by (simp add: node_inv_def)
  note sent = receive_sends_to_caller [OF this d assms(2,3)]
  let ?d = "d\<lparr>nd_assigned_sinks := (nd_assigned_sinks d)(caller := None)\<rparr>"
  have "same_slots d ?d" by simp
  note same = same_slots_owned [OF this]
  have "s' = AList.update e ?d s"
    using assms(2,3) d
    by (auto simp: receive_assigned_mask_shares_def Let_def split: result.splits option.splits)
  then have "map_of s' e = Some ?d" by (simp add: hm_simps)
  with sent same show ?thesis by auto
qed

lemma node_step_sends:
  assumes "node_server_step c sv a ds sv'" and "node_reachable (ns_node sv)" and "(k, m) \<in> set ds"
  shows "\<exists>e d client req. map_of (ns_node sv') e = Some d \<and> k = req_sink req \<and> owned_shares d client req \<and>
    m = shares_message d req \<and> (pending (ns_node sv) e client req \<or>
      (\<exists>j. a = NodeSubscribe j (Some (req_sink req)) e (req_start req) (req_count req) \<and>
         (j, client) \<in> set (handle_connections (ns_server_handle sv))))"
  using assms(1)
proof cases
  case (nv_subscribe j caller ok accepted e start cnt r node)
  with subscribe_sends [OF assms(2) nv_subscribe(4) assms(3)] show ?thesis
    by (intro exI [of _ e] exI [of _ "the (map_of node e)"] exI [of _ caller]
        exI [of _ "\<lparr>req_start = start, req_count = cnt, req_sink = k\<rparr>"]) auto
next
  case (nv_reserve e rs r node)
  from batch_step_sends [OF assms(2) nv_reserve(3) [unfolded add_assigned_reserved_indices_for_execution_def] assms(3) disjI1 [OF refl]]
  show ?thesis unfolding nv_reserve(2) by auto
next
  case (nv_share e shares r node)
  from batch_step_sends [OF assms(2) nv_share(3) [unfolded add_mask_shares_for_execution_def] assms(3) disjI2 [OF refl]]
  show ?thesis unfolding nv_share(2) by auto
qed (use assms(3) in simp_all)

text \<open>A node that has been started in one of the three ways.\<close>

definition node_started :: "('dss, 'tcp, 'vk, 'sig, 'p) platform \<Rightarrow> 'tcp NodeRPCServer \<Rightarrow> bool" where
  "node_started pf sv \<longleftrightarrow> (\<exists>addr port cert_der key_der.
     node_start pf addr port cert_der key_der = Ok sv \<or>
     (\<exists>e. node_start_for_execution pf addr port e cert_der key_der = Ok sv) \<or>
     (\<exists>b_addr b_port chain key rp_id. node_start_with_browser_tls pf addr port cert_der key_der b_addr b_port chain key rp_id = Ok sv))"

lemma native_listener_handle:
  assumes "native_listener pf addr port cert_der key_der = Ok h"
  shows "\<exists>cfg. sc_client_auth cfg \<and> h = handle_start (listener_run (connection_identity (pf_tls pf) (pf_accept pf) cfg))"
  using assms
  by (auto simp: native_listener_def and_then_Ok_iff dest!: start_coord_Ok
      intro: exI [of _ "\<lparr>sc_certs = [cert_der], sc_key = key_der, sc_client_auth = True\<rparr>"])

lemma node_start_Ok:
  "node_start pf addr port cert_der key_der = Ok sv \<Longrightarrow>
     native_listener pf addr port cert_der key_der = Ok (ns_server_handle sv) \<and> ns_node sv = []"
  "node_start_for_execution pf addr port e cert_der key_der = Ok sv \<Longrightarrow>
     native_listener pf addr port cert_der key_der = Ok (ns_server_handle sv) \<and>
     ns_node sv = snd (node_register_execution e [])"
  "node_start_with_browser_tls pf addr port cert_der key_der b_addr b_port chain key rp_id = Ok sv \<Longrightarrow>
     native_listener pf addr port cert_der key_der = Ok (ns_server_handle sv) \<and> ns_node sv = []"
  by (auto simp: node_start_def node_start_for_execution_def node_start_with_browser_tls_def and_then_Ok_iff
      split_beta Let_def)

lemma node_startedD:
  assumes "node_started pf sv"
  shows "\<exists>cfg. sc_client_auth cfg \<and>
      ns_server_handle sv = handle_start (listener_run (connection_identity (pf_tls pf) (pf_accept pf) cfg))"
    and "node_reachable (ns_node sv)" and "\<not> pending (ns_node sv) e client req"
proof -
  from assms obtain addr port cert_der key_der where h: "native_listener pf addr port cert_der key_der = Ok (ns_server_handle sv)"
      and node: "ns_node sv = [] \<or> (\<exists>e. ns_node sv = snd (node_register_execution e []))"
    unfolding node_started_def by (metis node_start_Ok)
  from native_listener_handle [OF h] show "\<exists>cfg. sc_client_auth cfg \<and>
      ns_server_handle sv = handle_start (listener_run (connection_identity (pf_tls pf) (pf_accept pf) cfg))" .
  have empty: "node_reachable []" by (rule reachable_init) (simp add: node_init_def)
  from node reachable_step [OF empty node_step_register] empty show "node_reachable (ns_node sv)" by auto
  from node show "\<not> pending (ns_node sv) e client req"
    by (auto simp: pending_def node_register_execution_def node_execution_new_def split: if_splits)
qed

text \<open>
  A client connects and subscribes to slot 0 of an execution; the node then learns that the client
  has reserved the slot, and then its share.
\<close>

abbreviation demo_node_id :: ExecutionId where
  "demo_node_id \<equiv> ExecutionId [7]"

definition demo_node_start :: "(bytes \<times> bytes) NodeRPCServer" where
  "demo_node_start = (case node_start_for_execution demo_platform ''h'' 1 demo_node_id [1] [2] of Ok sv \<Rightarrow> sv)"

definition demo_node_connected :: "(bytes \<times> bytes) NodeRPCServer" where
  "demo_node_connected = demo_node_start\<lparr>ns_server_handle := handle_event (Accepted 0 ([21], [21, 5])) (ns_server_handle demo_node_start)\<rparr>"

definition demo_node_subscribed :: "(bytes \<times> bytes) NodeRPCServer" where
  "demo_node_subscribed = demo_node_connected\<lparr>ns_node :=
     fst (snd (receive_assigned_mask_shares (\<lambda>_ _. True) (Some 3) [21] demo_node_id 0 1 (ns_node demo_node_connected)))\<rparr>"

definition demo_node_reserved :: "(bytes \<times> bytes) NodeRPCServer" where
  "demo_node_reserved = demo_node_subscribed\<lparr>ns_node :=
     fst (snd (add_assigned_reserved_indices_for_execution demo_node_id
       [\<lparr>amr_client = [21], amr_reserved_index = 0, amr_input_ordinal = 0\<rparr>] (ns_node demo_node_subscribed)))\<rparr>"

lemma demo_node_run:
  "node_server_run c demo_node_start [NodeNativeEvent (Accepted 0 ([21], [21, 5])), NodeSubscribe 0 (Some 3) demo_node_id 0 1, NodeOwnCall]
     demo_node_reserved"
proof -
  have "(0, [21]) \<in> set (handle_connections (ns_server_handle demo_node_connected))" by code_simp
  then have sub: "node_server_step c demo_node_connected (NodeSubscribe 0 (Some 3) demo_node_id 0 1)
      (snd (snd (receive_assigned_mask_shares (\<lambda>_ _. True) (Some 3) [21] demo_node_id 0 1 (ns_node demo_node_connected))))
      demo_node_subscribed"
    unfolding demo_node_subscribed_def by (rule nv_subscribe) (rule prod_eqI; simp)
  have res: "node_server_step c demo_node_subscribed NodeOwnCall
      (snd (snd (add_assigned_reserved_indices_for_execution demo_node_id
       [\<lparr>amr_client = [21], amr_reserved_index = 0, amr_input_ordinal = 0\<rparr>] (ns_node demo_node_subscribed)))) demo_node_reserved"
    unfolding demo_node_reserved_def by (rule nv_reserve) (rule prod_eqI; simp)
  have "node_server_step c demo_node_start (NodeNativeEvent (Accepted 0 ([21], [21, 5]))) [] demo_node_connected"
    unfolding demo_node_connected_def by (rule nv_native_event)
  from node_run_action [OF node_run_action [OF node_run_action [OF node_run_start this] sub] res] show ?thesis by simp
qed

end
