(* ===== verification/Onchain_Node_Properties.thy ===== *)
theory Onchain_Node_Properties
  imports Onchain_Node "HOL-Library.Multiset"
begin

text \<open>
  What an on-chain node guarantees: it gives a mask share only on the signature of the address that
  reserved the mask, it gives it in whatever order request, reservation and share arrive, and it
  keeps identities and addresses apart. Two lemmas show where the code misses its intention.
\<close>

section \<open>Entries\<close>

lemma find_entry_Some: "find_entry addr entries = Some (tls_id, a, sig) \<Longrightarrow> a = addr \<and> (tls_id, addr, sig) \<in> set entries"
  by (auto simp: find_entry_def find_Some_iff in_set_conv_nth)

lemma find_entry_None: "find_entry addr entries = None \<longleftrightarrow> addr \<notin> fst ` snd ` set entries"
  by (force simp: find_entry_def find_None_iff)

lemma find_entry_append:
  "find_entry addr (entries @ [(tls_id, a, sig)]) =
     (case find_entry addr entries of
        Some e \<Rightarrow> Some e | None \<Rightarrow> if a = addr then Some (tls_id, a, sig) else None)"
  by (induction entries) (auto simp: find_entry_def)

lemma find_entry_take:
  "find_entry a (take_sig addr entries) =
     (if a = addr then map_option (\<lambda>(tls_id, b, _). (tls_id, b, None)) (find_entry a entries) else find_entry a entries)"
  by (induction addr entries rule: take_sig.induct) (auto simp: find_entry_def)

lemma take_sig_ids [simp]:
  "map fst (take_sig addr entries) = map fst entries"
  "map (fst \<circ> snd) (take_sig addr entries) = map (fst \<circ> snd) entries"
  by (induction addr entries rule: take_sig.induct) auto

section \<open>Mask shares go to the owner only\<close>

text \<open>What a request must have brought for its sink to get shares of address \<open>a\<close>.\<close>

definition proven ::
  "('sk, 'sig) eth \<Rightarrow> u64 \<Rightarrow> 's node_call set \<Rightarrow> sink_id \<Rightarrow> Address \<Rightarrow> bool" where
  "proven c base calls k a \<longleftrightarrow>
     (\<exists>tls_id sig j. ReceiveMaskShare (Some k) tls_id sig a \<in> calls \<and> AddReservedIndex a j \<in> calls \<and>
        signature_ok c base j a sig)"

definition onchain_inv :: "('sk, 'sig) eth \<Rightarrow> u64 \<Rightarrow> 's node_call set \<Rightarrow> 's NodeRPCServerShared \<Rightarrow> bool" where
  "onchain_inv c base calls d \<longleftrightarrow> oc_base_nonce d = base \<and>
     (\<forall>i a. oc_index_to_client d i = Some a \<longrightarrow> AddReservedIndex a i \<in> calls) \<and>
     (\<forall>i a. oc_client_to_index d a = Some i \<longrightarrow> AddReservedIndex a i \<in> calls) \<and>
     (\<forall>i share. oc_mask_shares d i = Some share \<longrightarrow> AddMaskShare i share \<in> calls) \<and>
     (\<forall>a \<in> oc_authenticated d. oc_client_to_index d a \<noteq> None) \<and>
     (\<forall>a k. oc_sinks d a = Some k \<longrightarrow>
        (\<exists>tls_id p. find_entry a (oc_ids_and_addrs d) = Some (tls_id, a, p) \<and>
           (a \<in> oc_authenticated d \<longrightarrow> proven c base calls k a) \<and>
           (\<forall>sig. p = Some sig \<longrightarrow> ReceiveMaskShare (Some k) tls_id sig a \<in> calls)))"

lemma onchain_inv_new: "onchain_inv c base {} (onchain_node_new base)"
  by (simp add: onchain_inv_def onchain_node_new_def)

lemma proven_mono: "proven c base A k a \<Longrightarrow> A \<subseteq> B \<Longrightarrow> proven c base B k a"
  by (auto simp: proven_def)

definition earned ::
  "('sk, 'sig) eth \<Rightarrow> ('s, 'j) wire \<Rightarrow> u64 \<Rightarrow> 's node_call set \<Rightarrow> sink_id \<Rightarrow> 'j \<Rightarrow> bool" where
  "earned c w base calls k json \<longleftrightarrow>
     (\<exists>a i share. proven c base calls k a \<and> AddReservedIndex a i \<in> calls \<and> AddMaskShare i share \<in> calls \<and>
        Option.bind (serialize_share w share) (to_json_raw_value w) = Some json)"

lemma earnedI:
  "proven c base calls k a \<Longrightarrow> AddReservedIndex a i \<in> calls \<Longrightarrow> AddMaskShare i share \<in> calls \<Longrightarrow>
     Option.bind (serialize_share w share) (to_json_raw_value w) = Some json \<Longrightarrow> earned c w base calls k json"
  by (auto simp: earned_def)

lemma send_share_earned:
  assumes "(k', json) \<in> set (snd (send_share w ok k share))"
  shows "k' = k \<and> Option.bind (serialize_share w share) (to_json_raw_value w) = Some json"
  using assms by (auto simp: send_share_def split: option.splits)

lemma inv_mono: "onchain_inv c base A d \<Longrightarrow> A \<subseteq> B \<Longrightarrow> onchain_inv c base B d"
  unfolding onchain_inv_def by (meson proven_mono subsetD)

lemma add_mask_share_inv:
  assumes "onchain_inv c base calls d" and "AddMaskShare i share \<in> calls"
  shows "onchain_inv c base calls (fst (snd (add_mask_share w ok i share d)))"
    and "(k, json) \<in> set (snd (snd (add_mask_share w ok i share d))) \<Longrightarrow> earned c w base calls k json"
proof -
  show "onchain_inv c base calls (fst (snd (add_mask_share w ok i share d)))"
  proof (cases "oc_mask_shares d i")
    case None
    then have "fst (snd (add_mask_share w ok i share d)) = d\<lparr>oc_mask_shares := (oc_mask_shares d)(i \<mapsto> share)\<rparr>"
      by (auto simp: add_mask_share_def Let_def split: option.splits)
    then show ?thesis using assms by (simp add: onchain_inv_def)
  qed (use assms in \<open>simp add: add_mask_share_def\<close>)
  assume "(k, json) \<in> set (snd (snd (add_mask_share w ok i share d)))"
  then obtain a where "oc_index_to_client d i = Some a" "a \<in> oc_authenticated d" "oc_sinks d a = Some k"
      "Option.bind (serialize_share w share) (to_json_raw_value w) = Some json"
    by (auto simp: add_mask_share_def Let_def dest: send_share_earned split: if_splits option.splits)
  then show "earned c w base calls k json"
    using assms unfolding onchain_inv_def earned_def by blast
qed

lemma onchain_reserve_inv:
  "onchain_inv c base calls d \<Longrightarrow> AddReservedIndex addr i \<in> calls \<Longrightarrow>
     onchain_inv c base calls (d\<lparr>oc_index_to_client := (oc_index_to_client d)(i \<mapsto> addr),
       oc_client_to_index := (oc_client_to_index d)(addr \<mapsto> i)\<rparr>)"
  by (auto simp: onchain_inv_def)

lemma take_sig_inv:
  assumes "onchain_inv c base calls d"
  shows "onchain_inv c base calls (d\<lparr>oc_ids_and_addrs := take_sig addr (oc_ids_and_addrs d)\<rparr>)"
proof -
  have "\<exists>tls_id p. find_entry a (take_sig addr (oc_ids_and_addrs d)) = Some (tls_id, a, p) \<and>
      (a \<in> oc_authenticated d \<longrightarrow> proven c base calls k a) \<and>
      (\<forall>sig. p = Some sig \<longrightarrow> ReceiveMaskShare (Some k) tls_id sig a \<in> calls)" if "oc_sinks d a = Some k" for a k
  proof -
    from assms that obtain tls_id p where "find_entry a (oc_ids_and_addrs d) = Some (tls_id, a, p)"
        "a \<in> oc_authenticated d \<longrightarrow> proven c base calls k a"
        "\<forall>sig. p = Some sig \<longrightarrow> ReceiveMaskShare (Some k) tls_id sig a \<in> calls"
      unfolding onchain_inv_def by blast
    then show ?thesis by (cases "a = addr") (simp_all add: find_entry_take)
  qed
  then show ?thesis using assms unfolding onchain_inv_def by simp
qed

lemma authenticate_inv:
  assumes "onchain_inv c base calls d" and "oc_client_to_index d addr \<noteq> None"
    and "\<And>k. oc_sinks d addr = Some k \<Longrightarrow> proven c base calls k addr"
  shows "onchain_inv c base calls (d\<lparr>oc_authenticated := insert addr (oc_authenticated d)\<rparr>)"
proof -
  have "\<exists>tls_id p. find_entry a (oc_ids_and_addrs d) = Some (tls_id, a, p) \<and>
      (a \<in> insert addr (oc_authenticated d) \<longrightarrow> proven c base calls k a) \<and>
      (\<forall>sig. p = Some sig \<longrightarrow> ReceiveMaskShare (Some k) tls_id sig a \<in> calls)" if "oc_sinks d a = Some k" for a k
    using assms that unfolding onchain_inv_def by blast
  then show ?thesis using assms unfolding onchain_inv_def by simp
qed

lemma add_reserved_index_inv:
  assumes inv: "onchain_inv c base calls d" and call: "AddReservedIndex addr i \<in> calls"
  shows "onchain_inv c base calls (fst (snd (add_reserved_index c w ok addr i d))) \<and>
    (\<forall>(k, json) \<in> set (snd (snd (add_reserved_index c w ok addr i d))). earned c w base calls k json)"
proof -
  let ?d1 = "d\<lparr>oc_index_to_client := (oc_index_to_client d)(i \<mapsto> addr), oc_client_to_index := (oc_client_to_index d)(addr \<mapsto> i)\<rparr>"
  let ?d2 = "?d1\<lparr>oc_ids_and_addrs := take_sig addr (oc_ids_and_addrs ?d1)\<rparr>"
  let ?d3 = "?d2\<lparr>oc_authenticated := insert addr (oc_authenticated ?d2)\<rparr>"
  have inv1: "onchain_inv c base calls ?d1" by (rule onchain_reserve_inv [OF inv call])
  have inv2: "onchain_inv c base calls ?d2" by (rule take_sig_inv [OF inv1])
  have base: "oc_base_nonce d = base" using inv by (simp add: onchain_inv_def)
  have share: "AddMaskShare i share \<in> calls" if "oc_mask_shares d i = Some share" for share
    using inv that by (simp add: onchain_inv_def)
  have proven: "proven c base calls k addr"
    if "oc_sinks d addr = Some k" "find_entry addr (oc_ids_and_addrs d) = Some (tls_id, a, Some sig)"
      "signature_ok c base i addr sig" for k tls_id a sig
  proof -
    have "ReceiveMaskShare (Some k) tls_id sig addr \<in> calls" using inv that(1,2) unfolding onchain_inv_def by fastforce
    then show ?thesis using call that(3) by (auto simp: proven_def)
  qed
  have inv3: "onchain_inv c base calls ?d3"
    if "find_entry addr (oc_ids_and_addrs d) = Some (tls_id, a, Some sig)" "signature_ok c base i addr sig" for tls_id a sig
    using that proven by (intro authenticate_inv [OF inv2]) auto
  have sent: "earned c w base calls k json"
    if "(k, json) \<in> set (snd (send_share w ok k' share'))" "oc_mask_shares d i = Some share'" "oc_sinks d addr = Some k'"
      "find_entry addr (oc_ids_and_addrs d) = Some (tls_id, a, Some sig)" "signature_ok c base i addr sig"
    for k json k' share' tls_id a sig
    using send_share_earned [OF that(1)] proven [OF that(3-5)] share [OF that(2)] call by (auto intro: earnedI)
  show ?thesis
    using inv inv1 inv2 inv3 base sent
    by (auto simp: add_reserved_index_def Let_def split: option.splits)
qed


lemma wait_inv:
  assumes "onchain_inv c base calls d" and "addr \<notin> fst ` snd ` set (oc_ids_and_addrs d)"
    and "addr \<in> oc_authenticated d \<Longrightarrow> proven c base calls k addr"
    and "\<And>sig. p = Some sig \<Longrightarrow> ReceiveMaskShare (Some k) self_id sig addr \<in> calls"
  shows "onchain_inv c base calls (d\<lparr>oc_sinks := (oc_sinks d)(addr \<mapsto> k),
    oc_ids_and_addrs := oc_ids_and_addrs d @ [(self_id, addr, p)]\<rparr>)"
proof -
  have new: "find_entry addr (oc_ids_and_addrs d @ [(self_id, addr, p)]) = Some (self_id, addr, p)"
    using assms(2) by (simp add: find_entry_append flip: find_entry_None)
  have "\<exists>tls_id p'. find_entry a (oc_ids_and_addrs d @ [(self_id, addr, p)]) = Some (tls_id, a, p') \<and>
      (a \<in> oc_authenticated d \<longrightarrow> proven c base calls k' a) \<and>
      (\<forall>sig. p' = Some sig \<longrightarrow> ReceiveMaskShare (Some k') tls_id sig a \<in> calls)"
    if "((oc_sinks d)(addr \<mapsto> k)) a = Some k'" for a k'
  proof (cases "a = addr")
    case True
    with that new assms(3,4) show ?thesis by simp
  next
    case False
    with that assms(1) obtain tls_id p' where "find_entry a (oc_ids_and_addrs d) = Some (tls_id, a, p')"
        "a \<in> oc_authenticated d \<longrightarrow> proven c base calls k' a"
        "\<forall>sig. p' = Some sig \<longrightarrow> ReceiveMaskShare (Some k') tls_id sig a \<in> calls"
      unfolding onchain_inv_def by (metis fun_upd_other)
    then show ?thesis by (simp add: find_entry_append)
  qed
  then show ?thesis using assms(1) unfolding onchain_inv_def by simp
qed

lemma append_entry_inv:
  "onchain_inv c base calls d \<Longrightarrow> onchain_inv c base calls (d\<lparr>oc_ids_and_addrs := oc_ids_and_addrs d @ [(self_id, addr, p)]\<rparr>)"
  unfolding onchain_inv_def by (simp add: find_entry_append) (metis option.simps(5))

lemma receive_mask_share_inv:
  assumes inv: "onchain_inv c base calls d" and call: "ReceiveMaskShare accepted self_id sig addr \<in> calls"
  shows "onchain_inv c base calls (fst (snd (receive_mask_share c w ok accepted self_id sig addr d))) \<and>
    (\<forall>(k, json) \<in> set (snd (snd (receive_mask_share c w ok accepted self_id sig addr d))). earned c w base calls k json)"
proof (cases "\<exists>(id, prev_addr, _) \<in> set (oc_ids_and_addrs d). self_id = id \<or> addr = prev_addr")
  case True
  then show ?thesis using inv by (simp add: receive_mask_share_def)
next
  case False
  then have fresh: "addr \<notin> fst ` snd ` set (oc_ids_and_addrs d)" by force
  have base: "oc_base_nonce d = base" using inv by (simp add: onchain_inv_def)
  show ?thesis
  proof (cases "oc_client_to_index d addr")
    case None
    then have "addr \<notin> oc_authenticated d" using inv by (auto simp: onchain_inv_def)
    then show ?thesis
      using None False inv call fresh by (auto simp: receive_mask_share_def split: option.splits intro!: wait_inv)
  next
    case (Some i)
    then have reserved: "AddReservedIndex addr i \<in> calls" using inv by (simp add: onchain_inv_def)
    have no_sink: "oc_sinks d addr = None"
      using inv fresh find_entry_None [of addr] unfolding onchain_inv_def by (metis not_None_eq option.distinct(1))
    then have inv1: "onchain_inv c base calls (d\<lparr>oc_authenticated := insert addr (oc_authenticated d)\<rparr>)"
      using Some by (intro authenticate_inv [OF inv]) auto
    have proven: "proven c base calls k addr" if "accepted = Some k" "signature_ok c base i addr sig" for k
      using that call reserved by (auto simp: proven_def)
    have earned: "earned c w base calls k json"
      if "accepted = Some k" "signature_ok c base i addr sig" "oc_mask_shares d i = Some share"
        "Option.bind (serialize_share w share) (to_json_raw_value w) = Some json" for k json share
      using inv that by (intro earnedI [OF proven [OF that(1,2)] reserved]) (simp_all add: onchain_inv_def)
    have waiting: "onchain_inv c base calls (d\<lparr>oc_authenticated := insert addr (oc_authenticated d),
        oc_sinks := (oc_sinks d)(addr \<mapsto> k), oc_ids_and_addrs := oc_ids_and_addrs d @ [(self_id, addr, None)]\<rparr>)"
      if "accepted = Some k" "signature_ok c base i addr sig" for k
      using wait_inv [OF inv1, of addr k None self_id] fresh proven [OF that] by simp
    from False Some inv inv1 base waiting earned append_entry_inv [OF inv1, of self_id addr None, simplified] show ?thesis
      by (auto simp: receive_mask_share_def Let_def split: option.splits intro: earnedI)
  qed
qed

lemma node_handle_inv:
  assumes "onchain_inv c base calls d" and "x \<in> calls"
  shows "onchain_inv c base calls (fst (node_handle c w ok x d)) \<and>
    (\<forall>(k, json) \<in> set (snd (node_handle c w ok x d)). earned c w base calls k json)"
  using assms add_mask_share_inv [of c base calls d] add_reserved_index_inv [of c base calls d]
    receive_mask_share_inv [of c base calls d]
  by (cases x) fastforce+

lemma node_run_inv:
  assumes "onchain_inv c base calls d" and "set xs \<subseteq> calls"
  shows "\<forall>(k, json) \<in> set (snd (node_run c w ok xs d)). earned c w base calls k json"
  using assms
proof (induction xs arbitrary: d)
  case (Cons x xs)
  let ?r = "node_handle c w ok x d"
  have head: "onchain_inv c base calls (fst ?r)" "\<forall>(k, json) \<in> set (snd ?r). earned c w base calls k json"
    using node_handle_inv [of c base calls d x w ok] Cons.prems by auto
  have "set xs \<subseteq> calls" using Cons.prems(2) by simp
  from Cons.IH [OF head(1) this] head(2) show ?case by (auto simp: Let_def split_def)
qed simp

text \<open>
  C32. Whatever calls reach an on-chain node and in whatever order, a mask share is sent only to the
  subscription of a request whose signature is that of an address for an index the address has
  reserved, and only the share of a mask that the same address has reserved.
\<close>

theorem onchain_shares_only_to_owner:
  assumes "(k, json) \<in> set (snd (node_run c w ok calls (onchain_node_new base)))"
  shows "\<exists>addr self_id sig i j share.
    ReceiveMaskShare (Some k) self_id sig addr \<in> set calls \<and> signature_ok c base j addr sig \<and>
    AddReservedIndex addr j \<in> set calls \<and> AddReservedIndex addr i \<in> set calls \<and> AddMaskShare i share \<in> set calls \<and>
    Option.bind (serialize_share w share) (to_json_raw_value w) = Some json"
proof -
  have "onchain_inv c base (set calls) (onchain_node_new base)" using onchain_inv_new inv_mono by blast
  from node_run_inv [OF this subset_refl, of w ok] assms have "earned c w base (set calls) k json" by auto
  then show ?thesis unfolding earned_def proven_def by blast
qed


section \<open>The order of the calls does not matter\<close>

text \<open>A call that touches the identity, the address or the index of one request.\<close>

fun concerns :: "bytes \<Rightarrow> Address \<Rightarrow> u64 \<Rightarrow> 's node_call \<Rightarrow> bool" where
  "concerns self_id addr i (ReceiveMaskShare _ tls_id _ a) = (tls_id = self_id \<or> a = addr)"
| "concerns self_id addr i (AddReservedIndex a j) = (a = addr \<or> j = i)"
| "concerns self_id addr i (AddMaskShare j _) = (j = i)"

text \<open>What of a node's state the three calls of one request read.\<close>

definition request_view where
  "request_view self_id addr i d =
     (oc_index_to_client d i, oc_client_to_index d addr, addr \<in> oc_authenticated d, oc_sinks d addr, oc_mask_shares d i,
      (\<exists>(tls_id, a, _) \<in> set (oc_ids_and_addrs d). self_id = tls_id \<or> addr = a),
      find_entry addr (oc_ids_and_addrs d), oc_base_nonce d)"

lemma known_take:
  "(\<exists>(tls_id, a, _) \<in> set (take_sig addr' entries). self_id = tls_id \<or> addr = a) \<longleftrightarrow>
   (\<exists>(tls_id, a, _) \<in> set entries. self_id = tls_id \<or> addr = a)"
  by (induction addr' entries rule: take_sig.induct) auto

lemma unconcerned_view:
  assumes "\<not> concerns self_id addr i x"
  shows "request_view self_id addr i (fst (node_handle c w ok x d)) = request_view self_id addr i d"
proof (cases x)
  case (ReceiveMaskShare accepted tls_id sig a)
  with assms show ?thesis
    by (auto simp: request_view_def receive_mask_share_def Let_def find_entry_append split: option.splits)
next
  case (AddReservedIndex a j)
  with assms show ?thesis
    by (auto simp: request_view_def add_reserved_index_def Let_def find_entry_take known_take split: option.splits)
next
  case (AddMaskShare j share)
  with assms show ?thesis
    by (auto simp: request_view_def add_mask_share_def Let_def split: option.splits)
qed


lemma concerned_view:
  assumes view: "request_view self_id addr i d = request_view self_id addr i e"
    and ind: "oc_client_to_index e addr \<in> {None, Some i}" "oc_index_to_client e i \<in> {None, Some addr}"
    and x: "x = ReceiveMaskShare (Some k) self_id sig addr \<or> x = AddReservedIndex addr i \<or> x = AddMaskShare i share"
  shows "request_view self_id addr i (fst (node_handle c w ok x d)) = request_view self_id addr i (fst (node_handle c w ok x e)) \<and>
    snd (node_handle c w ok x d) = snd (node_handle c w ok x e) \<and>
    oc_client_to_index (fst (node_handle c w ok x e)) addr \<in> {None, Some i} \<and>
    oc_index_to_client (fst (node_handle c w ok x e)) i \<in> {None, Some addr}"
proof -
  from view have eqs: "oc_index_to_client d i = oc_index_to_client e i" "oc_client_to_index d addr = oc_client_to_index e addr"
      "addr \<in> oc_authenticated d \<longleftrightarrow> addr \<in> oc_authenticated e" "oc_sinks d addr = oc_sinks e addr"
      "oc_mask_shares d i = oc_mask_shares e i"
      "(\<exists>(tls_id, a, _) \<in> set (oc_ids_and_addrs d). self_id = tls_id \<or> addr = a) \<longleftrightarrow>
       (\<exists>(tls_id, a, _) \<in> set (oc_ids_and_addrs e). self_id = tls_id \<or> addr = a)"
      "find_entry addr (oc_ids_and_addrs d) = find_entry addr (oc_ids_and_addrs e)" "oc_base_nonce d = oc_base_nonce e"
    unfolding request_view_def prod.inject by blast+
  from x show ?thesis
  proof (elim disjE)
    assume "x = ReceiveMaskShare (Some k) self_id sig addr"
    then show ?thesis
      using ind unfolding request_view_def
      by (cases "oc_client_to_index e addr"; cases "oc_mask_shares e i")
        (simp_all add: receive_mask_share_def eqs Let_def find_entry_append split: option.split)
  next
    assume "x = AddReservedIndex addr i"
    then show ?thesis
      using ind unfolding request_view_def
      by (simp add: add_reserved_index_def eqs Let_def find_entry_take known_take split: option.split)
  next
    assume "x = AddMaskShare i share"
    then show ?thesis
      using ind unfolding request_view_def
      by (auto simp add: add_mask_share_def eqs Let_def split: option.split)
  qed
qed


lemma node_run_view:
  assumes "request_view self_id addr i d = request_view self_id addr i e"
    and "oc_client_to_index e addr \<in> {None, Some i}" "oc_index_to_client e i \<in> {None, Some addr}"
    and "\<forall>x \<in> set (filter (concerns self_id addr i) xs).
      x = ReceiveMaskShare (Some k) self_id sig addr \<or> x = AddReservedIndex addr i \<or> x = AddMaskShare i share"
  shows "set (snd (node_run c w ok (filter (concerns self_id addr i) xs) e)) \<subseteq> set (snd (node_run c w ok xs d))"
  using assms
proof (induction xs arbitrary: d e)
  case (Cons x xs)
  show ?case
  proof (cases "concerns self_id addr i x")
    case True
    with Cons.prems(4) have "x = ReceiveMaskShare (Some k) self_id sig addr \<or> x = AddReservedIndex addr i \<or> x = AddMaskShare i share"
      by simp
    from concerned_view [OF Cons.prems(1-3) this, of c w ok]
    have "set (snd (node_run c w ok (filter (concerns self_id addr i) xs) (fst (node_handle c w ok x e))))
        \<subseteq> set (snd (node_run c w ok xs (fst (node_handle c w ok x d))))"
        "snd (node_handle c w ok x d) = snd (node_handle c w ok x e)"
      using Cons.IH Cons.prems(4) by auto
    with True show ?thesis by (auto simp: Let_def split_def)
  next
    case False
    have "set (snd (node_run c w ok (filter (concerns self_id addr i) xs) e))
        \<subseteq> set (snd (node_run c w ok xs (fst (node_handle c w ok x d))))"
      using False Cons.prems unconcerned_view [OF False, of c w ok d] by (intro Cons.IH) auto
    with False show ?thesis by (auto simp: Let_def split_def)
  qed
qed simp

lemma mset_three:
  assumes "mset xs = {#a, b, c#}"
  shows "xs \<in> {[a, b, c], [a, c, b], [b, a, c], [b, c, a], [c, a, b], [c, b, a]}"
proof -
  have "length xs = 3" using assms by (metis size_mset size_add_mset size_empty One_nat_def Suc_1 numeral_3_eq_3)
  then obtain x y z where "xs = [x, y, z]" by (auto simp: length_Suc_conv numeral_3_eq_3)
  with assms show ?thesis by (auto simp: add_mset_eq_single add_eq_conv_ex)
qed

text \<open>The documented behaviour of signing and address recovery of the crate \<open>alloy\<close>.\<close>

definition eth_ok :: "('sk, 'sig) eth \<Rightarrow> bool" where
  "eth_ok c \<longleftrightarrow> (\<forall>sk m sig. sign_message c sk m = Some sig \<longrightarrow>
     signature_from_raw c (signature_as_bytes c sig) = Some sig \<and> recover_address_from_msg c sig m = Some (signer_address c sk))"

lemma generated_signature_ok:
  "eth_ok c \<Longrightarrow> generate_client_sig c base i sk = Some sig \<Longrightarrow>
     signature_ok c base i (signer_address c sk) (signature_as_bytes c sig)"
  by (auto simp: eth_ok_def generate_client_sig_def signature_ok_def verify_client_sig_def)

text \<open>
  C33. A client that signs its index with \<open>generate_client_sig\<close> gets the share of its mask from the
  on-chain node whatever the order in which its request, its reservation and the share arrive, and
  whatever other calls come in between, as long as no other call uses its identity, its address or
  its index.
\<close>

theorem onchain_share_arrives_in_any_order:
  assumes "eth_ok c" and "generate_client_sig c base i sk = Some sig"
    and "Option.bind (serialize_share w share) (to_json_raw_value w) = Some json"
    and "mset (filter (concerns self_id (signer_address c sk) i) calls) =
      {#ReceiveMaskShare (Some k) self_id (signature_as_bytes c sig) (signer_address c sk),
        AddReservedIndex (signer_address c sk) i, AddMaskShare i share#}"
  shows "(k, json) \<in> set (snd (node_run c w ok calls (onchain_node_new base)))"
proof -
  let ?addr = "signer_address c sk"
  let ?r = "ReceiveMaskShare (Some k) self_id (signature_as_bytes c sig) ?addr"
  let ?a = "AddReservedIndex ?addr i" and ?m = "AddMaskShare i share"
  let ?own = "filter (concerns self_id ?addr i) calls"
  note sig = generated_signature_ok [OF assms(1,2)]
  have sent: "snd (send_share w ok k share) = [(k, json)]"
    using assms(3) by (auto simp: send_share_def bind_eq_Some_conv)
  from assms(4) have "?own \<in> {[?r, ?a, ?m], [?r, ?m, ?a], [?a, ?r, ?m], [?a, ?m, ?r], [?m, ?r, ?a], [?m, ?a, ?r]}"
    by (rule mset_three)
  then have "(k, json) \<in> set (snd (node_run c w ok ?own (onchain_node_new base)))"
    by (elim insertE; simp add: onchain_node_new_def add_reserved_index_def add_mask_share_def receive_mask_share_def sig sent assms(3) Let_def find_entry_def)
  moreover have "\<forall>x \<in> set ?own. x = ?r \<or> x = ?a \<or> x = ?m"
    using arg_cong [OF assms(4), of set_mset] by auto
  then have "set (snd (node_run c w ok ?own (onchain_node_new base))) \<subseteq> set (snd (node_run c w ok calls (onchain_node_new base)))"
    by (intro node_run_view) (auto simp: onchain_node_new_def)
  ultimately show ?thesis by blast
qed


definition demo_eth :: "(u8, u8 \<times> bytes) eth" where
  "demo_eth = \<lparr>signature_from_raw = (\<lambda>bs. case bs of [] \<Rightarrow> None | a # m \<Rightarrow> Some (a, m)),
     recover_address_from_msg = (\<lambda>(a, m) m'. if m = m' then Some [a] else None),
     keccak256 = (\<lambda>bs. bs), abi_encode_u64 = (\<lambda>x. [ucast x]), sign_message = (\<lambda>sk m. Some (sk, m)),
     signer_address = (\<lambda>sk. [sk]), signature_as_bytes = (\<lambda>(a, m). a # m)\<rparr>"

definition demo_wire :: "(nat, bytes) wire" where
  "demo_wire = \<lparr>serialize_share = (\<lambda>n. Some [of_nat n]), to_json_raw_value = Some\<rparr>"

lemma demo_eth_ok: "eth_ok demo_eth"
  by (auto simp: eth_ok_def demo_eth_def)

definition demo_calls :: "nat node_call list" where
  "demo_calls = [AddMaskShare 3 42, AddReservedIndex [9] 4, ReceiveMaskShare (Some 7) [1] [5, 103] [5], AddReservedIndex [5] 3]"

theorem onchain_share_arrives_in_any_order_witness:
  "(7, [42]) \<in> set (snd (node_run demo_eth demo_wire (\<lambda>_ _. True) demo_calls (onchain_node_new 100)))"
proof -
  have "generate_client_sig demo_eth 100 3 5 = Some (5, [103])"
    by (simp add: generate_client_sig_def index_digest_def demo_eth_def)
  moreover have "Option.bind (serialize_share demo_wire 42) (to_json_raw_value demo_wire) = Some [42]"
    by (simp add: demo_wire_def)
  moreover have "mset (filter (concerns [1] (signer_address demo_eth 5) 3) demo_calls) =
      {#ReceiveMaskShare (Some 7) [1] (signature_as_bytes demo_eth (5, [103])) (signer_address demo_eth 5),
        AddReservedIndex (signer_address demo_eth 5) 3, AddMaskShare 3 42#}"
    by (simp add: demo_calls_def demo_eth_def)
  ultimately show ?thesis by (rule onchain_share_arrives_in_any_order [OF demo_eth_ok])
qed

theorem onchain_shares_only_to_owner_witness:
  "\<exists>addr self_id sig j. ReceiveMaskShare (Some 7) self_id sig addr \<in> set demo_calls \<and>
     signature_ok demo_eth 100 j addr sig \<and> AddReservedIndex addr j \<in> set demo_calls"
proof -
  have "(7, [42]) \<in> set (snd (node_run demo_eth demo_wire (\<lambda>_ _. True) demo_calls (onchain_node_new 100)))"
    by code_simp
  from onchain_shares_only_to_owner [OF this] show ?thesis by blast
qed

section \<open>Identities and addresses\<close>

definition unique_clients :: "'s NodeRPCServerShared \<Rightarrow> bool" where
  "unique_clients d \<longleftrightarrow> distinct (map fst (oc_ids_and_addrs d)) \<and> distinct (map (fst \<circ> snd) (oc_ids_and_addrs d))"

lemma node_handle_unique: "unique_clients d \<Longrightarrow> unique_clients (fst (node_handle c w ok x d))"
proof (cases x)
  case (ReceiveMaskShare accepted self_id sig addr)
  assume "unique_clients d"
  with ReceiveMaskShare show ?thesis
    by (force simp: unique_clients_def receive_mask_share_def Let_def split: option.splits)
next
  case (AddReservedIndex addr i)
  assume "unique_clients d"
  with AddReservedIndex show ?thesis
    by (simp add: unique_clients_def add_reserved_index_def Let_def split: option.splits)
next
  case (AddMaskShare i share)
  assume "unique_clients d"
  with AddMaskShare show ?thesis
    by (simp add: unique_clients_def add_mask_share_def Let_def split: option.splits)
qed

lemma node_run_unique: "unique_clients d \<Longrightarrow> unique_clients (fst (node_run c w ok calls d))"
  by (induction calls arbitrary: d) (simp_all add: Let_def split_def node_handle_unique)

text \<open>
  Whatever calls reach an on-chain node, no identity and no address is ever listed twice by
  \<open>ids_and_addrs\<close>, so that each address has at most one key for its outputs.
\<close>

theorem onchain_clients_unique:
  "distinct (map fst (ids_and_addrs (fst (node_run c w ok calls (onchain_node_new base))))) \<and>
   distinct (map snd (ids_and_addrs (fst (node_run c w ok calls (onchain_node_new base)))))"
proof -
  have "unique_clients (fst (node_run c w ok calls (onchain_node_new base)))"
    by (rule node_run_unique) (simp add: unique_clients_def onchain_node_new_def)
  moreover have "map fst (ids_and_addrs d) = map fst (filter (\<lambda>(_, _, sig). sig = None) (oc_ids_and_addrs d))"
    "map snd (ids_and_addrs d) = map (fst \<circ> snd) (filter (\<lambda>(_, _, sig). sig = None) (oc_ids_and_addrs d))"
    for d :: "'a NodeRPCServerShared"
    by (simp_all add: ids_and_addrs_def split_def)
  ultimately show ?thesis by (simp add: unique_clients_def distinct_map_filter)
qed

text \<open>
  An identity that names another client's address before that client has reserved, with any
  signature at all, ends up listed with the address, although its authentication failed, and the
  client itself is then refused.
\<close>

lemma impostor_is_listed:
  assumes "\<not> signature_ok c base i addr garbage"
    and "d = fst (node_run c w ok [ReceiveMaskShare (Some k) impostor garbage addr, AddReservedIndex addr i] (onchain_node_new base))"
  shows "ids_and_addrs d = [(impostor, addr)]"
    and "fst (receive_mask_share c w ok accepted self_id sig addr d) = AlreadyRequested addr"
  using assms(1)
  by (simp_all add: assms(2) onchain_node_new_def receive_mask_share_def add_reserved_index_def find_entry_def ids_and_addrs_def)

text \<open>A second reservation by a client whose request is known panics.\<close>

lemma second_reservation_panics:
  assumes "signature_ok c base i addr sig" and "j \<noteq> i"
  shows "fst (add_reserved_index c w ok addr j
    (fst (node_run c w ok [ReceiveMaskShare (Some k) self_id sig addr, AddReservedIndex addr i] (onchain_node_new base)))) = Panic"
  using assms
  by (simp add: onchain_node_new_def receive_mask_share_def add_reserved_index_def find_entry_def)

section \<open>Receiving a mask\<close>

text \<open>Only the first \<open>min_shares\<close> replies count: if they do not determine the mask, the call fails.\<close>

lemma receive_mask_first_shares:
  assumes "0 < length shares"
  shows "receive_mask (length shares) recover opened (map Some shares @ replies) =
    (if False \<in> set opened then Panic
     else case recover shares of Some secret \<Rightarrow> Ok secret | None \<Rightarrow> Err (MaskReconstructionFailed (length shares)))"
proof -
  have "receive_mask_loop (length got + length rest) recover (map Some rest @ replies) got =
      (case recover (got @ rest) of Some secret \<Rightarrow> Ok secret | None \<Rightarrow> Err (MaskReconstructionFailed (length got + length rest)))"
    if "rest \<noteq> []" for got rest
    using that
  proof (induction rest arbitrary: got)
    case (Cons share rest)
    then show ?case using Cons.IH [of "got @ [share]"] by (cases "rest = []") (simp_all add: Let_def split: option.split)
  qed simp
  from this [of shares "[]"] assms show ?thesis by (simp add: receive_mask_def split: option.split)
qed

end
