(* ===== verification/Client_Properties.thy ===== *)
theory Client_Properties
  imports Coord_Client Coord_Delivery
begin

text \<open>
  What the coordinator's client guarantees together with the coordinator: the inputs a party
  collects from the event history are the inputs of the execution, per client and in slot order;
  output shares that parties have sealed are what the output client recovers its outputs from; and
  a one-off coordinator drains exactly when every party has acknowledged.
\<close>

section \<open>Collecting inputs\<close>

fun event_entries :: "Event \<Rightarrow> (ClientIdentity \<times> u64 \<times> bytes) list" where
  "event_entries (MaskedInputEvent client pairs) = map (Pair client) pairs"
| "event_entries _ = []"

definition entries :: "Event list \<Rightarrow> (ClientIdentity \<times> u64 \<times> bytes) list" where
  "entries events = concat (map event_entries events)"

definition unmasked :: "('s, 'v) share_scheme \<Rightarrow> 's list \<Rightarrow> u64 \<times> bytes \<Rightarrow> 's option" where
  "unmasked sch mask_shares p =
     (if unat (fst p) < length mask_shares
      then Option.bind (deserialize_value sch (snd p)) (\<lambda>v. compute_masked_input sch v (mask_shares ! unat (fst p)))
      else None)"

text \<open>The table of the loop after some entries, each with its unmasked input.\<close>

definition entry_map ::
  "(u64 \<times> bytes \<Rightarrow> 's) \<Rightarrow> (ClientIdentity \<times> u64 \<times> bytes) list \<Rightarrow> (ClientIdentity \<rightharpoonup> (u64 \<times> 's) list)" where
  "entry_map f es client =
     (let own = filter (\<lambda>e. fst e = client) es in
      if own = [] then None else Some (map (\<lambda>e. (fst (snd e), f (snd e))) own))"

lemma entry_map_Nil [simp]: "entry_map f [] = Map.empty"
  by (simp add: entry_map_def fun_eq_iff)

lemma entry_map_append:
  "ps \<noteq> [] \<Longrightarrow> entry_map f (es @ map (Pair client) ps) =
     extend_entry (entry_map f es) client (map (\<lambda>p. (fst p, f p)) ps)"
  by (cases ps) (auto simp: entry_map_def extend_entry_def fun_eq_iff Let_def filter_map comp_def filter_empty_conv)

lemma unmask_inputs_Ok:
  assumes "\<forall>p \<in> set ps. unmasked sch mask_shares p = Some (f p)"
  shows "unmask_inputs sch mask_shares client ps (entry_map f es) = Ok (entry_map f (es @ map (Pair client) ps))"
  using assms
proof (induction ps arbitrary: es)
  case (Cons p ps)
  obtain i x where p: "p = (i, x)" by (cases p)
  from Cons.prems have "unmasked sch mask_shares (i, x) = Some (f (i, x))" by (simp add: p)
  then obtain v where "unat i < length mask_shares" "deserialize_value sch x = Some v"
    "compute_masked_input sch v (mask_shares ! unat i) = Some (f (i, x))"
    by (auto simp: unmasked_def split: if_splits Option.bind_splits)
  then have "unmask_inputs sch mask_shares client (p # ps) (entry_map f es) =
      unmask_inputs sch mask_shares client ps (extend_entry (entry_map f es) client [(i, f (i, x))])"
    by (simp add: p)
  also have "extend_entry (entry_map f es) client [(i, f (i, x))] = entry_map f (es @ map (Pair client) [(i, x)])"
    by (subst entry_map_append) simp_all
  finally show ?case using Cons by (simp add: p)
qed simp

lemma unat_add_of_nat: "unat a + n < 2 ^ LENGTH('a) \<Longrightarrow> unat (a + of_nat n) = unat a + n" for a :: "'a::len word"
  by (simp add: unat_word_ariths unsigned_of_nat take_bit_nat_eq_self)

lemma inputs_loop_Ok:
  assumes "\<forall>ev \<in> set events. \<exists>client ps. ev = MaskedInputEvent client ps"
    and "\<forall>e \<in> set (entries events). unmasked sch mask_shares (snd e) = Some (f (snd e))"
    and "unat received + length (entries events) = unat n_inputs"
  shows "inputs_loop sch mask_shares n_inputs (map Received events) received (entry_map f es) =
    Ok (entry_map f (es @ entries events))"
  using assms
proof (induction events arbitrary: received es)
  case Nil
  then show ?case by (simp add: entries_def word_le_nat_alt)
next
  case (Cons ev events)
  from Cons.prems(1) obtain client ps where ev: "ev = MaskedInputEvent client ps" by auto
  show ?case
  proof (cases "n_inputs \<le> received")
    case True
    then have "unat n_inputs \<le> unat received" by (simp add: word_le_nat_alt)
    with Cons.prems(3) have "length (entries (ev # events)) = 0" by linarith
    then have "entries (ev # events) = []" by simp
    with True show ?thesis by simp
  next
    case False
    have step: "unmask_inputs sch mask_shares client ps (entry_map f es) = Ok (entry_map f (es @ map (Pair client) ps))"
      by (rule unmask_inputs_Ok) (use Cons.prems(2) in \<open>auto simp: ev entries_def ball_Un\<close>)
    have "unat received + length ps \<le> unat n_inputs" using Cons.prems(3) by (simp add: ev entries_def)
    then have "unat received + length ps < 2 ^ LENGTH(64)" by (rule le_less_trans) (rule unsigned_less)
    note unat_add_of_nat [OF this]
    with Cons.IH [of "received + of_nat (length ps)" "es @ map (Pair client) ps"] Cons.prems False step show ?thesis
      by (simp add: ev entries_def)
  qed
qed

lemma replay_inputs_entries:
  "replay_inputs n events =
     foldl (\<lambda>xs (i, b). xs[unat i := Some b]) (replicate n None) (map snd (entries events))"
proof -
  have "foldl apply_input_event xs events = foldl (\<lambda>xs (i, b). xs[unat i := Some b]) xs (map snd (entries events))" for xs
  proof (induction events arbitrary: xs)
    case (Cons ev events)
    have "apply_input_event xs ev = foldl (\<lambda>xs (i, b). xs[unat i := Some b]) xs (map snd (event_entries ev))"
      by (cases ev) (simp_all add: comp_def)
    with Cons show ?case by (simp add: entries_def foldl_append)
  qed (simp add: entries_def)
  then show ?thesis by (simp add: replay_inputs_def)
qed

text \<open>Without a slot submitted twice, the history and the table are the same pairs.\<close>

lemma replay_inputs_lookup:
  assumes "distinct (map (fst \<circ> snd) (entries events))" and "k < n"
  shows "replay_inputs n events ! k = Some b \<longleftrightarrow> (\<exists>client i. (client, i, b) \<in> set (entries events) \<and> unat i = k)"
proof -
  let ?pairs = "map snd (entries events)"
  let ?keyed = "map (\<lambda>(i, b). (unat i, b)) ?pairs"
  have eq: "map fst ?keyed = map unat (map (fst \<circ> snd) (entries events))" by (simp add: split_beta comp_def)
  have inj: "inj_on unat X" for X :: "u64 set" by (rule inj_onI) (simp flip: word_unat_eq_iff)
  have "distinct (map fst ?keyed)"
    unfolding eq distinct_map [of unat] by (intro conjI assms(1) inj)
  then have "distinct (map fst (rev ?keyed))" by (simp only: rev_map [symmetric] distinct_rev)
  from map_of_eq_Some_iff [OF this] have "map_of (rev ?keyed) k = Some b \<longleftrightarrow> (k, b) \<in> set ?keyed"
    by (simp only: set_rev)
  moreover have "replay_inputs n events ! k = map_of (rev ?keyed) k"
    using assms(2) by (simp add: replay_inputs_entries nth_foldl_input split: option.split)
  moreover have "(k, b) \<in> set ?keyed \<longleftrightarrow> (\<exists>client i. (client, i, b) \<in> set (entries events) \<and> unat i = k)"
    by force
  ultimately show ?thesis by simp
qed

text \<open>The items one sink has been sent.\<close>

definition sent_events :: "sink \<Rightarrow> delivery list \<Rightarrow> Event item list" where
  "sent_events k ds = List.map_filter (\<lambda>(k', m).
     case m of EventMsg ev \<Rightarrow> if k' = k then Some (Received ev) else None | _ \<Rightarrow> None) ds"

lemma sent_events_replay: "sent_events k (map (\<lambda>ev. (k, EventMsg ev)) events) = map Received events"
  by (induction events) (simp_all add: sent_events_def map_filter_def)

lemma sort_own_inputs:
  fixes own :: "(u64 \<times> 's) list"
  assumes "distinct (map fst own)" and "\<forall>p \<in> set own. snd p = input (unat (fst p))"
    and "unat ` fst ` set own = set slots" and "sorted slots" and "distinct slots"
  shows "map snd (sort_key (\<lambda>(i, _). unat i) own) = map input slots"
proof -
  let ?k = "\<lambda>(i :: u64, _ :: 's). unat i"
  have keys: "map ?k (sort_key ?k own) = slots"
  proof (rule sorted_distinct_set_unique)
    show "sorted (map ?k (sort_key ?k own))" by (rule sorted_sort_key)
    have "mset (map ?k (sort_key ?k own)) = mset (map unat (map fst own))"
      by (simp add: split_beta' comp_def)
    moreover have "distinct (map unat (map fst own))"
      unfolding distinct_map [of unat] using assms(1) by (auto simp: inj_on_def simp flip: word_unat_eq_iff)
    ultimately show "distinct (map ?k (sort_key ?k own))" by (metis mset_eq_imp_distinct_iff)
    show "set (map ?k (sort_key ?k own)) = set slots"
      using assms(3) by (auto simp: image_iff split_beta)
  qed (use assms in simp_all)
  have "map snd (sort_key ?k own) = map input (map ?k (sort_key ?k own))"
    unfolding map_map by (rule map_cong) (use assms(2) in auto)
  with keys show ?thesis by simp
qed

lemma history_entries:
  assumes "coord_reachable s" and "map_of (srv_executions s) e = Some d"
  defines "n \<equiv> unat (reg_n_inputs (ex_registration d))" and "E \<equiv> entries (ex_masked_input_events d)"
  shows "length (ex_masked_inputs d) = n"
    and "ev \<in> set (ex_masked_input_events d) \<Longrightarrow> \<exists>client ps. ev = MaskedInputEvent client ps"
    and "(c, i, b) \<in> set E \<Longrightarrow> unat i < n \<and> ex_reserved_indices d ! unat i = Some c"
    and "distinct (map (fst \<circ> snd) E) \<Longrightarrow> j < n \<Longrightarrow>
      ex_masked_inputs d ! j = Some b \<longleftrightarrow> (\<exists>c i. (c, i, b) \<in> set E \<and> unat i = j)"
proof -
  show "length (ex_masked_inputs d) = n"
    using reachable_invs(2) [OF assms(1,2)] by (simp add: slots_inv_def n_slots_def n_def)
  have owned: "input_owned n (ex_reserved_indices d) ev" if "ev \<in> set (ex_masked_input_events d)" for ev
    using that reachable_invs(4) [OF assms(1,2)] by (simp add: inputs_inv_def list_all_iff n_def)
  show "\<exists>client ps. ev = MaskedInputEvent client ps" if "ev \<in> set (ex_masked_input_events d)" for ev
    using owned [OF that] by (cases ev) simp_all
  show "unat i < n \<and> ex_reserved_indices d ! unat i = Some c" if "(c, i, b) \<in> set E" for c i b
  proof -
    from that obtain ev where ev: "ev \<in> set (ex_masked_input_events d)" "(c, i, b) \<in> set (event_entries ev)"
      by (auto simp: entries_def E_def)
    note o = owned [OF ev(1)]
    show ?thesis
    proof (cases ev)
      case (MaskedInputEvent client pairs)
      with ev(2) o show ?thesis by auto
    qed (use ev(2) in auto)
  qed
  show "ex_masked_inputs d ! j = Some b \<longleftrightarrow> (\<exists>c i. (c, i, b) \<in> set E \<and> unat i = j)"
    if "distinct (map (fst \<circ> snd) E)" "j < n"
    using replay_inputs_lookup [of "ex_masked_input_events d" j n b] that reachable_invs(1) [OF assms(1,2)]
    by (simp add: histories_inv_def n_slots_def n_def E_def)
qed

lemma complete_history:
  assumes "coord_reachable s" and "map_of (srv_executions s) e = Some d" and "None \<notin> set (ex_masked_inputs d)"
    and "distinct (map (fst \<circ> snd) (entries (ex_masked_input_events d)))"
  shows "(unat \<circ> fst \<circ> snd) ` set (filter (\<lambda>x. fst x = client) (entries (ex_masked_input_events d))) =
      set (filter (\<lambda>i. ex_reserved_indices d ! i = Some client) [0..<length (ex_masked_inputs d)])" (is ?own)
    and "length (entries (ex_masked_input_events d)) = length (ex_masked_inputs d)"
proof -
  let ?E = "entries (ex_masked_input_events d)"
  note h = history_entries [OF assms(1,2)]
  have covered: "\<exists>c i b. (c, i, b) \<in> set ?E \<and> unat i = j" if "j < length (ex_masked_inputs d)" for j
  proof -
    from assms(3) that obtain b where "ex_masked_inputs d ! j = Some b" by (metis not_None_eq nth_mem)
    with h(4) [OF assms(4)] that h(1) show ?thesis by auto
  qed
  show ?own
  proof (intro equalityI subsetI)
    fix j assume "j \<in> set (filter (\<lambda>i. ex_reserved_indices d ! i = Some client) [0..<length (ex_masked_inputs d)])"
    then have j: "j < length (ex_masked_inputs d)" "ex_reserved_indices d ! j = Some client" by auto
    with covered obtain c i b where ci: "(c, i, b) \<in> set ?E" "unat i = j" by blast
    with h(3) [OF ci(1)] j have "(client, i, b) \<in> set (filter (\<lambda>x. fst x = client) ?E)" by simp
    from imageI [OF this, of "unat \<circ> fst \<circ> snd"] ci(2)
    show "j \<in> (unat \<circ> fst \<circ> snd) ` set (filter (\<lambda>x. fst x = client) ?E)" by simp
  qed (use h(1,3) in auto)
  have "distinct (map (unat \<circ> (fst \<circ> snd)) ?E)"
    using assms(4) unfolding distinct_map by (auto simp: inj_on_def simp flip: word_unat_eq_iff)
  moreover have "(unat \<circ> (fst \<circ> snd)) ` set ?E = {..<length (ex_masked_inputs d)}"
  proof (intro equalityI subsetI)
    fix j assume "j \<in> {..<length (ex_masked_inputs d)}"
    with covered obtain c i b where "(c, i, b) \<in> set ?E" "unat i = j" by blast
    then show "j \<in> (unat \<circ> (fst \<circ> snd)) ` set ?E" by (force intro: rev_image_eqI)
  qed (use h(1,3) in auto)
  ultimately show "length ?E = length (ex_masked_inputs d)"
    using distinct_card [of "map (unat \<circ> (fst \<circ> snd)) ?E"] by simp
qed

lemma sub_masked_history:
  assumes "map_of (srv_executions s) e = Some d"
  shows "sent_events k (snd (snd (sub_masked_inputs (\<lambda>_ _. True) (Some k) e s))) = map Received (ex_masked_input_events d)"
proof -
  have "replay (\<lambda>_ _. True) k ms = (True, map (\<lambda>m. (k, m)) ms)" for ms
    by (induction ms) simp_all
  then have "snd (snd (sub_masked_inputs (\<lambda>_ _. True) (Some k) e s)) = map (\<lambda>ev. (k, EventMsg ev)) (ex_masked_input_events d)"
    using assms by (simp add: sub_masked_inputs_def subscription_def with_execution_def subscribe_masked_inputs_def comp_def)
  then show ?thesis by (simp only: sent_events_replay)
qed

text \<open>
  C27. A party that subscribes to the masked inputs of an execution whose inputs are complete
  collects exactly those inputs, unmasked with its share of the mask of each slot: for every client
  the inputs of the slots it owns, in the order of the slots, and nothing for anybody else. It is
  assumed that no slot was submitted twice in one batch and that the party holds one mask share per
  slot.
\<close>

theorem wait_for_inputs_collects:
  assumes "coord_reachable s" and "map_of (srv_executions s) e = Some d"
    and "None \<notin> set (ex_masked_inputs d)"
    and "distinct (map (fst \<circ> snd) (entries (ex_masked_input_events d)))"
    and "length mask_shares = unat (reg_n_inputs (ex_registration d))"
    and "\<forall>i b. vec_get (ex_masked_inputs d) i = Some (Some b) \<longrightarrow> unmasked sch mask_shares (of_nat i, b) = Some (input i)"
  shows "\<exists>m. wait_for_inputs sch (reg_n_inputs (ex_registration d)) mask_shares
      (Some (sent_events k (snd (snd (sub_masked_inputs (\<lambda>_ _. True) (Some k) e s))))) = Ok m \<and>
    (\<forall>client. m client =
      (let slots = filter (\<lambda>i. ex_reserved_indices d ! i = Some client) [0..<length (ex_masked_inputs d)] in
       if slots = [] then None else Some (map input slots)))"
proof -
  let ?n = "length (ex_masked_inputs d)" and ?E = "entries (ex_masked_input_events d)"
  let ?f = "\<lambda>p. input (unat (fst p))"
  note h = history_entries [OF assms(1,2)] and c = complete_history [OF assms(1-4)]
  have un: "\<forall>x \<in> set ?E. unmasked sch mask_shares (snd x) = Some (?f (snd x))"
  proof
    fix x assume x: "x \<in> set ?E"
    obtain cl i b where [simp]: "x = (cl, i, b)" by (cases x)
    from x h(1,3) have "unat i < ?n" by auto
    with x h(1) h(4) [OF assms(4), of "unat i" b] have "vec_get (ex_masked_inputs d) (unat i) = Some (Some b)"
      by (auto simp: vec_get_Some)
    with assms(6) show "unmasked sch mask_shares (snd x) = Some (?f (snd x))" by force
  qed
  have loop: "inputs_loop sch mask_shares (reg_n_inputs (ex_registration d)) (map Received (ex_masked_input_events d)) 0
      Map.empty = Ok (entry_map ?f ?E)"
    using inputs_loop_Ok [of "ex_masked_input_events d" sch mask_shares ?f 0 "reg_n_inputs (ex_registration d)" "[]"]
      h(1,2) un c(2) by simp
  have "map_option (\<lambda>own. map snd (sort_key (\<lambda>(i, _). unat i) own)) (entry_map ?f ?E client) =
      (let slots = filter (\<lambda>i. ex_reserved_indices d ! i = Some client) [0..<?n] in
       if slots = [] then None else Some (map input slots))" for client
  proof -
    let ?slots = "filter (\<lambda>i. ex_reserved_indices d ! i = Some client) [0..<?n]"
    let ?own = "filter (\<lambda>x. fst x = client) ?E"
    let ?own' = "map (\<lambda>x. (fst (snd x), ?f (snd x))) ?own"
    have "map snd (sort_key (\<lambda>(i, _). unat i) ?own') = map input ?slots"
    proof (rule sort_own_inputs)
      show "distinct (map fst ?own')" using assms(4) by (simp add: comp_def distinct_map_filter)
      show "unat ` fst ` set ?own' = set ?slots" using c(1) [of client] by (simp add: image_image comp_def)
    qed (auto simp: sorted_wrt_filter)
    moreover have "?own = [] \<longleftrightarrow> ?slots = []" using c(1) [of client] by (metis image_is_empty set_empty)
    ultimately show ?thesis by (simp add: entry_map_def Let_def)
  qed
  then show ?thesis by (simp add: wait_for_inputs_def sub_masked_history [OF assms(2)] loop)
qed

text \<open>A share scheme for evaluation: a value is a byte, and its shares are the value itself.\<close>

definition demo_scheme :: "(u8, u8) share_scheme" where
  "demo_scheme =
     \<lparr>min_shares = min_shares_feldman,
      recover_secret = (\<lambda>xs n t. case xs of [] \<Rightarrow> None | x # _ \<Rightarrow> Some x),
      compute_masked_input = (\<lambda>v x. Some (v - x)),
      serialize_value = (\<lambda>v. Some [v]),
      deserialize_value = (\<lambda>bs. case bs of [b] \<Rightarrow> Some b | _ \<Rightarrow> None),
      serialize_shares = Some, deserialize_shares = Some\<rparr>"

theorem wait_for_inputs_collects_witness:
  "\<exists>m. wait_for_inputs demo_scheme 2 [1, 2]
      (Some (sent_events 9 (snd (snd (sub_masked_inputs (\<lambda>_ _. True) (Some 9) demo_id demo_running))))) = Ok m \<and>
    m [20] = Some [5] \<and> m [21] = Some [3] \<and> m [22] = None"
proof -
  let ?d = "demo_execution demo_running"
  have facts: "ex_masked_inputs ?d = [Some [6], Some [5]]" "ex_reserved_indices ?d = [Some [20], Some [21]]"
    "reg_n_inputs (ex_registration ?d) = 2"
    "distinct (map (fst \<circ> snd) (entries (ex_masked_input_events ?d)))" by code_simp+
  have un: "\<forall>i b. vec_get (ex_masked_inputs ?d) i = Some (Some b) \<longrightarrow>
      unmasked demo_scheme [1, 2] (of_nat i, b) = Some ([5, 3] ! i)"
  proof (intro allI impI)
    fix i b
    assume "vec_get (ex_masked_inputs ?d) i = Some (Some b)"
    then have "i < 2" "[Some [6], Some [5]] ! i = Some b" by (auto simp: vec_get_Some facts(1))
    then show "unmasked demo_scheme [1, 2] (of_nat i, b) = Some ([5, 3] ! i)"
      by (auto simp: less_2_cases_iff unmasked_def demo_scheme_def)
  qed
  have "[0..<2] = [0, 1]" by (simp add: upt_rec)
  with wait_for_inputs_collects [OF demo_reachable(7) demo_present(6) _ facts(4) _ un, of 9] facts(1-3) show ?thesis
    by (auto simp: Let_def numeral_2_eq_2 [symmetric])
qed

text \<open>
  With a slot submitted twice in one batch the count of received inputs is reached too early: the
  party returns without the other client's input.
\<close>

definition demo_double :: CoordinatorRPCServerSharedBase where
  "demo_double = fst (snd (submit_masked_inputs (\<lambda>_ _. True) [21] demo_id [[5]] [1]
     (fst (snd (submit_masked_inputs (\<lambda>_ _. True) [20] demo_id [[6], [8]] [0, 0] demo_held)))))"

lemma double_submission_hides_input:
  "ex_masked_inputs (demo_execution demo_double) = [Some [8], Some [5]]"
  "(case wait_for_inputs demo_scheme 2 [1, 2]
      (Some (sent_events 9 (snd (snd (sub_masked_inputs (\<lambda>_ _. True) (Some 9) demo_id demo_double))))) of
      Ok m \<Rightarrow> (m [20], m [21]) | _ \<Rightarrow> (None, None)) = (Some [5, 7], None)"
  by code_simp+

section \<open>Outputs\<close>

definition sealed_shares ::
  "('sk, 'pk, 'ek) hpke \<Rightarrow> ('s, 'v) share_scheme \<Rightarrow> 'pk \<Rightarrow> bytes \<Rightarrow> 's list \<Rightarrow> enc_share \<Rightarrow> bool" where
  "sealed_shares h sch client_pk info shares c \<longleftrightarrow>
     (\<exists>seed bs. serialize_shares sch shares = Some bs \<and> single_shot_seal h seed client_pk info bs = Some c)"

lemma seal_shares_sealed:
  "pk_from_bytes h key = Some client_pk \<Longrightarrow> seal_shares h sch seed e key shares = Ok c \<Longrightarrow>
     sealed_shares h sch client_pk (execution_enc_info e) shares c"
  by (auto simp: seal_shares_def sealed_shares_def split: option.splits)

lemma open_sealed_shares:
  assumes "\<forall>seed m ek c. single_shot_seal h seed client_pk info m = Some (ek, c) \<longrightarrow>
      (\<exists>k. ek_from_bytes h ek = Some k \<and> single_shot_open h client_sk k info c = Some m)"
    and "\<forall>shares bs. serialize_shares sch shares = Some bs \<longrightarrow> deserialize_shares sch bs = Some shares"
    and "list_all2 (sealed_shares h sch client_pk info) share_lists encs"
    and "\<forall>shares \<in> set share_lists. of_nat (length shares) = n_outputs"
  shows "open_shares h sch client_sk info n_outputs encs = Ok share_lists"
  using assms(3,4)
proof (induction rule: list_all2_induct)
  case (Cons shares share_lists c encs)
  obtain ek ct where c: "c = (ek, ct)" by (cases c)
  from Cons(1) obtain seed bs where bs: "serialize_shares sch shares = Some bs"
    and sealed: "single_shot_seal h seed client_pk info bs = Some (ek, ct)"
    by (auto simp: sealed_shares_def c)
  from assms(1) sealed obtain k where "ek_from_bytes h ek = Some k"
    "single_shot_open h client_sk k info ct = Some bs" by blast
  moreover have "deserialize_shares sch bs = Some shares" using assms(2) bs by blast
  ultimately show ?case using Cons by (simp add: c)
qed simp

lemma map_filter_all: "(\<And>x. x \<in> set xs \<Longrightarrow> f x = Some (g x)) \<Longrightarrow> List.map_filter f xs = map g xs"
  by (induction xs) (simp_all add: map_filter_def)

text \<open>
  C28. What the parties seal for an output client is what the client opens. If every party has
  encrypted its shares of the outputs with \<open>send_output_shares\<close> for this execution and the client's
  key, and there are at least \<open>min_shares\<close> of them, then the client obtains exactly the values that
  the shares of each output determine.
\<close>

theorem obtain_outputs_opens_sealed:
  assumes "\<forall>seed m ek c. single_shot_seal h seed client_pk (execution_enc_info (cl_execution_id cl)) m = Some (ek, c) \<longrightarrow>
      (\<exists>k. ek_from_bytes h ek = Some k \<and>
         single_shot_open h client_sk k (execution_enc_info (cl_execution_id cl)) c = Some m)"
    and "pk_from_bytes h key = Some client_pk"
    and "from_pkcs8_der h (cl_key_der cl) = Some raw" and "sk_from_bytes h raw = Some client_sk"
    and "\<forall>shares bs. serialize_shares sch shares = Some bs \<longrightarrow> deserialize_shares sch bs = Some shares"
    and "list_all2 (\<lambda>shares c. \<exists>seed. seal_shares h sch seed (cl_execution_id cl) key shares = Ok c) share_lists encs"
    and "\<forall>shares \<in> set share_lists. length shares = unat (cl_n_outputs cl)"
    and "unat (min_shares sch (cl_t cl)) \<le> length share_lists"
    and "\<forall>i < unat (cl_n_outputs cl).
      recover_secret sch (map (\<lambda>shares. shares ! i) share_lists) (cl_n_parties cl) (cl_t cl) = Some (output i)"
  shows "obtain_outputs h sch cl (Some (Received encs # items)) = Ok (map output [0..<unat (cl_n_outputs cl)])"
proof -
  have "open_shares h sch client_sk (execution_enc_info (cl_execution_id cl)) (cl_n_outputs cl) encs = Ok share_lists"
    by (rule open_sealed_shares [OF assms(1,5)])
      (use assms(6,7) seal_shares_sealed [OF assms(2)] in \<open>auto elim!: list.rel_mono_strong\<close>)
  moreover have "recover_outputs sch (cl_n_parties cl) (cl_t cl) (unat (cl_n_outputs cl)) share_lists =
      map output [0..<unat (cl_n_outputs cl)]"
    unfolding recover_outputs_def by (rule map_filter_all) (use assms(9) in simp)
  moreover have "length encs = length share_lists" using list_all2_lengthD [OF assms(6)] by simp
  ultimately show ?thesis using assms(3,4,8) by (simp add: obtain_outputs_def)
qed

text \<open>An encryption scheme for evaluation: the ciphertext is the plaintext, tagged with the context.\<close>

definition demo_hpke :: "(bytes, bytes, bytes) hpke" where
  "demo_hpke =
     \<lparr>from_pkcs8_der = Some, sk_from_bytes = Some, pk_from_bytes = Some, ek_from_bytes = Some,
      single_shot_seal = (\<lambda>seed pk info m. Some (pk, info @ m)),
      single_shot_open = (\<lambda>sk ek info c. if ek = sk \<and> take (length info) c = info
         then Some (drop (length info) c) else None)\<rparr>"

definition demo_client :: OffChainCoordinatorClient where
  "demo_client = \<lparr>cl_identity = [20], cl_execution_id = demo_id, cl_t = 1, cl_n_parties = 4, cl_n_outputs = 2,
     cl_key_der = [33]\<rparr>"

theorem obtain_outputs_opens_sealed_witness:
  "obtain_outputs demo_hpke demo_scheme demo_client
     (Some [Received (map (\<lambda>_. ([33], execution_enc_info demo_id @ [7, 9])) [0, 1, 2 :: nat])]) = Ok [7, 9]"
proof -
  have "obtain_outputs demo_hpke demo_scheme demo_client
     (Some [Received (map (\<lambda>_. ([33], execution_enc_info demo_id @ [7, 9])) [0, 1, 2 :: nat])]) =
     Ok (map (\<lambda>i. [7, 9] ! i) [0..<unat (cl_n_outputs demo_client)])"
    by (rule obtain_outputs_opens_sealed [where client_pk = "[33]" and client_sk = "[33]" and key = "[33]" and raw = "[33]"
        and share_lists = "[[7, 9], [7, 9], [7, 9]]"])
      (simp_all add: demo_hpke_def demo_client_def demo_scheme_def seal_shares_def min_shares_feldman_def)
  then show ?thesis by (simp add: demo_client_def upt_rec)
qed

text \<open>
  One party is enough to deny a client its outputs: a share that does not decrypt, or does not
  parse, ends \<open>obtain_outputs\<close> with an error, however many good shares came with it.
\<close>

lemma bad_share_denies_outputs:
  "obtain_outputs demo_hpke demo_scheme demo_client
     (Some [Received (map (\<lambda>_. ([33], execution_enc_info demo_id @ [7, 9])) [0, 1, 2 :: nat] @ [([34], [])])]) =
   Err DecryptionError"
  by code_simp

section \<open>Draining a one-off coordinator\<close>

lemma retirement_complete_iff:
  assumes "coord_reachable s" and "map_of (srv_executions s) e = Some d"
  shows "retirement_progress s e =
      (card (ex_retirement_acks d), unat (srv_n s), ex_retirement_acks d = parties s)"
proof -
  have top: "topology_ok s" using coordinator.reachable_inv [OF assms(1)] by (rule server_invD(1))
  have sub: "ex_retirement_acks d \<subseteq> parties s" using reachable_invs(5) [OF assms] by (simp add: outputs_inv_def)
  have "finite (parties s)" by (simp add: parties_def)
  with sub have "card (parties s) \<le> card (ex_retirement_acks d) \<longleftrightarrow> ex_retirement_acks d = parties s"
    using card_seteq [of "parties s" "ex_retirement_acks d"] by auto
  then show ?thesis
    by (simp add: retirement_progress_def Let_def assms(2) topology_okD(3) [OF top] card_parties [OF top])
qed

lemma drain_iff: "drain e polls \<longleftrightarrow> (\<exists>s \<in> set polls. snd (snd (retirement_progress s e)))"
  by (induction polls) auto



end
