(* ===== verification/Onchain_Client_Properties.thy ===== *)
theory Onchain_Client_Properties
  imports Onchain_Client Client_Properties
begin

text \<open>
  The on-chain client against the off-chain one: both collect the same inputs from the same
  submissions, and what a party seals for an output client is what the client opens. Further lemmas
  show where the two implementations of the trait \<open>Coordinator\<close> differ.
\<close>

lemma u256_to_u64_ucast [simp]: "u256_to_u64 (ucast i) = Some i"
proof -
  have "uint (ucast i :: u256) = uint i" by (simp add: uint_up_ucast is_up)
  moreover have "uint i < 2 ^ 64" using uint_bounded [of i] by simp
  ultimately show ?thesis by (simp add: u256_to_u64_def ucast_up_ucast_id is_up)
qed

lemma u256_to_u64_None: "u256_to_u64 x = None \<longleftrightarrow> 2 ^ 64 \<le> uint x"
  by (simp add: u256_to_u64_def not_less)

section \<open>Inputs\<close>

lemma inputs_loops_agree:
  assumes "unat received + k = unat n_inputs"
  shows "onchain_inputs_loop sch mask_shares k (map (\<lambda>(client, bs, i). Received (client, bs, ucast i)) evs) m = Ok m' \<longleftrightarrow>
    inputs_loop sch mask_shares n_inputs (map (\<lambda>(client, bs, i). Received (MaskedInputEvent client [(i, bs)])) evs) received m = Ok m'"
  using assms
proof (induction evs arbitrary: k received m)
  case Nil
  then show ?case by (cases k) (auto simp: word_le_nat_alt)
next
  case (Cons ev evs)
  obtain client bs i where ev: "ev = (client, bs, i)" by (cases ev)
  show ?case
  proof (cases k)
    case 0
    with Cons.prems show ?thesis by (simp add: ev word_le_nat_alt)
  next
    case (Suc k')
    with Cons.prems have less: "\<not> n_inputs \<le> received" by (simp add: word_le_nat_alt)
    have "unat n_inputs < 2 ^ LENGTH(64)" by (rule unsigned_less)
    then have "unat (received + of_nat 1) = unat received + 1"
      using Suc Cons.prems by (intro unat_add_of_nat) simp
    then have "unat (received + 1) + k' = unat n_inputs" using Suc Cons.prems by simp
    note IH = Cons.IH [OF this]
    show ?thesis
      using less Suc by (auto simp: ev IH split: option.splits)
  qed
qed


text \<open>
  C34. The on-chain and the off-chain client collect the same inputs: when the contract announces
  each masked input in an event of its own and the off-chain coordinator announces the same masked
  inputs one by one, \<open>wait_for_inputs\<close> succeeds for the one exactly when it does for the other, and
  with the same inputs for each client.
\<close>

theorem onchain_inputs_agree:
  "onchain_wait_for_inputs sch n_inputs mask_shares (Some (map (\<lambda>(client, bs, i). Received (client, bs, ucast i)) evs)) = Ok result \<longleftrightarrow>
   wait_for_inputs sch n_inputs mask_shares
     (Some (map (\<lambda>(client, bs, i). Received (MaskedInputEvent client [(i, bs)])) evs)) = Ok result"
  using inputs_loops_agree [of 0 "unat n_inputs" n_inputs sch mask_shares evs Map.empty]
  by (simp add: onchain_wait_for_inputs_def wait_for_inputs_def and_then_Ok_iff)

text \<open>A stream of reservations that ends early is reported as complete.\<close>

lemma ended_stream_is_reported_complete:
  "onchain_wait_for_indices 5 (Some [Received ([1], 0), Undecodable, Received ([1], 1)]) = Ok [([1], [0])]"
  by code_simp

text \<open>With no inputs to wait for, the loop does not stop before the stream does.\<close>

lemma push_entry_not_Nil: "sum_list (map (length \<circ> snd) (push_entry k x m)) = Suc (sum_list (map (length \<circ> snd) m))"
  by (induction m) (auto simp: push_entry_def)

lemma no_inputs_waits_for_the_end:
  assumes "sum_list (map (length \<circ> snd) m) + length evs < 2 ^ 64"
  shows "onchain_indices_loop 0 (map (\<lambda>(client, i). Received (client, ucast i)) evs) m =
    Ok (foldl (\<lambda>m (client, i). push_entry client i m) m evs)"
  using assms
proof (induction evs arbitrary: m)
  case (Cons ev evs)
  obtain client i where ev: "ev = (client, i)" by (cases ev)
  let ?n = "Suc (sum_list (map (length \<circ> snd) m))"
  have "?n < 2 ^ LENGTH(64)" using Cons.prems by (simp add: comp_def)
  then have "unat (of_nat ?n :: u64) = ?n" by (simp add: unat_of_nat del: of_nat_Suc)
  then have "(of_nat ?n :: u64) \<noteq> 0" by (metis nat.distinct(1) unsigned_0)
  moreover have "sum_list (map (length \<circ> snd) (push_entry client i m)) + length evs < 2 ^ 64"
    unfolding push_entry_not_Nil using Cons.prems by (simp add: comp_def)
  note Cons.IH [OF this]
  ultimately show ?case by (simp add: ev push_entry_not_Nil Let_def del: of_nat_Suc)
qed simp

text \<open>
  A submission that is included in a block but reverted is reported as a success; a reservation is
  not.
\<close>

lemma reverted_submission_is_Ok:
  assumes "serialize_value sch v = Some bs"
  shows "onchain_send_masked_input sch (\<lambda>_. Included False) v i = Ok ()"
    and "onchain_reserve_mask_index (\<lambda>_. Included False) i \<noteq> Ok ()"
  using assms by (simp_all add: onchain_send_masked_input_def onchain_reserve_mask_index_def)

section \<open>Outputs\<close>

lemma onchain_open_shares_eq:
  "list_all2 (\<lambda>bs c. pair_of bs = Some c) bundles encs \<Longrightarrow>
     onchain_open_shares h sch pair_of client_sk n_outputs bundles = open_shares h sch client_sk ONCHAIN_ENC_INFO n_outputs encs"
  by (induction rule: list_all2_induct) (auto split: option.split)

text \<open>
  C35. What the parties seal for an output client of the on-chain coordinator is what the client
  opens: if at least \<open>min_shares\<close> parties have encrypted their shares with \<open>send_output_shares\<close> for the
  client's key, the client obtains exactly the values that the shares of each output determine.
\<close>

theorem onchain_outputs_open_sealed:
  assumes "\<forall>seed m ek c. single_shot_seal h seed client_pk ONCHAIN_ENC_INFO m = Some (ek, c) \<longrightarrow>
      (\<exists>k. ek_from_bytes h ek = Some k \<and> single_shot_open h client_sk k ONCHAIN_ENC_INFO c = Some m)"
    and "pk_from_bytes h key = Some client_pk"
    and "on_key_der co = Some der" "from_pkcs8_der h der = Some raw" "sk_from_bytes h raw = Some client_sk"
    and "\<forall>shares bs. serialize_shares sch shares = Some bs \<longrightarrow> deserialize_shares sch bs = Some shares"
    and "\<forall>c bs. pair_to c = Some bs \<longrightarrow> pair_of bs = Some c"
    and "list_all2 (\<lambda>shares bs. \<exists>seed. onchain_seal_shares h sch pair_to seed key shares = Ok bs) share_lists bundles"
    and "\<forall>shares \<in> set share_lists. length shares = unat (on_n_outputs co)"
    and "unat (min_shares sch (on_t co)) \<le> length share_lists"
    and "\<forall>i < unat (on_n_outputs co). recover_secret sch (map (\<lambda>shares. shares ! i) share_lists) (on_n co) (on_t co) = Some (output i)"
  shows "onchain_obtain_outputs h sch pair_of co (Some (Received bundles # items)) = Ok (map output [0..<unat (on_n_outputs co)])"
proof -
  have "\<exists>c. pair_of bs = Some c \<and> sealed_shares h sch client_pk ONCHAIN_ENC_INFO shares c"
    if "onchain_seal_shares h sch pair_to seed key shares = Ok bs" for shares bs seed
    using that assms(2,7) by (auto simp: onchain_seal_shares_def sealed_shares_def split: option.splits)
  note opened = this
  from assms(8) have "\<exists>encs. list_all2 (\<lambda>bs c. pair_of bs = Some c) bundles encs \<and>
      list_all2 (sealed_shares h sch client_pk ONCHAIN_ENC_INFO) share_lists encs"
  proof (induction rule: list_all2_induct)
    case (Cons shares share_lists bs bundles)
    with opened obtain c encs where "list_all2 (\<lambda>bs c. pair_of bs = Some c) (bs # bundles) (c # encs) \<and>
        list_all2 (sealed_shares h sch client_pk ONCHAIN_ENC_INFO) (shares # share_lists) (c # encs)"
      by fastforce
    then show ?case by blast
  qed simp
  then obtain encs where encs: "list_all2 (\<lambda>bs c. pair_of bs = Some c) bundles encs"
      "list_all2 (sealed_shares h sch client_pk ONCHAIN_ENC_INFO) share_lists encs" by blast
  have "onchain_open_shares h sch pair_of client_sk (on_n_outputs co) bundles = Ok share_lists"
    unfolding onchain_open_shares_eq [OF encs(1)]
    by (rule open_sealed_shares [OF assms(1,6) encs(2)]) (use assms(9) in simp)
  moreover have "List.map_filter (\<lambda>i. recover_secret sch (map (\<lambda>shares. shares ! i) share_lists) (on_n co) (on_t co))
      [0..<unat (on_n_outputs co)] = map output [0..<unat (on_n_outputs co)]"
    by (rule map_filter_all) (use assms(11) in simp)
  moreover have "length bundles = length share_lists" using list_all2_lengthD [OF assms(8)] by simp
  ultimately show ?thesis using assms(3-5,10) by (simp add: onchain_obtain_outputs_def)
qed

definition demo_onchain :: OnChainCoordinator where
  "demo_onchain = \<lparr>on_contract_block = 0, on_n = 4, on_t = 1, on_n_outputs = 2, on_key_der = Some [33]\<rparr>"

text \<open>A pair codec for evaluation: the key is one byte.\<close>

definition demo_pair_of :: "bytes \<Rightarrow> enc_share option" where
  "demo_pair_of bs = (case bs of [] \<Rightarrow> None | k # c \<Rightarrow> Some ([k], c))"

definition demo_pair_to :: "enc_share \<Rightarrow> bytes option" where
  "demo_pair_to c = (case c of ([k], ct) \<Rightarrow> Some (k # ct) | _ \<Rightarrow> None)"

theorem onchain_outputs_open_sealed_witness:
  "onchain_obtain_outputs demo_hpke demo_scheme demo_pair_of demo_onchain
     (Some [Received (map (\<lambda>_. 33 # ONCHAIN_ENC_INFO @ [7, 9]) [0, 1, 2 :: nat])]) = Ok [7, 9]"
proof -
  have "onchain_obtain_outputs demo_hpke demo_scheme demo_pair_of demo_onchain
     (Some [Received (map (\<lambda>_. 33 # ONCHAIN_ENC_INFO @ [7, 9]) [0, 1, 2 :: nat])]) =
     Ok (map (\<lambda>i. [7, 9] ! i) [0..<unat (on_n_outputs demo_onchain)])"
    by (rule onchain_outputs_open_sealed [where client_pk = "[33]" and client_sk = "[33]" and key = "[33]" and raw = "[33]"
        and der = "[33]" and pair_to = demo_pair_to and share_lists = "[[7, 9], [7, 9], [7, 9]]"])
      (auto simp: demo_hpke_def demo_onchain_def demo_scheme_def onchain_seal_shares_def min_shares_feldman_def
        demo_pair_of_def demo_pair_to_def split: list.splits)
  then show ?thesis by (simp add: demo_onchain_def upt_rec)
qed

end
