(* ===== verification/Deploy_Tools.thy ===== *)
theory Deploy_Tools
  imports Run_Properties Onchain_Client
begin

text \<open>
  The programs \<^verbatim>\<open>crates/bins/src/bin/deploy-contract.rs\<close> and \<^verbatim>\<open>crates/bins/src/bin/generate-ids.rs\<close>.
  The first computes the constructor arguments of the coordinator contract from a compiled program
  and sends them off; the second writes a self-signed certificate and its key. What is modelled of
  the first ends with the constructor call. Compiled programs, addresses, hashing, certificates and
  files are the records below; every failed \<open>expect\<close>, \<open>unwrap\<close> and \<open>assert\<close> is \<open>Panic\<close>.
\<close>

section \<open>Deploying the contract\<close>

record DeployArgs =
  da_eth_node_addr :: string
  da_initial_mpc_nodes :: "string list"
  da_output_clients :: "string list"
  da_t :: u32
  da_program :: string

record ('i, 'o, 'b) deploy_host =
  dh_deploy_sk :: "string option"
  dh_connect :: "string \<Rightarrow> string \<Rightarrow> bool"
  dh_load_program :: "string \<Rightarrow> 'b option"
  dh_manifest :: "'b \<Rightarrow> ('i, 'o) ClientIoManifest"
  dh_serialize :: "'b \<Rightarrow> bytes option"
  dh_keccak256 :: "bytes \<Rightarrow> bytes"
  dh_address_from_str :: "string \<Rightarrow> Address option"

record deployment =
  dep_hash :: bytes
  dep_t :: u256
  dep_initial_mpc_nodes :: "Address list"
  dep_n_inputs :: u256
  dep_output_clients :: "Address list"
  dep_threshold :: u256

definition program_hash :: "('i, 'o, 'b) deploy_host \<Rightarrow> 'b \<Rightarrow> ('e, bytes) result" where
  "program_hash host binary = and_then (unwrap (dh_serialize host binary)) (\<lambda>bs. Ok (dh_keccak256 host bs))"

definition deploy_n_inputs :: "('i, 'o) ClientIoManifest \<Rightarrow> u32" where
  "deploy_n_inputs manifest = wrapping_sum (map (\<lambda>client. of_nat (length (schema_inputs client))) (manifest_clients manifest))"

definition deploy_n_output_clients :: "('i, 'o) ClientIoManifest \<Rightarrow> nat" where
  "deploy_n_output_clients manifest = length (filter (\<lambda>client. schema_outputs client \<noteq> []) (manifest_clients manifest))"

definition deploy_threshold :: "MpcBackend \<Rightarrow> u32 \<Rightarrow> u256" where
  "deploy_threshold mpc_backend t =
     ucast (case mpc_backend of MpcHoneyBadger \<Rightarrow> min_shares_robust (ucast t) | MpcAvss \<Rightarrow> min_shares_feldman (ucast t))"

definition deploy_main :: "('i, 'o, 'b) deploy_host \<Rightarrow> DeployArgs \<Rightarrow> ('e, deployment) result" where
  "deploy_main host args =
     and_then (unwrap (dh_deploy_sk host)) (\<lambda>sk.
     if \<not> dh_connect host (da_eth_node_addr args) sk then Panic
     else
       and_then (unwrap (dh_load_program host (da_program args))) (\<lambda>binary.
       and_then (program_hash host binary) (\<lambda>hash.
       and_then (traverse (\<lambda>s. unwrap (dh_address_from_str host s)) (da_initial_mpc_nodes args)) (\<lambda>initial_mpc_nodes.
       and_then (traverse (\<lambda>s. unwrap (dh_address_from_str host s)) (da_output_clients args)) (\<lambda>output_clients.
       let manifest = dh_manifest host binary in
       if length output_clients \<noteq> deploy_n_output_clients manifest then Panic
       else Ok \<lparr>dep_hash = hash, dep_t = ucast (da_t args), dep_initial_mpc_nodes = initial_mpc_nodes,
                dep_n_inputs = ucast (deploy_n_inputs manifest), dep_output_clients = output_clients,
                dep_threshold = deploy_threshold (manifest_mpc_backend manifest) (da_t args)\<rparr>)))))"

section \<open>Generating an identity\<close>

record IdArgs =
  ia_cert :: string
  ia_key :: string
  ia_subject_alt_names :: "string list"

text \<open>The files written, in order; \<open>generate\<close> is \<open>rcgen\<close>, \<open>writable\<close> says whether a write succeeds.\<close>

definition generate_ids_main ::
  "(string list \<Rightarrow> (bytes \<times> bytes) option) \<Rightarrow> (string \<Rightarrow> bool) \<Rightarrow> IdArgs \<Rightarrow> ('e, unit) result \<times> (string \<times> bytes) list" where
  "generate_ids_main generate writable args =
     (case generate (ia_subject_alt_names args) of
        None \<Rightarrow> (Panic, [])
      | Some (cert_der, key_der) \<Rightarrow>
          if \<not> writable (ia_cert args) then (Panic, [])
          else if \<not> writable (ia_key args) then (Panic, [(ia_cert args, cert_der)])
          else (Ok (), [(ia_cert args, cert_der), (ia_key args, key_der)]))"

section \<open>The two coordinators are set up alike\<close>

lemma schema_at_self:
  "distinct (slots_of manifest) \<Longrightarrow> schema \<in> set (manifest_clients manifest) \<Longrightarrow>
     schema_at manifest (schema_client_slot schema) = schema"
  using schema_at_in [of "schema_client_slot schema" manifest] by (auto simp: distinct_map inj_on_def)

lemma bound_schemas_mset:
  assumes "distinct (slots_of manifest)" and "distinct (map fst bindings)" and "set (map fst bindings) = set (slots_of manifest)"
  shows "mset (map (\<lambda>b. schema_at manifest (fst b)) bindings) = mset (manifest_clients manifest)"
proof -
  have "mset (map fst bindings) = mset (slots_of manifest)" using set_eq_iff_mset_eq_distinct [of "map fst bindings" "slots_of manifest"] assms by blast
  then have "image_mset (schema_at manifest) (mset (map fst bindings)) = image_mset (schema_at manifest) (mset (slots_of manifest))"
    by simp
  also have "\<dots> = mset (map (\<lambda>schema. schema_at manifest (schema_client_slot schema)) (manifest_clients manifest))"
    by (simp add: image_mset.compositionality comp_def)
  also have "map (\<lambda>schema. schema_at manifest (schema_client_slot schema)) (manifest_clients manifest) = manifest_clients manifest"
    using schema_at_self [OF assms(1)] by (simp add: map_idI)
  finally show ?thesis by (simp add: image_mset.compositionality comp_def)
qed

lemma unat_ucast_up: "LENGTH('a) \<le> LENGTH('b) \<Longrightarrow> unat (ucast x :: 'b::len word) = unat x" for x :: "'a::len word"
  by (simp add: uint_up_ucast is_up flip: nat_uint_eq)

lemma unat_sum_lengths:
  assumes "(\<Sum>x \<leftarrow> xs. f x) < 2 ^ LENGTH('a)"
  shows "unat (wrapping_sum (map (\<lambda>x. of_nat (f x) :: 'a::len word) xs)) = (\<Sum>x \<leftarrow> xs. f x)"
proof -
  have "f x < 2 ^ LENGTH('a)" if "x \<in> set xs" for x
    using assms member_le_sum_list [of "f x" "map f xs"] that by auto
  then have "map (unat \<circ> (\<lambda>x. of_nat (f x) :: 'a word)) xs = map f xs" by (auto intro: unat_of_nat_small)
  then have "map unat (map (\<lambda>x. of_nat (f x) :: 'a word) xs) = map f xs" unfolding map_map .
  with unat_wrapping_sum [of "map (\<lambda>x. of_nat (f x) :: 'a word) xs"] assms show ?thesis by (simp only:)
qed

lemma one_off_io_program:
  assumes "one_off_io host args keys = (Ok (backend, a, outs, n_inputs) :: ('f, _) result)"
    and "arg_program args = Some p" and "host_load_program host p = Some manifest"
  obtains bindings where "build_input_assignment manifest bindings = Ok (a, outs)" and "backend = manifest_mpc_backend manifest"
    and "n_inputs = wrapping_sum (map range_count (ia_ranges a))"
  using assms by (auto simp: one_off_io_def and_then_Ok_iff)

text \<open>The numbers that \<open>build_input_assignment\<close> hands on are those of the manifest.\<close>

lemma built_counts:
  assumes "manifest_ok manifest" and "build_input_assignment manifest bindings = Ok (a, outs)"
    and "(\<Sum>client \<leftarrow> manifest_clients manifest. length (schema_inputs client)) < 2 ^ 64"
  shows "unat (wrapping_sum (map range_count (ia_ranges a))) = (\<Sum>client \<leftarrow> manifest_clients manifest. length (schema_inputs client))"
    and "length outs = deploy_n_output_clients manifest"
proof -
  let ?schemas = "map (\<lambda>b. schema_at manifest (fst b)) bindings"
  from assms(2) have built: "distinct (slots_of manifest)" "distinct (map fst bindings)"
      "set (map fst bindings) = set (slots_of manifest)" "outs = map snd (output_bindings manifest bindings)"
      and ranges: "ia_ranges a = map (\<lambda>(j, count). \<lparr>range_client_index = of_nat j, range_count = of_nat count\<rparr>)
        (enumerate 0 (input_counts manifest bindings))"
    by (auto simp: build_input_assignment_Ok [OF assms(1)])
  have counts: "map range_count (ia_ranges a) = map of_nat (input_counts manifest bindings)"
    by (simp add: ranges list_eq_iff_nth_eq nth_enumerate_eq)
  note same = bound_schemas_mset [OF built(1-3)]
  have "sum_list (input_counts manifest bindings) = (\<Sum>b \<leftarrow> bindings. length (schema_inputs (schema_at manifest (fst b))))"
    unfolding input_counts_def input_bindings_def by (rule sum_list_map_filter) auto
  also have "\<dots> = sum_mset (image_mset (length \<circ> schema_inputs) (mset ?schemas))"
    by (simp add: sum_mset_sum_list [symmetric] image_mset.compositionality comp_def)
  also have "\<dots> = (\<Sum>client \<leftarrow> manifest_clients manifest. length (schema_inputs client))"
    unfolding same by (simp add: sum_mset_sum_list [symmetric] comp_def)
  finally show "unat (wrapping_sum (map range_count (ia_ranges a))) = (\<Sum>client \<leftarrow> manifest_clients manifest. length (schema_inputs client))"
    using unat_sum_lengths [of "\<lambda>x. x" "input_counts manifest bindings", where 'a = 64] assms(3) by (simp add: counts)
  have "size (filter_mset (\<lambda>schema. schema_outputs schema \<noteq> []) (mset ?schemas)) = deploy_n_output_clients manifest"
    unfolding same by (simp add: deploy_n_output_clients_def flip: mset_filter)
  then show "length outs = deploy_n_output_clients manifest"
    by (simp add: built(4) output_bindings_def filter_map comp_def split_def flip: mset_filter mset_map)
qed


definition demo_deploy_host :: "(nat, nat, (nat, nat) ClientIoManifest) deploy_host" where
  "demo_deploy_host = \<lparr>dh_deploy_sk = Some ''k'', dh_connect = (\<lambda>_ _. True), dh_load_program = (\<lambda>_. Some demo_manifest),
     dh_manifest = (\<lambda>m. m), dh_serialize = (\<lambda>_. Some [1]), dh_keccak256 = (\<lambda>bs. bs),
     dh_address_from_str = (\<lambda>s. Some (map of_char s))\<rparr>"

definition demo_deploy_args :: DeployArgs where
  "demo_deploy_args = \<lparr>da_eth_node_addr = ''e'', da_initial_mpc_nodes = [''a''], da_output_clients = [''o''], da_t = 1, da_program = ''p''\<rparr>"


end
