(* ===== verification/Spec2Isabelle.thy ===== *)
theory Spec2Isabelle
  imports Node_Service_Properties Onchain_Node_Properties Onchain_Client_Properties Deploy_Tools
begin

text \<open>
  A verification of the Stoffel MPC coordinator.

  \<^bold>\<open>The program.\<close> Parties of a multi-party computation and the clients that give inputs to it and
  receive outputs from it meet at a coordinator. The off-chain coordinator
  (\<^verbatim>\<open>src/crates/off-chain/src/lib.rs\<close>) is a server: parties register executions, propose the rounds of
  the protocol, acknowledge its end and deliver encrypted output shares; clients reserve input
  masks, submit masked inputs and fetch output shares. Each party also runs a node RPC server that
  hands the shares of a mask to the client that has reserved it. Native peers are known by the key of
  their TLS certificate (\<^verbatim>\<open>src/crates/coord-shared/src/rpc.rs\<close>, \<^verbatim>\<open>self_signed_certs.rs\<close>); browsers come
  over a second listener and sign their requests with a session key that a WebAuthn assertion has
  bound (\<^verbatim>\<open>src/crates/off-chain/src/browser_rpc.rs\<close>). The on-chain variant
  (\<^verbatim>\<open>src/crates/on-chain/src/lib.rs\<close>) uses a contract instead of the server. The programs are
  \<^verbatim>\<open>run-coord\<close>, \<^verbatim>\<open>deploy-contract\<close> and \<^verbatim>\<open>generate-ids\<close> (\<^verbatim>\<open>src/crates/bins/src/bin\<close>).

  \<^bold>\<open>Theories and code.\<close>

  \<^item> \<open>Coord_Prelude\<close>: results with panics, checked and wrapping 64-bit arithmetic, hash maps,
    reachability and the locale \<open>invariant_system\<close>.
  \<^item> \<open>Coord_Shared\<close>: \<^verbatim>\<open>coord-shared/src/lib.rs\<close>; execution identifiers, rounds, error enumerations, share
    policies, the default batch loops of the \<open>Coordinator\<close> trait.
  \<^item> \<open>Offchain_Types\<close>, \<open>Retired_Executions\<close>, \<open>Coord_Execution\<close>, \<open>Coord_Server\<close>: the coordinator; its wire
    data, \<open>RetiredExecutions\<close>, \<open>CoordinatorExecutionState\<close> and \<open>CoordinatorRPCServerSharedBase\<close> with all
    methods of \<open>CoordinatorRPCBase\<close>. \<open>coord_step\<close> interleaves the sections that hold a lock.
  \<^item> \<open>Execution_Invariant\<close>, \<open>Execution_Rounds\<close>, \<open>Server_Invariant\<close>: the invariant, one interpretation of the
    locale \<open>execution_op\<close> per operation, quorums by the locale \<open>quorum_roster\<close>. \<open>Coord_Runs\<close>, \<open>Coord_Properties\<close>,
    \<open>Coord_Handlers\<close>, \<open>Coord_Delivery\<close>: an example run and the properties of rounds, handlers and deliveries.
  \<^item> \<open>Node_Rpc\<close>, \<open>Node_Properties\<close>: the module \<open>node_rpc\<close> of the off-chain crate and the recovery of masks.
  \<^item> \<open>Session_Auth\<close>, \<open>Browser_Auth\<close>, \<open>Browser_Rpc\<close>, \<open>Browser_Properties\<close>: \<^verbatim>\<open>browser_rpc.rs\<close>; session tables, signed
    requests and assertions, the methods of both browser listeners (locale \<open>session_host\<close>).
  \<^item> \<open>Coord_Client\<close>, \<open>Client_Properties\<close>: \<open>OffChainCoordinatorClient\<close> over a link that may lose a request or a
    reply, the connection's round methods, and the shutdown of a one-off coordinator.
  \<^item> \<open>Onchain_Node\<close>, \<open>Onchain_Node_Properties\<close>, \<open>Onchain_Client\<close>, \<open>Onchain_Client_Properties\<close>: the on-chain crate; the
    node RPC server that verifies Ethereum signatures, and \<open>OnChainCoordinator\<close>.
  \<^item> \<open>Rpc_Transport\<close>: the certificate verifiers, TLS configurations and accept loops.
  \<^item> \<open>Run_Coord\<close>, \<open>Run_Properties\<close>, \<open>Deploy_Tools\<close>: the three programs.
  \<^item> \<open>Coord_Service\<close>, \<open>Service_Properties\<close>, \<open>Node_Service\<close>, \<open>Node_Service_Properties\<close>: everything put together;
    \<open>OffChainCoordinatorServer\<close> and \<open>NodeRPCServer\<close> with their listeners over one shared state, as \<open>main\<close> starts
    them. The properties that span all of it are at the end of this theory.

  \<^bold>\<open>State and errors.\<close> A struct is a record with the fields of the source, an enumeration a datatype. A
  method that takes the state by lock is a function from the state to the reply, the new state and
  the messages it sends. \<open>result\<close> has \<open>Ok\<close>, \<open>Err\<close> and \<open>Panic\<close>; indexing out of range, \<open>unwrap\<close>, \<open>expect\<close> and
  failed assertions are \<open>Panic\<close>. Integers are words of their width and wrap, as in a release build, where the
  source does not check. A hash map that is iterated is an association list, whose order \<open>step_reorder\<close>
  changes at will; one that is only looked up is a map. The premise \<open>vec_ok\<close> says that a vector has less
  than \<open>2 ^ 63\<close> elements, which every vector of a 64-bit machine has.

  \<^bold>\<open>Parameters.\<close> Code outside the repository is an argument: \<open>crypto\<close> (P-256, SHA-256, base64, JSON of the client
  data), \<open>file_system\<close>, \<open>serde\<close>, \<open>hpke\<close>, \<open>share_scheme\<close>, \<open>eth\<close> (Keccak, signing and recovering addresses),
  \<open>wire\<close>, \<open>tls\<close> (rustls, rustls-pemfile, x509-parser), \<open>host\<close> and \<open>deploy_host\<close> (files, compiled programs),
  \<open>platform\<close>, the outcome of sends, of transactions and of connection attempts, and the sequences of
  events that a stream delivers. What the properties need of them are named premises
  (\<open>hex_codec\<close>, \<open>eth_ok\<close>, \<open>tls_authenticates\<close> and the round trip of sealing and opening), each with an instance in
  the witness.

  \<^bold>\<open>What is shown.\<close> Rounds: an applied round has a quorum with a party outside any \<open>t\<close>; the history is a path
  of legal moves; nothing recorded is taken back; the cascade of rounds ends; honest parties finish.
  Handlers: each is a sequence of the interleaved sections, panics in no reachable state, touches only its
  execution, and is all or nothing; memory is bounded and eviction needs a quorum. Deliveries: late
  subscribers see the whole history, subscriptions to rounds are not lost, output shares reach a waiting
  client. Nodes: requests are answered as soon as they can be, shares go only to the owner of a slot,
  recovered masks come from enough shares of the right index. Browser: requests are not replayed, and every
  accepted one leads back to an assertion; the views agree with the native methods. Clients: what is
  collected is what was submitted, what is opened is what was sealed, the on-chain client computes the
  same inputs as the off-chain one. Programs: which arguments start a coordinator and in which state,
  and that a deployed contract and a one-off coordinator for the same program are configured alike.
  Services: rounds, shutdown and mask shares trace back to peers that have proven their key.

  \<^bold>\<open>Loops and bounds.\<close> All loops of the source that the model has are structural recursions on the messages,
  rounds or batches they consume and need no fuel; the round cascade \<open>try_advance_loop\<close> terminates by the
  number of rounds left. A stream that ends is the end of its list. The drawing of a fresh session token
  is a recursion on the draws; \<open>None\<close> is a source of randomness that never gives a fresh one. At most
  1024 executions and 4096 tombstones are kept; both constants are the source's.

  \<^bold>\<open>Over-approximations.\<close> The mutex \<open>masked_input_delivery\<close> has no field: the second section of a submission may
  come at any later time. In \<open>coord_step\<close>, \<open>call_section\<close> and \<open>method_section\<close> later sections come with any sinks, and
  a section of a browser method with any identity. On a node the lookup of an execution and the section on
  it are one step. A connection is served from its admission on; the handshake is one event.

  \<^bold>\<open>Not modelled.\<close> Parsing of the command line by \<open>clap\<close>, printing and logging. The sockets, HTTP and WebSocket
  framing and the task that serves an admitted connection, which are the crates hyper, jsonrpsee and tokio; what
  they deliver are the calls of the model. The generation of certificates (\<open>server_cert\<close>, \<open>client_cert\<close> and the
  \<open>..._from_cert\<close> wrappers around it) and \<open>ws_connect\<close> and \<open>setup_coord\<close>, which only call rcgen and alloy. The contract
  itself, which is Solidity in a submodule. Declarations of traits that the implementations above fill,
  imports and re-exports, and the tests that the source files contain.
\<close>

section \<open>From the handshake to the rounds\<close>

text \<open>
  C1. End to end: when an execution of the running program has entered a round, then for any \<open>t\<close>
  identities there is a party of the roster other than these that proposed the round, over a
  connection of the native listener on which it had proven by its signature that it holds the key
  under which it is in the roster. Nothing that comes in over the browser listener, no other
  interleaving of the handlers and no registration can make a round happen without it.
\<close>

theorem rounds_are_proven:
  assumes "coordinator_program pf host args = (Ok sv0 :: ('c, _) result)" and "vec_ok (arg_initial_mpc_nodes args)"
    and "tls_authenticates (pf_tls pf) handshake (pf_accept pf)"
    and "server_run (pf_crypto pf) sv0 trace sv"
    and "map_of (srv_executions (os_shared sv)) e = Some d" and "ex_trans_events d r \<noteq> None"
    and "finite faulty" and "card faulty \<le> unat (arg_t args)"
  shows "\<exists>p \<in> set (srv_mpc_nodes (os_shared sv)) - faulty. proven_call (pf_tls pf) handshake trace (Proposed e r) p"
proof -
  note run = program_run [OF assms(1,2,4)]
  have top: "topology_ok (os_shared sv)" by (rule server_invD(1) [OF coordinator.reachable_inv [OF run(1)]])
  have inv: "rounds_inv (parties (os_shared sv)) (transition_quorum (os_shared sv)) d" by (rule reachable_invs(3) [OF run(1) assms(5)])
  then obtain voters where v: "ex_transition_votes d r = Some voters" "transition_quorum (os_shared sv) \<le> card voters"
    using assms(6) unfolding rounds_inv_def quorum_at_def by blast
  from inv v(1) have sub: "voters \<subseteq> parties (os_shared sv)" unfolding rounds_inv_def by blast
  obtain p where p: "p \<in> voters" "p \<notin> faulty"
    by (rule transition_roster.honest_member [OF top sub v(2)]) (use run(2) assms(7,8) in auto)
  then have "done_by (os_shared sv) (Proposed e r) p" using assms(5) v(1) by (auto simp: done_by_def)
  from acts_are_proven [OF assms(1-4) this] p sub show ?thesis by (auto simp: parties_def)
qed

theorem rounds_are_proven_witness:
  "\<exists>p \<in> {[97], [98], [99], [100]} - {[97 :: u8]}.
     proven_call demo_tls (\<lambda>tcp. ([5], Tls13, snd tcp)) demo_trace (Proposed demo_one_off MPCExecution) p"
proof -
  have nodes: "srv_mpc_nodes (os_shared demo_end) = [[97], [98], [99], [100]]" by code_simp
  have "case map_of (srv_executions (os_shared demo_end)) demo_one_off of
      None \<Rightarrow> False | Some d \<Rightarrow> \<not> Option.is_none (ex_trans_events d MPCExecution)" by code_simp
  then obtain d where d: "map_of (srv_executions (os_shared demo_end)) demo_one_off = Some d" "ex_trans_events d MPCExecution \<noteq> None"
    by (auto simp: Option.is_none_def split: option.splits)
  have args: "vec_ok (arg_initial_mpc_nodes demo_args)" "card {[97 :: u8]} \<le> unat (arg_t demo_args)"
    by (simp_all add: demo_args_def vec_ok_def)
  from rounds_are_proven [OF demo_program args(1) _ _ d _ args(2), of "\<lambda>tcp. ([5], Tls13, snd tcp)" demo_trace]
    demo_server_run demo_authenticates nodes
  show ?thesis by (simp add: demo_platform_def)
qed

section \<open>The end of a one-off coordinator\<close>

text \<open>
  C2. A one-off coordinator goes on to stop only when its execution has reached \<open>ProgramFinished\<close> and
  the first party of the roster has asked for it over a connection on which it had proven its key;
  and once it has stopped no connection is served any more.
\<close>

theorem one_off_exit_is_earned:
  assumes "coordinator_program pf host args = (Ok sv0 :: ('c, _) result)" and "vec_ok (arg_initial_mpc_nodes args)"
    and "arg_one_off args = Some one_off"
    and "tls_authenticates (pf_tls pf) handshake (pf_accept pf)"
    and "server_run (pf_crypto pf) sv0 trace sv" and "srv_shutdown_fired (os_shared sv)"
  shows "round_of (os_shared sv) (oo_execution_id one_off) = Some ProgramFinished \<and>
    (\<exists>p rest. srv_mpc_nodes (os_shared sv) = p # rest \<and> proven_call (pf_tls pf) handshake trace AskedShutdown p) \<and>
    handle_connections (os_server_handle (snd (one_off_finish (oo_execution_id one_off) polls sv))) = []"
proof (intro conjI)
  note run = program_run [OF assms(1,2,5)]
  have inv: "server_inv (os_shared sv0)" by (rule coordinator.reachable_inv [OF coordinator_program_start(1) [OF assms(1,2)]])
  have "srv_one_off_execution (os_shared sv) = Some (oo_execution_id one_off)"
    using server_run_one_off [OF assms(5) inv] coordinator_program_start(4) [OF assms(1-3)] by simp
  with shutdown.reachable_inv [OF run(1)] assms(6)
  show "round_of (os_shared sv) (oo_execution_id one_off) = Some ProgramFinished" by (simp add: shutdown_inv_def)
  have "srv_mpc_nodes (os_shared sv) \<noteq> []"
    using topology_okD [OF server_invD(1) [OF coordinator.reachable_inv [OF run(1)]]] by auto
  then obtain p rest where nodes: "srv_mpc_nodes (os_shared sv) = p # rest" by (cases "srv_mpc_nodes (os_shared sv)") auto
  then have "done_by (os_shared sv) AskedShutdown p" using assms(6) by (simp add: done_by_def)
  from acts_are_proven [OF assms(1,2,4,5) this] nodes
  show "\<exists>p rest. srv_mpc_nodes (os_shared sv) = p # rest \<and> proven_call (pf_tls pf) handshake trace AskedShutdown p" by blast
  from assms(1,2) obtain cfg where h: "os_server_handle sv0 = handle_start (listener_run (connection_identity (pf_tls pf) (pf_accept pf) cfg))"
    by (rule coordinator_program_Ok)
  with server_run_handle [OF assms(5)] have "rh_run (os_server_handle sv) = listener_run (connection_identity (pf_tls pf) (pf_accept pf) cfg)"
    by (simp add: handle_start_def)
  from handle_shutdown_connections [OF this]
  show "handle_connections (os_server_handle (snd (one_off_finish (oo_execution_id one_off) polls sv))) = []"
    by (simp add: one_off_finish_def server_shutdown_def Let_def)
qed

theorem one_off_exit_is_earned_witness:
  "\<exists>p. proven_call demo_tls (\<lambda>tcp. ([5], Tls13, snd tcp)) demo_trace AskedShutdown p \<and>
     round_of (os_shared demo_end) demo_one_off = Some ProgramFinished"
proof -
  have fired: "srv_shutdown_fired (os_shared demo_end)" by code_simp
  have args: "vec_ok (arg_initial_mpc_nodes demo_args)" "arg_one_off demo_args = Some \<lparr>oo_hash = 1 # replicate 31 0, oo_execution_id = demo_one_off\<rparr>"
    by (simp_all add: demo_args_def vec_ok_def)
  from one_off_exit_is_earned [OF demo_program args _ _ fired, of "\<lambda>tcp. ([5], Tls13, snd tcp)" demo_trace]
    demo_server_run demo_authenticates
  show ?thesis by (auto simp: demo_platform_def)
qed

section \<open>From the handshake to the mask shares\<close>

text \<open>
  C3. End to end: whatever a running node sends to a subscriber are mask shares of slots that one
  client has reserved, and the subscriber is a peer that had asked for just these slots over a
  connection of the native listener on which it had proven that it holds the key of that client.
\<close>

theorem mask_shares_reach_proven_owners:
  assumes "node_started pf sv0" and "tls_authenticates (pf_tls pf) handshake (pf_accept pf)"
    and "node_server_run c sv0 trace sv" and "node_server_step c sv a ds sv'" and "(k, m) \<in> set ds"
  shows "\<exists>e d client req. map_of (ns_node sv') e = Some d \<and> k = req_sink req \<and> owned_shares d client req \<and>
    m = shares_message d req \<and> subscribed (proven_identity (pf_tls pf) handshake) (trace @ [a]) e client req"
proof -
  note start = node_startedD [OF assms(1)]
  from start(1) obtain cfg where cfg: "sc_client_auth cfg"
    and h: "ns_server_handle sv0 = handle_start (listener_run (connection_identity (pf_tls pf) (pf_accept pf) cfg))" by blast
  have "node_reachable (ns_node sv)" by (rule node_server_run_node [OF assms(3) start(2)])
  from node_step_sends [OF assms(4) this assms(5)]
  obtain e d client req where sent: "map_of (ns_node sv') e = Some d" "k = req_sink req" "owned_shares d client req"
      "m = shares_message d req"
      and origin: "pending (ns_node sv) e client req \<or>
        (\<exists>j. a = NodeSubscribe j (Some (req_sink req)) e (req_start req) (req_count req) \<and>
           (j, client) \<in> set (handle_connections (ns_server_handle sv)))" by blast
  have "subscribed (\<lambda>tcp client. connection_identity (pf_tls pf) (pf_accept pf) cfg tcp = Some client) (trace @ [a]) e client req"
    using origin
  proof (elim disjE exE conjE)
    assume "pending (ns_node sv) e client req"
    from node_server_run_pending [OF assms(3) h start(3) this] show ?thesis by (rule subscribed_append)
  next
    fix j
    assume a: "a = NodeSubscribe j (Some (req_sink req)) e (req_start req) (req_count req)"
      and "(j, client) \<in> set (handle_connections (ns_server_handle sv))"
    with node_connection_admitted [OF assms(3) h] show ?thesis unfolding subscribed_def by blast
  qed
  then have "subscribed (proven_identity (pf_tls pf) handshake) (trace @ [a]) e client req"
    using admitted_is_proven [OF assms(2) cfg] unfolding subscribed_def by blast
  with sent show ?thesis by blast
qed

theorem mask_shares_reach_proven_owners_witness:
  "\<exists>client req. req_sink req = 3 \<and>
     subscribed (proven_identity demo_tls (\<lambda>tcp. ([5], Tls13, snd tcp)))
       [NodeNativeEvent (Accepted 0 ([21 :: u8], [21, 5 :: u8])), NodeSubscribe 0 (Some 3) demo_node_id 0 1, NodeOwnCall, NodeOwnCall]
       demo_node_id client req"
proof -
  let ?t = "[NodeNativeEvent (Accepted 0 ([21 :: u8], [21, 5 :: u8])), NodeSubscribe 0 (Some 3) demo_node_id 0 1, NodeOwnCall, NodeOwnCall]"
  let ?y = "add_mask_shares_for_execution (\<lambda>outcome. outcome) demo_node_id [(0, Some [100])] (ns_node demo_node_reserved)"
  have started: "node_started demo_platform demo_node_start"
  proof -
    have "case node_start_for_execution demo_platform ''h'' 1 demo_node_id [1] [2] of Ok _ \<Rightarrow> True | _ \<Rightarrow> False"
      by code_simp
    then have "node_start_for_execution demo_platform ''h'' 1 demo_node_id [1] [2] = Ok demo_node_start"
      by (cases "node_start_for_execution demo_platform ''h'' 1 demo_node_id [1] [2]") (simp_all add: demo_node_start_def)
    then show ?thesis unfolding node_started_def by blast
  qed
  have step: "node_server_step demo_crypto demo_node_reserved NodeOwnCall (snd (snd ?y)) (demo_node_reserved\<lparr>ns_node := fst (snd ?y)\<rparr>)"
    by (rule nv_share) (rule prod_eqI; simp)
  have sent: "(3, MaskSharesMsg [\<lparr>ams_reserved_index = 0, ams_share_bytes = [100]\<rparr>]) \<in> set (snd (snd ?y))" by code_simp
  have nodes: "map fst (fst (snd ?y)) = [demo_node_id]" by code_simp
  have auth: "tls_authenticates (pf_tls demo_platform) (\<lambda>tcp. ([5], Tls13, snd tcp)) (pf_accept demo_platform)"
    using demo_authenticates by (simp add: demo_platform_def)
  from mask_shares_reach_proven_owners [OF started auth demo_node_run step sent]
  obtain e d client req where "map_of (fst (snd ?y)) e = Some d" "3 = req_sink req"
      "subscribed (proven_identity (pf_tls demo_platform) (\<lambda>tcp. ([5], Tls13, snd tcp))) ?t e client req"
    by (simp del: map_of_map) blast
  moreover have "e = demo_node_id"
  proof -
    from calculation(1) have "e \<in> set (map fst (fst (snd ?y)))" by (force dest: map_of_SomeD)
    then show ?thesis by (simp only: nodes) simp
  qed
  ultimately show ?thesis by (auto simp: demo_platform_def)
qed

end
